theory Spec2Isabelle
  imports Main "HOL-Library.Log_Nat"
begin

section \<open>JavaScript strings\<close>

text \<open>
  A JavaScript string is a finite sequence of UTF-16 code units. A code unit is modelled as a
  natural number (below 65536 in every string the program can hold); \<open>ascii\<close> turns a
  literal of Basic Latin characters into such a sequence.
\<close>

type_synonym jsstring = "nat list"

definition ascii :: "string \<Rightarrow> jsstring" where
  "ascii s = map of_char s"

text \<open>
  \<open>WhiteSpace\<close> and \<open>LineTerminator\<close> of ECMAScript: the code units removed by
  \<open>String.prototype.trim\<close> and matched by the regular expression class \<open>\s\<close>.
\<close>

definition is_ws :: "nat \<Rightarrow> bool" where
  "is_ws c \<longleftrightarrow>
     c = 9 \<or> c = 10 \<or> c = 11 \<or> c = 12 \<or> c = 13 \<or> c = 32 \<or> c = 160 \<or> c = 5760 \<or>
     (8192 \<le> c \<and> c \<le> 8202) \<or> c = 8232 \<or> c = 8233 \<or> c = 8239 \<or> c = 8287 \<or>
     c = 12288 \<or> c = 65279"

definition trim :: "jsstring \<Rightarrow> jsstring" where
  "trim s = rev (dropWhile is_ws (rev (dropWhile is_ws s)))"

text \<open>\<open>hay.startsWith(needle)\<close>, \<open>hay.includes(needle)\<close> and \<open>hay.endsWith(needle)\<close>.\<close>

fun startsWith :: "jsstring \<Rightarrow> jsstring \<Rightarrow> bool" where
  "startsWith hay [] = True"
| "startsWith [] (n # ns) = False"
| "startsWith (h # hs) (n # ns) = (h = n \<and> startsWith hs ns)"

fun str_includes :: "jsstring \<Rightarrow> jsstring \<Rightarrow> bool" where
  "str_includes [] needle = (needle = [])"
| "str_includes (h # hs) needle = (startsWith (h # hs) needle \<or> str_includes hs needle)"

definition endsWith :: "jsstring \<Rightarrow> jsstring \<Rightarrow> bool" where
  "endsWith hay needle = startsWith (rev hay) (rev needle)"

text \<open>\<open>parts.join(sep)\<close>.\<close>

fun join :: "jsstring \<Rightarrow> jsstring list \<Rightarrow> jsstring" where
  "join sep [] = []"
| "join sep [x] = x"
| "join sep (x # y # ys) = x @ sep @ join sep (y # ys)"

text \<open>
  \<open>s.replace(pat, rep)\<close> with a string pattern: only the first occurrence is replaced.
\<close>

fun replace_first :: "jsstring \<Rightarrow> jsstring \<Rightarrow> jsstring \<Rightarrow> jsstring" where
  "replace_first pat rep [] = (if pat = [] then rep else [])"
| "replace_first pat rep (c # cs) =
     (if startsWith (c # cs) pat then rep @ drop (length pat) (c # cs)
      else c # replace_first pat rep cs)"

text \<open>\<open>s.replace(/\s+/g, '')\<close>: every run of white space is deleted.\<close>

function delete_ws_runs :: "jsstring \<Rightarrow> jsstring" where
  "delete_ws_runs [] = []"
| "delete_ws_runs (c # cs) =
     (if is_ws c then delete_ws_runs (dropWhile is_ws cs) else c # delete_ws_runs cs)"
  by pat_completeness auto
termination
  by (relation "measure length") (auto simp: length_dropWhile_le less_Suc_eq_le)

section \<open>JavaScript numbers\<close>

text \<open>
  A number is an IEEE 754 binary64 value. A finite value is represented by the rational it
  denotes (the two zeros are identified).
\<close>

datatype number = Fin rat | PosInf | NegInf | NaN

text \<open>
  Rounding of a rational to the nearest binary64 value, ties to the even significand:
  \<open>floor_log2 a\<close> is the exponent \<open>e\<close> with \<open>2\<^sup>e \<le> a < 2\<^sup>e\<^sup>+\<^sup>1\<close>, the spacing of the
  representable values around \<open>a\<close> is \<open>2\<^sup>e\<^sup>-\<^sup>5\<^sup>2\<close> (and \<open>2\<^sup>-\<^sup>1\<^sup>0\<^sup>7\<^sup>4\<close> in the subnormal
  range), and a result of magnitude \<open>2\<^sup>1\<^sup>0\<^sup>2\<^sup>4\<close> or more is an infinity.
\<close>

definition floor_log2 :: "rat \<Rightarrow> int" where
  "floor_log2 a =
     (let k = bitlen (fst (quotient_of a)) - bitlen (snd (quotient_of a))
      in if 2 powi k \<le> a then k else k - 1)"

definition round_half_even :: "rat \<Rightarrow> int" where
  "round_half_even y =
     (let f = \<lfloor>y\<rfloor>; r = y - of_int f
      in if r < 1 / 2 then f else if 1 / 2 < r then f + 1 else if even f then f else f + 1)"

definition double_limit :: rat where
  "double_limit = 2 powi 1024"

definition round_double :: "rat \<Rightarrow> number" where
  "round_double q =
     (if q = 0 then Fin 0
      else
        (let a = \<bar>q\<bar>;
             e = max (floor_log2 a) (- 1022);
             u = 2 powi (e - 52);
             r = of_int (round_half_even (a / u)) * u
         in if double_limit \<le> r then (if 0 < q then PosInf else NegInf)
            else Fin (if 0 < q then r else - r)))"

text \<open>The arithmetic and the comparisons of numbers that the program uses.\<close>

definition num_mul :: "number \<Rightarrow> number \<Rightarrow> number" where
  "num_mul x y =
     (case (x, y) of
        (Fin a, Fin b) \<Rightarrow> round_double (a * b)
      | (NaN, _) \<Rightarrow> NaN
      | (_, NaN) \<Rightarrow> NaN
      | (Fin a, PosInf) \<Rightarrow> if a = 0 then NaN else if 0 < a then PosInf else NegInf
      | (Fin a, NegInf) \<Rightarrow> if a = 0 then NaN else if 0 < a then NegInf else PosInf
      | (PosInf, Fin b) \<Rightarrow> if b = 0 then NaN else if 0 < b then PosInf else NegInf
      | (NegInf, Fin b) \<Rightarrow> if b = 0 then NaN else if 0 < b then NegInf else PosInf
      | (PosInf, PosInf) \<Rightarrow> PosInf
      | (NegInf, NegInf) \<Rightarrow> PosInf
      | (PosInf, NegInf) \<Rightarrow> NegInf
      | (NegInf, PosInf) \<Rightarrow> NegInf)"


definition num_div :: "number \<Rightarrow> number \<Rightarrow> number" where
  "num_div x y =
     (case (x, y) of
        (Fin a, Fin b) \<Rightarrow>
          if b = 0 then (if a = 0 then NaN else if 0 < a then PosInf else NegInf)
          else round_double (a / b)
      | (NaN, _) \<Rightarrow> NaN
      | (_, NaN) \<Rightarrow> NaN
      | (Fin a, _) \<Rightarrow> Fin 0
      | (PosInf, Fin b) \<Rightarrow> if 0 \<le> b then PosInf else NegInf
      | (NegInf, Fin b) \<Rightarrow> if 0 \<le> b then NegInf else PosInf
      | (_, _) \<Rightarrow> NaN)"

definition num_abs :: "number \<Rightarrow> number" where
  "num_abs x = (case x of Fin a \<Rightarrow> Fin \<bar>a\<bar> | PosInf \<Rightarrow> PosInf | NegInf \<Rightarrow> PosInf | NaN \<Rightarrow> NaN)"

definition num_less :: "number \<Rightarrow> number \<Rightarrow> bool" where
  "num_less x y =
     (case (x, y) of
        (NaN, _) \<Rightarrow> False
      | (_, NaN) \<Rightarrow> False
      | (Fin a, Fin b) \<Rightarrow> a < b
      | (NegInf, NegInf) \<Rightarrow> False
      | (NegInf, _) \<Rightarrow> True
      | (_, PosInf) \<Rightarrow> (x \<noteq> PosInf)
      | (_, _) \<Rightarrow> False)"

definition num_ge :: "number \<Rightarrow> number \<Rightarrow> bool" where
  "num_ge x y = (x \<noteq> NaN \<and> y \<noteq> NaN \<and> \<not> num_less x y)"

definition isFinite :: "number \<Rightarrow> bool" where
  "isFinite x = (case x of Fin a \<Rightarrow> True | _ \<Rightarrow> False)"

text \<open>
  \<open>Number.parseFloat\<close>: leading white space is skipped, the longest prefix that is a
  \<open>StrDecimalLiteral\<close> (sign, \<open>Infinity\<close> or digits with an optional fraction and an
  optional exponent) is converted, and \<open>NaN\<close> is returned when there is none.
\<close>

definition is_digit :: "nat \<Rightarrow> bool" where
  "is_digit c \<longleftrightarrow> 48 \<le> c \<and> c \<le> 57"

definition digits_value :: "jsstring \<Rightarrow> nat" where
  "digits_value ds = foldl (\<lambda>acc c. 10 * acc + (c - 48)) 0 ds"

definition parse_exponent :: "jsstring \<Rightarrow> int" where
  "parse_exponent r =
     (case r of
        [] \<Rightarrow> 0
      | c # r1 \<Rightarrow>
          if c = 101 \<or> c = 69 then
            (case r1 of
               [] \<Rightarrow> 0
             | s # r2 \<Rightarrow>
                 if s = 45 then
                   (if takeWhile is_digit r2 = [] then 0
                    else - int (digits_value (takeWhile is_digit r2)))
                 else if s = 43 then int (digits_value (takeWhile is_digit r2))
                 else int (digits_value (takeWhile is_digit r1)))
          else 0)"

text \<open>
  The unsigned literal at the start of \<open>u\<close> (digits, optional fraction, optional exponent)
  as a rational; \<open>None\<close> when \<open>u\<close> does not start with one.
\<close>

definition parse_unsigned :: "jsstring \<Rightarrow> rat option" where
  "parse_unsigned u =
     (let ip = takeWhile is_digit u;
          r1 = dropWhile is_digit u;
          fp = (case r1 of [] \<Rightarrow> [] | c # r \<Rightarrow> if c = 46 then takeWhile is_digit r else []);
          r2 = (case r1 of [] \<Rightarrow> [] | c # r \<Rightarrow> if c = 46 then dropWhile is_digit r else r1)
      in if ip = [] \<and> fp = [] then None
         else Some (of_nat (digits_value (ip @ fp)) *
                    10 powi (parse_exponent r2 - int (length fp))))"

definition parseFloat :: "jsstring \<Rightarrow> number" where
  "parseFloat s =
     (let t = dropWhile is_ws s;
          neg = (case t of [] \<Rightarrow> False | c # r \<Rightarrow> c = 45);
          u = (case t of [] \<Rightarrow> [] | c # r \<Rightarrow> if c = 45 \<or> c = 43 then r else t)
      in if startsWith u (ascii ''Infinity'') then (if neg then NegInf else PosInf)
         else
           (case parse_unsigned u of
              None \<Rightarrow> NaN
            | Some m \<Rightarrow> round_double (if neg then - m else m)))"

text \<open>Decimal digits of a natural number.\<close>

fun decimal :: "nat \<Rightarrow> jsstring" where
  "decimal n = (if n < 10 then [48 + n] else decimal (n div 10) @ [48 + n mod 10])"

declare decimal.simps [simp del]

text \<open>The decimal form of an integer, with \<open>-\<close> before a negative one.\<close>

definition int_toString :: "int \<Rightarrow> jsstring" where
  "int_toString i = (if i < 0 then 45 # decimal (nat (- i)) else decimal (nat i))"

text \<open>
  Four built-ins are taken as parameters: \<open>Number.prototype.toString\<close> (where it does not
  print an integer in plain decimal digits: for values of magnitude \<open>10\<^sup>2\<^sup>1\<close> or more, for
  fractions and for non-finite values), \<open>new Intl.NumberFormat('ru-RU').format\<close>,
  \<open>String.prototype.toLowerCase\<close> outside the ranges tabulated below, and
  \<open>encodeURIComponent\<close>, which throws a URIError on a lone surrogate (\<open>None\<close>).
\<close>

record platform =
  number_toString :: "number \<Rightarrow> jsstring"
  intl_ru_format :: "number \<Rightarrow> jsstring"
  string_toLowerCase :: "jsstring \<Rightarrow> jsstring"
  encodeURIComponent :: "jsstring \<Rightarrow> jsstring option"

text \<open>
  \<open>x.toString()\<close> for a number: an integer of magnitude below \<open>10\<^sup>2\<^sup>1\<close> is printed as its
  decimal digits.
\<close>

definition number_text :: "platform \<Rightarrow> number \<Rightarrow> jsstring" where
  "number_text pf x =
     (case x of
        Fin q \<Rightarrow>
          if q = of_int \<lfloor>q\<rfloor> \<and> \<bar>q\<bar> < 10 ^ 21 then int_toString \<lfloor>q\<rfloor> else number_toString pf x
      | _ \<Rightarrow> number_toString pf x)"

text \<open>
  \<open>String.prototype.toLowerCase\<close>. On a string whose code units all lie in Basic Latin,
  Latin-1 Supplement or the Cyrillic range U+0400 to U+045F the result is fixed by the
  Unicode case mappings of these ranges, which map code unit by code unit and do not depend
  on the context: \<open>A\<close> to \<open>Z\<close>, U+00C0 to U+00DE without the multiplication sign, and
  U+0410 to U+042F go 32 places up, U+0400 to U+040F go 80 places up, and every other code
  unit of these ranges is its own lower case. On every other string (other scripts, the
  Kelvin sign, surrogate pairs, mappings that change the length or depend on the context)
  the result is what the engine's built-in returns, the parameter
  \<open>string_toLowerCase\<close>.
\<close>

definition tabulated :: "nat \<Rightarrow> bool" where
  "tabulated c \<longleftrightarrow> c < 256 \<or> (1024 \<le> c \<and> c \<le> 1119)"

definition lower_unit :: "nat \<Rightarrow> nat" where
  "lower_unit c =
     (if 65 \<le> c \<and> c \<le> 90 then c + 32
      else if 192 \<le> c \<and> c \<le> 222 \<and> c \<noteq> 215 then c + 32
      else if 1024 \<le> c \<and> c \<le> 1039 then c + 80
      else if 1040 \<le> c \<and> c \<le> 1071 then c + 32
      else c)"

definition toLowerCase :: "platform \<Rightarrow> jsstring \<Rightarrow> jsstring" where
  "toLowerCase pf s = (if list_all tabulated s then map lower_unit s else string_toLowerCase pf s)"

text \<open>
  An instance of the parameters for the examples, not the built-ins of an engine: it prints
  an integer below 1000 as its decimal digits; it encodes '@' as '%40' and every other code
  unit as itself (the examples encode letters, digits, '.' and '@' only); and its lower
  case of a string outside the tabulated ranges is the string itself (the examples use
  strings of the tabulated ranges only, on which this parameter is not consulted).
\<close>

definition example_platform :: platform where
  "example_platform =
     \<lparr>number_toString = (\<lambda>x. ascii ''NaN''),
      intl_ru_format = (\<lambda>x. case x of Fin q \<Rightarrow> int_toString \<lfloor>q\<rfloor> | _ \<Rightarrow> ascii ''NaN''),
      string_toLowerCase = (\<lambda>s. s),
      encodeURIComponent =
        (\<lambda>s. Some (concat (map (\<lambda>c. if c = 64 then ascii ''%40'' else [c]) s)))\<rparr>"

text \<open>
  \<open>x.toFixed(1)\<close>: below \<open>10\<^sup>2\<^sup>1\<close> the integer \<open>n\<close> nearest to \<open>10 x\<close> (the larger one
  of two) is written in decimal with a point before its last digit.
\<close>

definition toFixed1 :: "platform \<Rightarrow> number \<Rightarrow> jsstring" where
  "toFixed1 pf x =
     (case x of
        Fin q \<Rightarrow>
          (let s = (if q < 0 then [45] else []); a = \<bar>q\<bar>
           in if 10 ^ 21 \<le> a then s @ number_toString pf (Fin a)
              else
                (let n = nat \<lfloor>a * 10 + 1 / 2\<rfloor>;
                     m = (if n < 10 then 48 # decimal n else decimal n)
                 in s @ butlast m @ [46, last m]))
      | _ \<Rightarrow> number_toString pf x)"

definition str_mln :: jsstring where "str_mln = [1084, 1083, 1085]"
definition str_tys :: jsstring where "str_tys = [1090, 1099, 1089]"


section \<open>constants/content.ts: the post data model\<close>

record WorkingHours =
  wh_label :: jsstring
  wh_value :: jsstring

record Review =
  rv_id :: jsstring
  rv_author :: jsstring
  rv_comment :: jsstring
  rv_rating :: number
  rv_date :: jsstring

record ContactInfo =
  ci_label :: jsstring
  ci_value :: jsstring
  ci_icon :: jsstring

datatype NumericValue = NumV number | StrV jsstring

record Post =
  p_id :: jsstring
  p_user :: jsstring
  p_userAvatar :: jsstring
  p_userHandle :: jsstring
  p_place :: jsstring
  p_address :: jsstring
  p_image :: jsstring
  p_gallery :: "jsstring list"
  p_likes :: NumericValue
  p_totalLikes :: NumericValue
  p_followers :: NumericValue
  p_rating :: number
  p_tags :: "jsstring list"
  p_bio :: jsstring
  p_workingHours :: "WorkingHours list"
  p_reviews :: "Review list"
  p_contact :: "ContactInfo list"

record NormalizedPost =
  n_id :: jsstring
  n_user :: jsstring
  n_userAvatar :: jsstring
  n_userHandle :: jsstring
  n_place :: jsstring
  n_address :: jsstring
  n_image :: jsstring
  n_gallery :: "jsstring list"
  n_rating :: number
  n_tags :: "jsstring list"
  n_bio :: jsstring
  n_workingHours :: "WorkingHours list"
  n_reviews :: "Review list"
  n_contact :: "ContactInfo list"
  n_uid :: jsstring
  n_likes :: number
  n_totalLikes :: number
  n_followers :: number

text \<open>parseNumericValue, normalizePost, normalizePosts and formatCompactNumber.\<close>

definition parseNumericValue :: "platform \<Rightarrow> NumericValue \<Rightarrow> number" where
  "parseNumericValue pf v =
     (case v of
        NumV n \<Rightarrow> n
      | StrV s \<Rightarrow>
          (let str0 = toLowerCase pf (trim s);
               str1 = replace_first (ascii '','') (ascii ''.'') (delete_ws_runs str0);
               multiplier = (if str_includes str1 str_mln then 1000000
                             else if str_includes str1 str_tys then 1000
                             else if endsWith str1 (ascii ''k'') then 1000 else 1);
               str2 = (if str_includes str1 str_mln then replace_first str_mln [] str1
                       else if str_includes str1 str_tys then replace_first str_tys [] str1
                       else if endsWith str1 (ascii ''k'') then butlast str1 else str1);
               parsed = parseFloat str2
           in if isFinite parsed then num_mul parsed (Fin multiplier) else Fin 0))"

definition strip_dot_zero :: "jsstring \<Rightarrow> jsstring" where
  "strip_dot_zero s = (if endsWith s (ascii ''.0'') then take (length s - 2) s else s)"

definition formatWithSuffix :: "platform \<Rightarrow> jsstring \<Rightarrow> number \<Rightarrow> jsstring \<Rightarrow> jsstring" where
  "formatWithSuffix pf sign num suffix =
     (let fixed = toFixed1 pf num;
          normalized = replace_first (ascii ''.'') (ascii '','') (strip_dot_zero fixed)
      in sign @ normalized @ ascii '' '' @ suffix)"

definition formatCompactNumber :: "platform \<Rightarrow> number \<Rightarrow> jsstring" where
  "formatCompactNumber pf v =
     (let abs = num_abs v;
          sign = (if num_less v (Fin 0) then ascii ''-'' else [])
      in if num_ge abs (Fin 1000000) then
           formatWithSuffix pf sign (num_div abs (Fin 1000000)) str_mln
         else if num_ge abs (Fin 1000) then
           formatWithSuffix pf sign (num_div abs (Fin 1000)) str_tys
         else intl_ru_format pf v)"


definition normalizePost :: "platform \<Rightarrow> Post \<Rightarrow> nat \<Rightarrow> NormalizedPost" where
  "normalizePost pf post index =
     \<lparr>n_id = p_id post, n_user = p_user post, n_userAvatar = p_userAvatar post,
      n_userHandle = p_userHandle post, n_place = p_place post, n_address = p_address post,
      n_image = p_image post, n_gallery = p_gallery post, n_rating = p_rating post,
      n_tags = p_tags post, n_bio = p_bio post, n_workingHours = p_workingHours post,
      n_reviews = p_reviews post, n_contact = p_contact post,
      n_uid = p_id post @ ascii ''-'' @ decimal index,
      n_likes = parseNumericValue pf (p_likes post),
      n_totalLikes = parseNumericValue pf (p_totalLikes post),
      n_followers = parseNumericValue pf (p_followers post)\<rparr>"

definition normalizePosts :: "platform \<Rightarrow> Post list \<Rightarrow> NormalizedPost list" where
  "normalizePosts pf list =
     map (\<lambda>(post, index). normalizePost pf post index) (zip list [0 ..< length list])"

subsection \<open>Properties of the rounding\<close>

lemma pow2_less_cancel:
  assumes "(2::rat) powi m < 2 powi n"
  shows "m < n"
proof (rule ccontr)
  assume "\<not> m < n"
  then have "n \<le> m" by simp
  then have "(2::rat) powi n \<le> 2 powi m" by (intro power_int_increasing) simp_all
  with assms show False by simp
qed

lemma bitlen_pow2_bounds:
  assumes "0 < (p::int)"
  shows "(2::rat) powi (bitlen p - 1) \<le> of_int p" and "(of_int p :: rat) < 2 powi (bitlen p)"
proof -
  from bitlen_bounds [OF assms]
  have lo: "2 ^ nat (bitlen p - 1) \<le> p" and hi: "p < 2 ^ nat (bitlen p)" by simp_all
  have b1: "1 \<le> bitlen p" using assms bitlen_eq_zero_iff [of p] bitlen_nonneg [of p] by linarith
  have "(of_int (2 ^ nat (bitlen p - 1)) :: rat) \<le> of_int p" using lo by (simp only: of_int_le_iff)
  then show "(2::rat) powi (bitlen p - 1) \<le> of_int p"
    using b1 by (simp add: power_int_nonneg_exp)
  have "(of_int p :: rat) < of_int (2 ^ nat (bitlen p))" using hi by (simp only: of_int_less_iff)
  then show "(of_int p :: rat) < 2 powi (bitlen p)"
    using b1 by (simp add: power_int_nonneg_exp)
qed

lemma floor_log2_bounds:
  assumes "0 < a"
  shows "2 powi (floor_log2 a) \<le> a" and "a < 2 powi (floor_log2 a + 1)"
proof -
  obtain p d where pd: "quotient_of a = (p, d)" by (cases "quotient_of a")
  have d: "0 < d" using pd by (rule quotient_of_denom_pos)
  have a: "a = of_int p / of_int d" using pd by (rule quotient_of_div)
  have p: "0 < p" using assms d unfolding a by (simp add: zero_less_divide_iff)
  define k where "k = bitlen p - bitlen d"
  note P = bitlen_pow2_bounds [OF p] and D = bitlen_pow2_bounds [OF d]
  have dpos: "(0::rat) < of_int d" using d by simp
  have up: "a < 2 powi (k + 1)"
  proof -
    have "a * 2 powi (bitlen d - 1) \<le> a * of_int d"
      using D(1) assms by (intro mult_left_mono) simp_all
    also have "\<dots> = of_int p" using dpos unfolding a by simp
    also have "\<dots> < 2 powi (bitlen p)" by (rule P(2))
    also have "\<dots> = 2 powi (k + 1) * 2 powi (bitlen d - 1)"
      unfolding k_def by (simp flip: power_int_add)
    finally show ?thesis by simp
  qed
  have lo: "2 powi (k - 1) < a"
  proof -
    have "(2::rat) powi (k - 1) * of_int d < 2 powi (k - 1) * 2 powi (bitlen d)"
      using D(2) by (intro mult_strict_left_mono) simp_all
    also have "\<dots> = 2 powi (bitlen p - 1)"
      unfolding k_def by (simp flip: power_int_add)
    also have "\<dots> \<le> of_int p" by (rule P(1))
    also have "\<dots> = a * of_int d" using dpos unfolding a by simp
    finally show ?thesis using dpos by simp
  qed
  have fl: "floor_log2 a = (if 2 powi k \<le> a then k else k - 1)"
    by (simp add: floor_log2_def pd k_def Let_def)
  show "2 powi (floor_log2 a) \<le> a" using lo by (simp add: fl)
  show "a < 2 powi (floor_log2 a + 1)" using up by (simp add: fl)
qed

lemma floor_log2_eq:
  assumes "0 < a" and "2 powi e \<le> a" and "a < 2 powi (e + 1)"
  shows "floor_log2 a = e"
proof -
  note B = floor_log2_bounds [OF assms(1)]
  have "(2::rat) powi e < 2 powi (floor_log2 a + 1)" using assms(2) B(2) by simp
  then have 1: "e < floor_log2 a + 1" by (rule pow2_less_cancel)
  have "(2::rat) powi (floor_log2 a) < 2 powi (e + 1)" using assms(3) B(1) by simp
  then have 2: "floor_log2 a < e + 1" by (rule pow2_less_cancel)
  from 1 2 show ?thesis by simp
qed

lemma round_half_even_of_int: "round_half_even (of_int m) = m"
  by (simp add: round_half_even_def Let_def)

lemma round_half_even_error: "\<bar>of_int (round_half_even y) - y\<bar> \<le> 1 / 2"
proof -
  have "of_int \<lfloor>y\<rfloor> \<le> y" and "y < of_int \<lfloor>y\<rfloor> + 1" by linarith+
  then show ?thesis by (auto simp: round_half_even_def Let_def)
qed

lemma floor_rat_numeral [simp]: "\<lfloor>(numeral a / numeral b :: rat)\<rfloor> = numeral a div numeral b"
  using floor_divide_of_int_eq [of "numeral a" "numeral b", where ?'a = rat] by simp

lemma round_double_pos:
  assumes "0 < a" and "2 powi e \<le> a" and "a < 2 powi (e + 1)" and "- 1022 \<le> e"
    and "r = of_int (round_half_even (a / 2 powi (e - 52))) * 2 powi (e - 52)"
    and "r < double_limit"
  shows "round_double a = Fin r" and "round_double (- a) = Fin (- r)"
proof -
  have fl: "floor_log2 a = e" using assms(1-3) by (rule floor_log2_eq)
  have m: "max e (- 1022) = e" using assms(4) by simp
  show "round_double a = Fin r"
    using assms(1,6) by (simp add: round_double_def Let_def fl m assms(5) [symmetric])
  show "round_double (- a) = Fin (- r)"
    using assms(1,6) by (simp add: round_double_def Let_def fl m assms(5) [symmetric])
qed


lemma round_double_int_pos:
  assumes "0 < k" and "k < 2 ^ 53"
  shows "round_double (of_int k) = Fin (of_int k)"
    and "round_double (- of_int k) = Fin (- of_int k)"
proof -
  define e where "e = bitlen k - 1"
  note K = bitlen_pow2_bounds [OF assms(1)]
  have b1: "1 \<le> bitlen k"
    using assms(1) bitlen_eq_zero_iff [of k] bitlen_nonneg [of k] by linarith
  have b53: "bitlen k \<le> 53" using assms(2) by (simp add: bitlen_le_iff_power)
  have e0: "0 \<le> e" and e52: "e \<le> 52" using b1 b53 by (simp_all add: e_def)
  have lo: "(2::rat) powi e \<le> of_int k" using K(1) by (simp add: e_def)
  have hi: "(of_int k :: rat) < 2 powi (e + 1)" using K(2) by (simp add: e_def)
  have u: "(2::rat) powi (e - 52) = 1 / 2 ^ nat (52 - e)"
  proof -
    have "(2::rat) powi (e - 52) = 2 powi (- (52 - e))" by simp
    also have "\<dots> = 1 / 2 powi (52 - e)" by (rule power_int_minus_divide)
    also have "\<dots> = 1 / 2 ^ nat (52 - e)" using e52 by (simp add: power_int_nonneg_exp)
    finally show ?thesis .
  qed
  have q: "(of_int k :: rat) / 2 powi (e - 52) = of_int (k * 2 ^ nat (52 - e))"
    by (simp add: u)
  have r: "(of_int k :: rat) =
           of_int (round_half_even (of_int k / 2 powi (e - 52))) * 2 powi (e - 52)"
    unfolding q round_half_even_of_int by (simp add: u)
  have "(of_int k :: rat) < of_int (2 ^ 53)" using assms(2) by (simp only: of_int_less_iff)
  also have "\<dots> < double_limit" by (simp add: double_limit_def)
  finally have lim: "(of_int k :: rat) < double_limit" .
  have kpos: "(0::rat) < of_int k" using assms(1) by simp
  have m: "- 1022 \<le> e" using e0 by simp
  show "round_double (of_int k) = Fin (of_int k)"
    by (rule round_double_pos(1) [OF kpos lo hi m r lim])
  show "round_double (- of_int k) = Fin (- of_int k)"
    by (rule round_double_pos(2) [OF kpos lo hi m r lim])
qed

lemma round_double_int:
  assumes "\<bar>k\<bar> < 2 ^ 53"
  shows "round_double (of_int k) = Fin (of_int k)"
proof -
  consider "k = 0" | "0 < k" | "k < 0" by linarith
  then show ?thesis
  proof cases
    case 1
    then show ?thesis by (simp add: round_double_def)
  next
    case 2
    with assms show ?thesis by (simp add: round_double_int_pos(1))
  next
    case 3
    with assms have "0 < - k" and "- k < 2 ^ 53" by simp_all
    from round_double_int_pos(2) [OF this] show ?thesis by simp
  qed
qed

lemma round_double_error:
  assumes "0 < a" and "2 powi e \<le> a" and "a < 2 powi (e + 1)" and "- 1022 \<le> e" and "e \<le> 1022"
  shows "\<exists>r. round_double a = Fin r \<and> round_double (- a) = Fin (- r) \<and>
             \<bar>r - a\<bar> \<le> 2 powi (e - 53)"
proof -
  define u :: rat where "u = 2 powi (e - 52)"
  define r where "r = of_int (round_half_even (a / u)) * u"
  have upos: "0 < u" by (simp add: u_def)
  have half: "u / 2 = 2 powi (e - 53)"
  proof -
    have "(2::rat) powi (e - 52) = 2 powi ((e - 53) + 1)" by simp
    also have "\<dots> = 2 powi (e - 53) * 2" by (subst power_int_add) simp_all
    finally show ?thesis by (simp add: u_def)
  qed
  have "\<bar>r - a\<bar> = \<bar>of_int (round_half_even (a / u)) - a / u\<bar> * u"
  proof -
    have "r - a = (of_int (round_half_even (a / u)) - a / u) * u"
      using upos by (simp add: r_def field_simps)
    then show ?thesis using upos by (simp add: abs_mult)
  qed
  also have "\<dots> \<le> (1 / 2) * u"
    using round_half_even_error [of "a / u"] upos by (intro mult_right_mono) simp_all
  finally have err: "\<bar>r - a\<bar> \<le> 2 powi (e - 53)" using half by simp
  have "(2::rat) powi (e - 53) \<le> 2 powi (e + 1)" by (intro power_int_increasing) simp_all
  then have "r < 2 powi (e + 1) + 2 powi (e + 1)" using err assms(3) by linarith
  also have "\<dots> = 2 powi ((e + 1) + 1)" by (subst power_int_add [of 2 "e + 1" 1]) simp_all
  also have "\<dots> \<le> 2 powi 1024" using assms(5) by (intro power_int_increasing) simp_all
  finally have lim: "r < double_limit" by (simp only: double_limit_def)
  have req: "r = of_int (round_half_even (a / 2 powi (e - 52))) * 2 powi (e - 52)"
    by (simp add: r_def u_def)
  from round_double_pos [OF assms(1-4) req lim] err show ?thesis by blast
qed

subsection \<open>parseNumericValue and normalizePosts against their description\<close>

text \<open>
  The description of parseNumericValue in the specification's words: the cleaned text (trimmed,
  lowercased, white space deleted, first comma turned into a dot), the multiplier chosen from
  it, the text that remains once the unit is taken out, and the result.
\<close>

definition first_comma_to_dot :: "jsstring \<Rightarrow> jsstring" where
  "first_comma_to_dot t =
     (case dropWhile (\<lambda>c. c \<noteq> 44) t of
        [] \<Rightarrow> t
      | c # r \<Rightarrow> takeWhile (\<lambda>c. c \<noteq> 44) t @ 46 # r)"

definition spec_cleaned :: "platform \<Rightarrow> jsstring \<Rightarrow> jsstring" where
  "spec_cleaned pf s = first_comma_to_dot (filter (\<lambda>c. \<not> is_ws c) (toLowerCase pf (trim s)))"

definition ends_in_k :: "jsstring \<Rightarrow> bool" where
  "ends_in_k t \<longleftrightarrow> (\<exists>pre. t = pre @ ascii ''k'')"

definition spec_multiplier :: "jsstring \<Rightarrow> rat" where
  "spec_multiplier t =
     (if (\<exists>pre suf. t = pre @ str_mln @ suf) then 1000000
      else if (\<exists>pre suf. t = pre @ str_tys @ suf) \<or> ends_in_k t then 1000
      else 1)"

definition spec_remaining :: "jsstring \<Rightarrow> jsstring" where
  "spec_remaining t =
     (if (\<exists>pre suf. t = pre @ str_mln @ suf) then replace_first str_mln [] t
      else if (\<exists>pre suf. t = pre @ str_tys @ suf) then replace_first str_tys [] t
      else if ends_in_k t then butlast t
      else t)"

definition parseNumericValue_spec :: "platform \<Rightarrow> NumericValue \<Rightarrow> number" where
  "parseNumericValue_spec pf v =
     (case v of
        NumV n \<Rightarrow> n
      | StrV s \<Rightarrow>
          (case parseFloat (spec_remaining (spec_cleaned pf s)) of
             Fin x \<Rightarrow> num_mul (Fin x) (Fin (spec_multiplier (spec_cleaned pf s)))
           | _ \<Rightarrow> Fin 0))"

lemma startsWith_iff: "startsWith hay needle \<longleftrightarrow> (\<exists>suf. hay = needle @ suf)"
  by (induction hay needle rule: startsWith.induct) auto

lemma str_includes_iff: "str_includes hay needle \<longleftrightarrow> (\<exists>pre suf. hay = pre @ needle @ suf)"
proof (induction hay)
  case Nil
  show ?case by auto
next
  case (Cons h hs)
  show ?case
  proof
    assume "str_includes (h # hs) needle"
    then consider "startsWith (h # hs) needle" | "str_includes hs needle" by auto
    then show "\<exists>pre suf. h # hs = pre @ needle @ suf"
    proof cases
      case 1
      then obtain suf where "h # hs = needle @ suf" by (auto simp: startsWith_iff)
      then have "h # hs = [] @ needle @ suf" by simp
      then show ?thesis by blast
    next
      case 2
      with Cons obtain pre suf where "hs = pre @ needle @ suf" by auto
      then have "h # hs = (h # pre) @ needle @ suf" by simp
      then show ?thesis by blast
    qed
  next
    assume "\<exists>pre suf. h # hs = pre @ needle @ suf"
    then obtain pre suf where eq: "h # hs = pre @ needle @ suf" by auto
    show "str_includes (h # hs) needle"
    proof (cases pre)
      case Nil
      with eq have "startsWith (h # hs) needle" by (auto simp: startsWith_iff)
      then show ?thesis by simp
    next
      case (Cons p ps)
      with eq have "hs = ps @ needle @ suf" by simp
      then have "\<exists>pre suf. hs = pre @ needle @ suf" by blast
      with Cons.IH show ?thesis by simp
    qed
  qed
qed

lemma endsWith_iff: "endsWith hay needle \<longleftrightarrow> (\<exists>pre. hay = pre @ needle)"
proof
  assume "endsWith hay needle"
  then obtain suf where "rev hay = rev needle @ suf"
    by (auto simp: endsWith_def startsWith_iff)
  then have "hay = rev suf @ needle" by (metis rev_append rev_rev_ident)
  then show "\<exists>pre. hay = pre @ needle" by blast
next
  assume "\<exists>pre. hay = pre @ needle"
  then show "endsWith hay needle" by (auto simp: endsWith_def startsWith_iff)
qed

lemma filter_dropWhile_ws:
  "filter (\<lambda>c. \<not> is_ws c) (dropWhile is_ws cs) = filter (\<lambda>c. \<not> is_ws c) cs"
  by (induction cs) auto

lemma delete_ws_runs_filter: "delete_ws_runs s = filter (\<lambda>c. \<not> is_ws c) s"
  by (induction s rule: delete_ws_runs.induct) (simp_all add: filter_dropWhile_ws)

lemma first_comma_to_dot_Cons:
  "first_comma_to_dot (c # cs) = (if c = 44 then 46 # cs else c # first_comma_to_dot cs)"
  by (cases "dropWhile (\<lambda>c. c \<noteq> 44) cs")
     (simp_all add: first_comma_to_dot_def del: dropWhile_eq_Nil_conv)

lemma replace_first_comma: "replace_first (ascii '','') (ascii ''.'') t = first_comma_to_dot t"
  by (induction t) (simp_all add: first_comma_to_dot_Cons, simp_all add: first_comma_to_dot_def ascii_def)

lemma parseNumericValue_refines: "parseNumericValue pf v = parseNumericValue_spec pf v"
proof (cases v)
  case (NumV n)
  then show ?thesis by (simp add: parseNumericValue_def parseNumericValue_spec_def)
next
  case (StrV s)
  have c: "replace_first (ascii '','') (ascii ''.'') (delete_ws_runs (toLowerCase pf (trim s))) =
           spec_cleaned pf s"
    by (simp add: spec_cleaned_def replace_first_comma delete_ws_runs_filter)
  have m: "(if str_includes (spec_cleaned pf s) str_mln then 1000000
            else if str_includes (spec_cleaned pf s) str_tys then 1000
            else if endsWith (spec_cleaned pf s) (ascii ''k'') then 1000 else 1) =
           spec_multiplier (spec_cleaned pf s)"
    by (simp add: spec_multiplier_def str_includes_iff endsWith_iff ends_in_k_def)
  have r: "(if str_includes (spec_cleaned pf s) str_mln then replace_first str_mln [] (spec_cleaned pf s)
            else if str_includes (spec_cleaned pf s) str_tys
                 then replace_first str_tys [] (spec_cleaned pf s)
            else if endsWith (spec_cleaned pf s) (ascii ''k'') then butlast (spec_cleaned pf s)
            else spec_cleaned pf s) = spec_remaining (spec_cleaned pf s)"
    by (simp add: spec_remaining_def str_includes_iff endsWith_iff ends_in_k_def)
  have "parseNumericValue pf (StrV s) =
          (if isFinite (parseFloat (spec_remaining (spec_cleaned pf s)))
           then num_mul (parseFloat (spec_remaining (spec_cleaned pf s)))
                  (Fin (spec_multiplier (spec_cleaned pf s)))
           else Fin 0)"
    by (simp only: parseNumericValue_def NumericValue.case Let_def c m r)
  then show ?thesis
    unfolding StrV parseNumericValue_spec_def
    by (cases "parseFloat (spec_remaining (spec_cleaned pf s))") (simp_all add: isFinite_def)
qed

lemma normalizePosts_length: "length (normalizePosts pf list) = length list"
  by (simp add: normalizePosts_def)

lemma normalizePosts_nth:
  assumes "i < length list"
  shows "normalizePosts pf list ! i = normalizePost pf (list ! i) i"
  using assms by (simp add: normalizePosts_def)

text \<open>
  Claim C2. For every list of posts, normalizePosts returns a list of the same length whose
  i-th element agrees with the i-th input post on every field except that uid is the post's
  id followed by '-' and the decimal index i, and likes, totalLikes and followers are
  parseNumericValue of the input values; and parseNumericValue is the function described:
  a number is returned unchanged, a string is trimmed, lowercased, rid of white space, its
  first comma turned into a dot, the parsed value multiplied by 1000000 if the text contains
  the unit of millions, else by 1000 if it contains the unit of thousands or ends in 'k', and 0 is returned whenever the
  remaining text does not parse to a finite number.
\<close>

theorem normalizePosts_spec:
  "length (normalizePosts pf list) = length list \<and>
   (\<forall>i < length list.
      normalizePosts pf list ! i =
        \<lparr>n_id = p_id (list ! i), n_user = p_user (list ! i),
         n_userAvatar = p_userAvatar (list ! i), n_userHandle = p_userHandle (list ! i),
         n_place = p_place (list ! i), n_address = p_address (list ! i),
         n_image = p_image (list ! i), n_gallery = p_gallery (list ! i),
         n_rating = p_rating (list ! i), n_tags = p_tags (list ! i), n_bio = p_bio (list ! i),
         n_workingHours = p_workingHours (list ! i), n_reviews = p_reviews (list ! i),
         n_contact = p_contact (list ! i),
         n_uid = p_id (list ! i) @ ascii ''-'' @ decimal i,
         n_likes = parseNumericValue pf (p_likes (list ! i)),
         n_totalLikes = parseNumericValue pf (p_totalLikes (list ! i)),
         n_followers = parseNumericValue pf (p_followers (list ! i))\<rparr>) \<and>
   (\<forall>v. parseNumericValue pf v = parseNumericValue_spec pf v)"
  by (simp add: normalizePosts_length normalizePosts_nth normalizePost_def
      parseNumericValue_refines)

definition example_raw_post :: "jsstring \<Rightarrow> NumericValue \<Rightarrow> Post" where
  "example_raw_post i l =
     \<lparr>p_id = i, p_user = ascii ''Anna'', p_userAvatar = [], p_userHandle = ascii ''@anna'',
      p_place = ascii ''Cup'', p_address = ascii ''Main St 5'', p_image = [], p_gallery = [],
      p_likes = l, p_totalLikes = StrV (ascii ''many''), p_followers = StrV (ascii '' 3 K''),
      p_rating = Fin 4, p_tags = [ascii ''Cafe''], p_bio = [], p_workingHours = [],
      p_reviews = [], p_contact = []\<rparr>"

lemma parse_example_followers: "parseNumericValue pf (StrV (ascii '' 3 K'')) = Fin 3000"
proof -
  have "parseFloat (ascii ''3'') = round_double (of_int 3)"
    by (simp add: parseFloat_def parse_unsigned_def ascii_def is_ws_def is_digit_def
        digits_value_def parse_exponent_def)
  also have "\<dots> = Fin 3" by (subst round_double_int) simp_all
  finally have pf: "parseFloat (ascii ''3'') = Fin 3" .
  have "num_mul (Fin 3) (Fin 1000) = round_double (of_int 3000)" by (simp add: num_mul_def)
  also have "\<dots> = Fin 3000" by (subst round_double_int) simp_all
  finally have nm: "num_mul (Fin 3) (Fin 1000) = Fin 3000" .
  have "parseNumericValue pf (StrV (ascii '' 3 K'')) =
        (if isFinite (parseFloat (ascii ''3'')) then num_mul (parseFloat (ascii ''3'')) (Fin 1000)
         else Fin 0)"
    by (simp add: parseNumericValue_def ascii_def trim_def toLowerCase_def tabulated_def lower_unit_def
        is_ws_def endsWith_def str_mln_def str_tys_def)
  then show ?thesis by (simp add: pf nm isFinite_def)
qed

lemma parse_example_totalLikes: "parseNumericValue pf (StrV (ascii ''many'')) = Fin 0"
  by (simp add: parseNumericValue_def ascii_def trim_def toLowerCase_def tabulated_def lower_unit_def
      is_ws_def endsWith_def str_mln_def str_tys_def parseFloat_def parse_unsigned_def
      is_digit_def isFinite_def)

theorem normalizePosts_spec_witness:
  "(1::nat) < length [example_raw_post (ascii ''a'') (NumV (Fin 7)),
                     example_raw_post (ascii ''b'') (NumV (Fin 8))] \<and>
   normalizePosts example_platform [example_raw_post (ascii ''a'') (NumV (Fin 7)),
                   example_raw_post (ascii ''b'') (NumV (Fin 8))] ! 1 =
     \<lparr>n_id = ascii ''b'', n_user = ascii ''Anna'', n_userAvatar = [],
      n_userHandle = ascii ''@anna'', n_place = ascii ''Cup'', n_address = ascii ''Main St 5'',
      n_image = [], n_gallery = [], n_rating = Fin 4, n_tags = [ascii ''Cafe''], n_bio = [],
      n_workingHours = [], n_reviews = [], n_contact = [], n_uid = ascii ''b-1'',
      n_likes = Fin 8, n_totalLikes = Fin 0, n_followers = Fin 3000\<rparr>"
proof -
  let ?l = "[example_raw_post (ascii ''a'') (NumV (Fin 7)),
             example_raw_post (ascii ''b'') (NumV (Fin 8))]"
  have len: "(1::nat) < length ?l" by simp
  have d: "ascii ''b'' @ ascii ''-'' @ decimal (Suc 0) = ascii ''b-1''"
    by (simp add: decimal.simps ascii_def)
  have n: "parseNumericValue example_platform (NumV (Fin 8)) = Fin 8" by (simp add: parseNumericValue_def)
  from normalizePosts_spec [of example_platform ?l] len
  have "normalizePosts example_platform ?l ! 1 =
        \<lparr>n_id = p_id (?l ! 1), n_user = p_user (?l ! 1),
         n_userAvatar = p_userAvatar (?l ! 1), n_userHandle = p_userHandle (?l ! 1),
         n_place = p_place (?l ! 1), n_address = p_address (?l ! 1),
         n_image = p_image (?l ! 1), n_gallery = p_gallery (?l ! 1),
         n_rating = p_rating (?l ! 1), n_tags = p_tags (?l ! 1), n_bio = p_bio (?l ! 1),
         n_workingHours = p_workingHours (?l ! 1), n_reviews = p_reviews (?l ! 1),
         n_contact = p_contact (?l ! 1),
         n_uid = p_id (?l ! 1) @ ascii ''-'' @ decimal 1,
         n_likes = parseNumericValue example_platform (p_likes (?l ! 1)),
         n_totalLikes = parseNumericValue example_platform (p_totalLikes (?l ! 1)),
         n_followers = parseNumericValue example_platform (p_followers (?l ! 1))\<rparr>"
    by blast
  then show ?thesis
    by (simp add: example_raw_post_def parse_example_followers parse_example_totalLikes d n)
qed

subsection \<open>formatCompactNumber\<close>

lemma decimal_small: "n < 10 \<Longrightarrow> decimal n = [48 + n]"
  by (simp add: decimal.simps)

lemma decimal_large: "10 \<le> n \<Longrightarrow> decimal n = decimal (n div 10) @ [48 + n mod 10]"
  by (subst decimal.simps) simp

lemma decimal_digits: "c \<in> set (decimal n) \<Longrightarrow> is_digit c"
proof (induction n arbitrary: c rule: decimal.induct)
  case (1 n)
  show ?case
  proof (cases "n < 10")
    case True
    with 1(2) show ?thesis by (simp add: decimal_small is_digit_def)
  next
    case False
    with 1(2) have "c \<in> set (decimal (n div 10)) \<or> c = 48 + n mod 10"
      by (auto simp: decimal_large)
    then show ?thesis
    proof
      assume "c \<in> set (decimal (n div 10))"
      with 1(1) False show ?thesis by simp
    next
      assume "c = 48 + n mod 10"
      then show ?thesis by (simp add: is_digit_def)
    qed
  qed
qed

lemma decimal_nonempty: "decimal n \<noteq> []"
  by (subst decimal.simps) simp

text \<open>The digits of \<open>n\<close> with a separator before the last one, and the compact form.\<close>

definition tenths :: "nat \<Rightarrow> jsstring" where
  "tenths n = decimal (n div 10) @ (if n mod 10 = 0 then [] else [44, 48 + n mod 10])"

lemma toFixed1_digits:
  assumes "0 \<le> q" and "q < 10 ^ 21"
  shows "toFixed1 pf (Fin q) =
           decimal (nat \<lfloor>q * 10 + 1 / 2\<rfloor> div 10) @ [46, 48 + nat \<lfloor>q * 10 + 1 / 2\<rfloor> mod 10]"
proof -
  define n where "n = nat \<lfloor>q * 10 + 1 / 2\<rfloor>"
  have m: "butlast (if n < 10 then 48 # decimal n else decimal n) @
             [46, last (if n < 10 then 48 # decimal n else decimal n)] =
           decimal (n div 10) @ [46, 48 + n mod 10]"
  proof (cases "n < 10")
    case True
    then show ?thesis by (simp add: decimal_small)
  next
    case False
    then show ?thesis by (simp add: decimal_large)
  qed
  have "\<not> (10 ^ 21 \<le> \<bar>q\<bar>)" and "\<not> q < 0" and "\<bar>q\<bar> = q" using assms by simp_all
  then have "toFixed1 pf (Fin q) =
        butlast (if n < 10 then 48 # decimal n else decimal n) @
          [46, last (if n < 10 then 48 # decimal n else decimal n)]"
    unfolding toFixed1_def n_def Let_def by (simp only: number.case if_False append_Nil)
  with m show ?thesis by (simp add: n_def)
qed

lemma strip_dot_zero_digits:
  assumes "d < 10"
  shows "strip_dot_zero (ds @ [46, 48 + d]) = (if d = 0 then ds else ds @ [46, 48 + d])"
proof -
  have "endsWith (ds @ [46, 48 + d]) (ascii ''.0'') \<longleftrightarrow> d = 0"
    by (auto simp: endsWith_iff ascii_def)
  then show ?thesis by (simp add: strip_dot_zero_def)
qed

lemma startsWith_hd: "startsWith (c # cs) (x # xs) \<Longrightarrow> c = x"
  by simp

lemma replace_first_absent:
  assumes "x \<notin> set s"
  shows "replace_first (x # xs) rep s = s"
  using assms by (induction s) auto

lemma replace_first_at:
  assumes "x \<notin> set pre"
  shows "replace_first (x # xs) rep (pre @ (x # xs) @ suf) = pre @ rep @ suf"
  using assms by (induction pre) (auto simp: startsWith_iff)

lemma not_digit_not_in_decimal: "\<not> is_digit c \<Longrightarrow> c \<notin> set (decimal k)"
  using decimal_digits [of c k] by blast

lemma dot_not_digit: "46 \<notin> set (decimal k)"
  by (rule not_digit_not_in_decimal) (simp add: is_digit_def)

lemma formatWithSuffix_digits:
  assumes "0 \<le> q" and "q < 10 ^ 21"
  shows "formatWithSuffix pf sign (Fin q) suffix =
           sign @ tenths (nat \<lfloor>q * 10 + 1 / 2\<rfloor>) @ ascii '' '' @ suffix"
proof -
  define n where "n = nat \<lfloor>q * 10 + 1 / 2\<rfloor>"
  have d: "n mod 10 < 10" by simp
  have "replace_first (ascii ''.'') (ascii '','') (strip_dot_zero (toFixed1 pf (Fin q))) = tenths n"
  proof (cases "n mod 10 = 0")
    case True
    then have "strip_dot_zero (toFixed1 pf (Fin q)) = decimal (n div 10)"
      using strip_dot_zero_digits [OF d, of "decimal (n div 10)"]
      by (simp add: toFixed1_digits [OF assms] n_def)
    then show ?thesis
      using True replace_first_absent [OF dot_not_digit [of "n div 10"], where xs = "[]" and rep = "[44]"]
      by (simp add: tenths_def ascii_def)
  next
    case False
    then have "strip_dot_zero (toFixed1 pf (Fin q)) = decimal (n div 10) @ [46, 48 + n mod 10]"
      using strip_dot_zero_digits [OF d, of "decimal (n div 10)"]
      by (simp add: toFixed1_digits [OF assms] n_def)
    then show ?thesis
      using False replace_first_at [OF dot_not_digit [of "n div 10"], where xs = "[]" and rep = "[44]"
          and suf = "[48 + n mod 10]"]
      by (simp add: tenths_def ascii_def)
  qed
  then show ?thesis by (simp add: formatWithSuffix_def Let_def n_def)
qed

lemma round_half_even_nonneg: "0 \<le> y \<Longrightarrow> 0 \<le> round_half_even y"
  by (simp add: round_half_even_def Let_def)

lemma round_double_nonneg:
  assumes "0 \<le> a" and "round_double a = Fin r"
  shows "0 \<le> r"
proof (cases "a = 0")
  case True
  with assms(2) show ?thesis by (simp add: round_double_def)
next
  case False
  with assms(1) have pos: "0 < a" by simp
  define u :: rat where "u = 2 powi (max (floor_log2 \<bar>a\<bar>) (- 1022) - 52)"
  have "0 < u" by (simp add: u_def)
  moreover have "0 \<le> round_half_even (\<bar>a\<bar> / u)"
    using pos \<open>0 < u\<close> by (intro round_half_even_nonneg) simp
  ultimately have "0 \<le> of_int (round_half_even (\<bar>a\<bar> / u)) * u" by simp
  moreover have "r = of_int (round_half_even (\<bar>a\<bar> / u)) * u"
    using assms(2) pos unfolding round_double_def Let_def u_def [symmetric]
    by (simp split: if_splits)
  ultimately show ?thesis by simp
qed

lemma thousands_quotient:
  assumes "1000 \<le> a" and "a < 1000000"
  shows "\<exists>q. round_double (a / 1000) = Fin q \<and> 0 \<le> q \<and> q < 10 ^ 21"
proof -
  define b where "b = a / 1000"
  have b1: "1 \<le> b" and b2: "b < 1000" using assms by (simp_all add: b_def)
  then have bpos: "0 < b" by simp
  note B = floor_log2_bounds [OF bpos]
  have "(2::rat) powi 0 < 2 powi (floor_log2 b + 1)" using b1 B(2) by simp
  then have e0: "0 < floor_log2 b + 1" by (rule pow2_less_cancel)
  have "(2::rat) powi (floor_log2 b) < 2 powi 10" using b2 B(1) by simp
  then have e10: "floor_log2 b < 10" by (rule pow2_less_cancel)
  from round_double_error [OF bpos B(1) B(2)] e0 e10
  obtain r where r: "round_double b = Fin r" and err: "\<bar>r - b\<bar> \<le> 2 powi (floor_log2 b - 53)"
    by auto
  have "(2::rat) powi (floor_log2 b - 53) \<le> 2 powi 0"
    using e10 by (intro power_int_increasing) simp_all
  with err b2 have "r < 10 ^ 21" by simp
  moreover have "0 \<le> r" using round_double_nonneg [OF _ r] bpos by simp
  ultimately show ?thesis using r by (auto simp: b_def)
qed

definition sign_of :: "rat \<Rightarrow> jsstring" where
  "sign_of v = (if v < 0 then ascii ''-'' else [])"

lemma formatCompactNumber_Fin:
  "formatCompactNumber pf (Fin v) =
     (if 1000000 \<le> \<bar>v\<bar> then
        formatWithSuffix pf (sign_of v) (num_div (Fin \<bar>v\<bar>) (Fin 1000000)) str_mln
      else if 1000 \<le> \<bar>v\<bar> then
        formatWithSuffix pf (sign_of v) (num_div (Fin \<bar>v\<bar>) (Fin 1000)) str_tys
      else intl_ru_format pf (Fin v))"
  by (simp add: formatCompactNumber_def num_abs_def num_less_def num_ge_def sign_of_def Let_def
      not_less)

lemma num_div_Fin: "c \<noteq> 0 \<Longrightarrow> num_div (Fin a) (Fin c) = round_double (a / c)"
  by (simp add: num_div_def)

lemma formatCompactNumber_millions:
  assumes "1000000 \<le> \<bar>v\<bar>" and "num_div (Fin \<bar>v\<bar>) (Fin 1000000) = Fin q" and "q < 10 ^ 21"
  shows "formatCompactNumber pf (Fin v) =
        sign_of v @ tenths (nat \<lfloor>q * 10 + 1 / 2\<rfloor>) @ ascii '' '' @ str_mln"
proof -
  have "round_double (\<bar>v\<bar> / 1000000) = Fin q" using assms(2) by (simp add: num_div_Fin)
  then have q0: "0 \<le> q" by (rule round_double_nonneg [rotated]) simp
  have "formatCompactNumber pf (Fin v) =
          formatWithSuffix pf (sign_of v) (num_div (Fin \<bar>v\<bar>) (Fin 1000000)) str_mln"
    using assms(1) by (simp only: formatCompactNumber_Fin if_True)
  also have "\<dots> = formatWithSuffix pf (sign_of v) (Fin q) str_mln" by (simp only: assms(2))
  also have "\<dots> = sign_of v @ tenths (nat \<lfloor>q * 10 + 1 / 2\<rfloor>) @ ascii '' '' @ str_mln"
    using q0 assms(3) by (rule formatWithSuffix_digits)
  finally show ?thesis .
qed


lemma formatCompactNumber_huge:
  assumes "1000000 \<le> \<bar>v\<bar>" and "num_div (Fin \<bar>v\<bar>) (Fin 1000000) = Fin q" and "10 ^ 21 \<le> q"
  shows "formatCompactNumber pf (Fin v) =
        sign_of v @
        replace_first (ascii ''.'') (ascii '','') (strip_dot_zero (number_toString pf (Fin q))) @
        ascii '' '' @ str_mln"
proof -
  have "0 \<le> q" using assms(3) by (rule order_trans [rotated]) simp
  then have "\<bar>q\<bar> = q" and "\<not> q < 0" by simp_all
  then have tf: "toFixed1 pf (Fin q) = number_toString pf (Fin q)"
    using assms(3) by (simp add: toFixed1_def Let_def)
  have "formatCompactNumber pf (Fin v) =
          formatWithSuffix pf (sign_of v) (num_div (Fin \<bar>v\<bar>) (Fin 1000000)) str_mln"
    using assms(1) by (simp only: formatCompactNumber_Fin if_True)
  also have "\<dots> = formatWithSuffix pf (sign_of v) (Fin q) str_mln" by (simp only: assms(2))
  finally show ?thesis by (simp only: formatWithSuffix_def Let_def tf)
qed

lemma formatCompactNumber_thousands:
  assumes "1000 \<le> \<bar>v\<bar>" and "\<bar>v\<bar> < 1000000"
  shows "\<exists>t. num_div (Fin \<bar>v\<bar>) (Fin 1000) = Fin t \<and>
           formatCompactNumber pf (Fin v) =
             sign_of v @ tenths (nat \<lfloor>t * 10 + 1 / 2\<rfloor>) @ ascii '' '' @ str_tys"
proof -
  from thousands_quotient [OF assms]
  obtain t where t: "round_double (\<bar>v\<bar> / 1000) = Fin t" and t0: "0 \<le> t" and t21: "t < 10 ^ 21"
    by blast
  have nd: "num_div (Fin \<bar>v\<bar>) (Fin 1000) = Fin t" using t by (simp add: num_div_Fin)
  have "\<not> 1000000 \<le> \<bar>v\<bar>" using assms(2) by simp
  then have "formatCompactNumber pf (Fin v) =
          formatWithSuffix pf (sign_of v) (num_div (Fin \<bar>v\<bar>) (Fin 1000)) str_tys"
    using assms(1) by (simp only: formatCompactNumber_Fin if_True if_False)
  also have "\<dots> = formatWithSuffix pf (sign_of v) (Fin t) str_tys" by (simp only: nd)
  also have "\<dots> = sign_of v @ tenths (nat \<lfloor>t * 10 + 1 / 2\<rfloor>) @ ascii '' '' @ str_tys"
    using t0 t21 by (rule formatWithSuffix_digits)
  finally show ?thesis using nd by blast
qed

lemma formatCompactNumber_small:
  assumes "\<bar>v\<bar> < 1000"
  shows "formatCompactNumber pf (Fin v) = intl_ru_format pf (Fin v)"
proof -
  have "\<not> 1000000 \<le> \<bar>v\<bar>" and "\<not> 1000 \<le> \<bar>v\<bar>" using assms by simp_all
  then show ?thesis by (simp only: formatCompactNumber_Fin if_False)
qed

text \<open>
  The description of formatCompactNumber in the words of claim C7: the exact quotient of
  \<open>|v|\<close> by the unit, rounded to one decimal place (the nearest tenth; 1.15 lies midway
  between 1.1 and 1.2 and goes to 1.2, whether a tie is rounded upward or to the even
  tenth), a trailing '.0' dropped and the point written as a comma.
\<close>

definition one_decimal :: "rat \<Rightarrow> jsstring" where
  "one_decimal x = tenths (nat \<lfloor>x * 10 + 1 / 2\<rfloor>)"

definition formatCompactNumber_spec :: "platform \<Rightarrow> rat \<Rightarrow> jsstring" where
  "formatCompactNumber_spec pf v =
     (if 1000000 \<le> \<bar>v\<bar> then
        sign_of v @ one_decimal (\<bar>v\<bar> / 1000000) @ ascii '' '' @ str_mln
      else if 1000 \<le> \<bar>v\<bar> then
        sign_of v @ one_decimal (\<bar>v\<bar> / 1000) @ ascii '' '' @ str_tys
      else intl_ru_format pf (Fin v))"

lemma quotient_1150000:
  "num_div (Fin \<bar>1150000\<bar>) (Fin 1000000) = Fin (2589569785738035 / 2251799813685248)"
proof -
  have "round_double (23 / 20) = Fin (2589569785738035 / 2251799813685248)"
    by (rule round_double_pos(1) [where e = 0])
       (simp_all add: round_half_even_def Let_def double_limit_def)
  then show ?thesis by (simp add: num_div_Fin)
qed

lemma format_1150000:
  "formatCompactNumber pf (Fin 1150000) = ascii ''1,1 '' @ str_mln"
proof -
  have "formatCompactNumber pf (Fin 1150000) =
        sign_of 1150000 @
        tenths (nat \<lfloor>(2589569785738035 / 2251799813685248 :: rat) * 10 + 1 / 2\<rfloor>) @
        ascii '' '' @ str_mln"
    by (rule formatCompactNumber_millions [OF _ quotient_1150000]) simp_all
  then show ?thesis by (simp add: sign_of_def tenths_def decimal_small ascii_def)
qed

text \<open>
  Claim C7, as stated, fails: 1150000 / 1000000 is 1.15, which rounded to one decimal place is
  1.2, so the claim gives '1,2' and the unit of millions. The code divides in binary64: the
  quotient is the double nearest to 1.15, which lies below 1.15, and toFixed(1) of that
  double is '1.1'.
\<close>

theorem formatCompactNumber_rounding_counterexample:
  "formatCompactNumber example_platform (Fin 1150000) = ascii ''1,1 '' @ str_mln \<and>
   formatCompactNumber_spec example_platform 1150000 = ascii ''1,2 '' @ str_mln \<and>
   formatCompactNumber example_platform (Fin 1150000) \<noteq>
     formatCompactNumber_spec example_platform 1150000"
proof -
  have s: "formatCompactNumber_spec example_platform 1150000 = ascii ''1,2 '' @ str_mln"
    by (simp add: formatCompactNumber_spec_def one_decimal_def sign_of_def tenths_def
        decimal_small ascii_def)
  have "ascii ''1,1 '' @ str_mln \<noteq> ascii ''1,2 '' @ str_mln" by (simp add: ascii_def)
  with s format_1150000 [of example_platform] show ?thesis by simp
qed

text \<open>
  Claim C7, amended. For every finite number v, formatCompactNumber returns: when |v| is at
  least 1000000, the string formed from the binary64 quotient \<open>q\<close> of |v| by 1000000 (the
  double nearest to the exact quotient), rounded to one decimal place as \<open>toFixed(1)\<close>
  does it (the tenth nearest to the exact value of \<open>q\<close>, the larger one of two), with a
  trailing '.0' dropped and the decimal point written as a comma, prefixed with '-' when v
  is negative and followed by a space and the unit of millions; when 1000 \<le> |v| < 1000000,
  the analogous string from the binary64 quotient by 1000 with the unit of thousands; and
  otherwise the ru-RU locale formatting of v. The rounded quotient is written as the decimal
  digits of its whole part and, unless the tenths digit is zero, a comma and that digit. A
  quotient of \<open>10\<^sup>2\<^sup>1\<close> or more is a whole number, and \<open>toFixed\<close> returns its ordinary string
  form, in which the first decimal point is again written as a comma.
\<close>

theorem formatCompactNumber_shape:
  "(1000000 \<le> \<bar>v\<bar> \<and> num_div (Fin \<bar>v\<bar>) (Fin 1000000) = Fin q \<and> q < 10 ^ 21 \<longrightarrow>
      formatCompactNumber pf (Fin v) =
        sign_of v @ tenths (nat \<lfloor>q * 10 + 1 / 2\<rfloor>) @ ascii '' '' @ str_mln) \<and>
   (1000000 \<le> \<bar>v\<bar> \<and> num_div (Fin \<bar>v\<bar>) (Fin 1000000) = Fin q \<and> 10 ^ 21 \<le> q \<longrightarrow>
      formatCompactNumber pf (Fin v) =
        sign_of v @
        replace_first (ascii ''.'') (ascii '','') (strip_dot_zero (number_toString pf (Fin q))) @
        ascii '' '' @ str_mln) \<and>
   (1000 \<le> \<bar>v\<bar> \<and> \<bar>v\<bar> < 1000000 \<longrightarrow>
      (\<exists>t. num_div (Fin \<bar>v\<bar>) (Fin 1000) = Fin t \<and>
           formatCompactNumber pf (Fin v) =
             sign_of v @ tenths (nat \<lfloor>t * 10 + 1 / 2\<rfloor>) @ ascii '' '' @ str_tys)) \<and>
   (\<bar>v\<bar> < 1000 \<longrightarrow> formatCompactNumber pf (Fin v) = intl_ru_format pf (Fin v))"
  using formatCompactNumber_millions [of v q pf] formatCompactNumber_huge [of v q pf] formatCompactNumber_thousands [of v pf] formatCompactNumber_small [of v pf] by blast

lemma quotient_16100:
  "num_div (Fin \<bar>16100\<bar>) (Fin 1000) = Fin (2265873562520781 / 140737488355328)"
proof -
  have "round_double (161 / 10) = Fin (2265873562520781 / 140737488355328)"
    by (rule round_double_pos(1) [where e = 4])
       (simp_all add: round_half_even_def Let_def double_limit_def)
  then show ?thesis by (simp add: num_div_Fin)
qed

theorem formatCompactNumber_shape_witness:
  "formatCompactNumber example_platform (Fin (- 1150000)) = ascii ''-1,1 '' @ str_mln \<and>
   formatCompactNumber example_platform (Fin 16100) = ascii ''16,1 '' @ str_tys \<and>
   formatCompactNumber example_platform (Fin 12) = intl_ru_format example_platform (Fin 12)"
proof -
  note T1 = formatCompactNumber_shape [of "- 1150000" "2589569785738035 / 2251799813685248" example_platform]
  note T2 = formatCompactNumber_shape [of "16100" 0 example_platform]
  note T3 = formatCompactNumber_shape [of "12" 0 example_platform]
  have "formatCompactNumber example_platform (Fin (- 1150000)) =
        sign_of (- 1150000) @
        tenths (nat \<lfloor>(2589569785738035 / 2251799813685248 :: rat) * 10 + 1 / 2\<rfloor>) @
        ascii '' '' @ str_mln"
    using T1 quotient_1150000 by simp
  then have 1: "formatCompactNumber example_platform (Fin (- 1150000)) = ascii ''-1,1 '' @ str_mln"
    by (simp add: sign_of_def tenths_def decimal_small ascii_def)
  from T2 obtain t where nd: "num_div (Fin \<bar>16100\<bar>) (Fin 1000) = Fin t"
    and f: "formatCompactNumber example_platform (Fin 16100) =
           sign_of 16100 @ tenths (nat \<lfloor>t * 10 + 1 / 2\<rfloor>) @ ascii '' '' @ str_tys"
    by auto
  have "Fin t = Fin (2265873562520781 / 140737488355328)"
    using nd quotient_16100 by simp
  then have teq: "t = 2265873562520781 / 140737488355328" by (simp only: number.inject)
  have "formatCompactNumber example_platform (Fin 16100) =
        sign_of 16100 @
        tenths (nat \<lfloor>(2265873562520781 / 140737488355328 :: rat) * 10 + 1 / 2\<rfloor>) @
        ascii '' '' @ str_tys"
    using f unfolding teq .
  then have 2: "formatCompactNumber example_platform (Fin 16100) = ascii ''16,1 '' @ str_tys"
    by (simp add: sign_of_def tenths_def decimal_small decimal_large ascii_def)
  have 3: "formatCompactNumber example_platform (Fin 12) = intl_ru_format example_platform (Fin 12)"
    using T3 by simp
  from 1 2 3 show ?thesis by simp
qed

subsection \<open>Parsing what formatCompactNumber prints\<close>

definition dotted :: "nat \<Rightarrow> jsstring" where
  "dotted n = decimal (n div 10) @ (if n mod 10 = 0 then [] else [46, 48 + n mod 10])"

text \<open>The code units of a formatted number: digits, separators and the two units.\<close>

definition plain :: "nat \<Rightarrow> bool" where
  "plain c \<longleftrightarrow> is_digit c \<or> c = 44 \<or> c = 45 \<or> c = 46 \<or> c \<in> set str_mln \<or> c \<in> set str_tys"

lemma plain_lower: "plain c \<Longrightarrow> lower_unit c = c"
  by (auto simp: plain_def is_digit_def lower_unit_def str_mln_def str_tys_def)

lemma plain_not_ws: "plain c \<Longrightarrow> \<not> is_ws c"
  by (auto simp: plain_def is_digit_def is_ws_def str_mln_def str_tys_def)

lemma plain_decimal: "c \<in> set (decimal k) \<Longrightarrow> plain c"
  by (simp add: plain_def decimal_digits)

lemma digit_plain: "d < 10 \<Longrightarrow> plain (48 + d)"
  by (simp add: plain_def is_digit_def)

lemma plain_tenths: "c \<in> set (tenths m) \<Longrightarrow> plain c"
  by (auto simp: tenths_def plain_decimal digit_plain split: if_splits) (simp add: plain_def)

lemma plain_dotted: "c \<in> set (dotted m) \<Longrightarrow> plain c"
  by (auto simp: dotted_def plain_decimal digit_plain split: if_splits) (simp add: plain_def)

lemma plain_tabulated: "plain c \<Longrightarrow> tabulated c"
  by (auto simp: plain_def is_digit_def tabulated_def str_mln_def str_tys_def)

lemma toLowerCase_id:
  assumes "\<And>c. c \<in> set s \<Longrightarrow> tabulated c \<and> lower_unit c = c"
  shows "toLowerCase pf s = s"
  using assms by (simp add: toLowerCase_def map_idI list_all_iff)

lemma trim_id:
  assumes "s \<noteq> []" and "\<not> is_ws (hd s)" and "\<not> is_ws (last s)"
  shows "trim s = s"
proof -
  have 1: "dropWhile is_ws s = s" using assms(1,2) by (cases s) simp_all
  have "rev s \<noteq> []" and "\<not> is_ws (hd (rev s))" using assms(1,3) by (simp_all add: hd_rev)
  then have 2: "dropWhile is_ws (rev s) = rev s" by (cases "rev s") simp_all
  show ?thesis by (simp add: trim_def 1 2)
qed

lemma filter_plain: "(\<And>c. c \<in> set s \<Longrightarrow> plain c) \<Longrightarrow> filter (\<lambda>c. \<not> is_ws c) s = s"
  by (simp add: filter_id_conv plain_not_ws)

lemma tenths_nonempty: "tenths m \<noteq> []"
  by (simp add: tenths_def decimal_nonempty)

lemma hd_tenths_plain: "plain (hd (tenths m))"
  using plain_tenths [of "hd (tenths m)" m] tenths_nonempty [of m] by simp

lemma comma_to_dot_tenths:
  assumes "44 \<notin> set sg" and "44 \<notin> set unit"
  shows "replace_first (ascii '','') (ascii ''.'') (sg @ tenths m @ unit) = sg @ dotted m @ unit"
proof (cases "m mod 10 = 0")
  case True
  have "44 \<notin> set (sg @ decimal (m div 10) @ unit)"
    using assms not_digit_not_in_decimal [of 44 "m div 10"] by (simp add: is_digit_def)
  from replace_first_absent [OF this, of "[]" "[46]"] True show ?thesis
    by (simp add: tenths_def dotted_def ascii_def)
next
  case False
  have "44 \<notin> set (sg @ decimal (m div 10))"
    using assms not_digit_not_in_decimal [of 44 "m div 10"] by (simp add: is_digit_def)
  from replace_first_at [OF this, of "[]" "[46]" "(48 + m mod 10) # unit"] False show ?thesis
    by (simp add: tenths_def dotted_def ascii_def)
qed

lemma cleaned_formatted:
  assumes sg: "sg = [] \<or> sg = ascii ''-''" and unit: "unit = str_mln \<or> unit = str_tys"
  shows "replace_first (ascii '','') (ascii ''.'')
           (delete_ws_runs (toLowerCase pf (trim (sg @ tenths m @ ascii '' '' @ unit)))) =
         sg @ dotted m @ unit"
proof -
  let ?s = "sg @ tenths m @ ascii '' '' @ unit"
  have pl_sg: "\<And>c. c \<in> set sg \<Longrightarrow> plain c" using sg by (auto simp: plain_def ascii_def)
  have pl_unit: "\<And>c. c \<in> set unit \<Longrightarrow> plain c" using unit by (auto simp: plain_def)
  have unit_ne: "unit \<noteq> []" using unit by (auto simp: str_mln_def str_tys_def)
  have hd: "\<not> is_ws (hd ?s)"
  proof (cases "sg = []")
    case True
    then show ?thesis using hd_tenths_plain [of m] tenths_nonempty [of m]
      by (simp add: plain_not_ws)
  next
    case False
    with sg show ?thesis by (simp add: ascii_def is_ws_def)
  qed
  have last: "\<not> is_ws (last ?s)"
    using unit_ne pl_unit [of "last unit"] by (simp add: plain_not_ws)
  have ne: "?s \<noteq> []" using tenths_nonempty [of m] by simp
  have t: "trim ?s = ?s" using ne hd last by (rule trim_id)
  have l: "toLowerCase pf ?s = ?s"
  proof (rule toLowerCase_id)
    fix c assume "c \<in> set ?s"
    then consider "c \<in> set sg" | "c \<in> set (tenths m)" | "c = 32" | "c \<in> set unit"
      by (auto simp: ascii_def)
    then show "tabulated c \<and> lower_unit c = c"
      using pl_sg pl_unit plain_tenths plain_lower plain_tabulated
      by cases (auto simp: lower_unit_def tabulated_def)
  qed
  have f: "filter (\<lambda>c. \<not> is_ws c) ?s = sg @ tenths m @ unit"
  proof -
    have "filter (\<lambda>c. \<not> is_ws c) (sg @ tenths m @ unit) = sg @ tenths m @ unit"
      by (rule filter_plain) (use pl_sg pl_unit plain_tenths in auto)
    then show ?thesis by (simp add: ascii_def is_ws_def)
  qed
  have c: "44 \<notin> set sg" "44 \<notin> set unit"
    using sg unit by (auto simp: ascii_def str_mln_def str_tys_def)
  show ?thesis
    by (simp only: t l delete_ws_runs_filter f comma_to_dot_tenths [OF c])
qed


lemma digits_value_snoc: "digits_value (ds @ [c]) = 10 * digits_value ds + (c - 48)"
  by (simp add: digits_value_def)

lemma digits_value_decimal: "digits_value (decimal k) = k"
proof (induction k rule: decimal.induct)
  case (1 n)
  show ?case
  proof (cases "n < 10")
    case True
    then show ?thesis by (simp add: decimal_small digits_value_def)
  next
    case False
    with 1 show ?thesis by (simp add: decimal_large digits_value_snoc)
  qed
qed

lemma takeWhile_decimal:
  assumes "r = [] \<or> \<not> is_digit (hd r)"
  shows "takeWhile is_digit (decimal k @ r) = decimal k"
    and "dropWhile is_digit (decimal k @ r) = r"
proof -
  have all: "\<And>c. c \<in> set (decimal k) \<Longrightarrow> is_digit c" by (rule decimal_digits)
  have "takeWhile is_digit r = []" and "dropWhile is_digit r = r"
    using assms by (cases r; simp)+
  then show "takeWhile is_digit (decimal k @ r) = decimal k"
    and "dropWhile is_digit (decimal k @ r) = r"
    using all by (simp_all add: takeWhile_append2 dropWhile_append2)
qed

lemma takeWhile_decimal_only:
  "takeWhile is_digit (decimal k) = decimal k" "dropWhile is_digit (decimal k) = []"
  using takeWhile_decimal [of "[]" k] by simp_all

lemma parse_unsigned_dotted: "parse_unsigned (dotted m) = Some (of_nat m / 10)"
proof (cases "m mod 10 = 0")
  case True
  then have u: "dotted m = decimal (m div 10)" by (simp add: dotted_def)
  have m: "(of_nat m :: rat) / 10 = of_nat (m div 10)"
  proof -
    have "m = 10 * (m div 10)" using True by auto
    then have "(of_nat m :: rat) = 10 * of_nat (m div 10)" by (metis of_nat_mult of_nat_numeral)
    then show ?thesis by simp
  qed
  show ?thesis
    unfolding u parse_unsigned_def Let_def
    by (simp add: takeWhile_decimal_only decimal_nonempty digits_value_decimal
        parse_exponent_def m)
next
  case False
  then have u: "dotted m = decimal (m div 10) @ [46, 48 + m mod 10]" by (simp add: dotted_def)
  have d: "is_digit (48 + m mod 10)" by (simp add: is_digit_def)
  have nd: "[46, 48 + m mod 10] = [] \<or> \<not> is_digit (hd [46, 48 + m mod 10])"
    by (simp add: is_digit_def)
  have m: "(of_nat (10 * (m div 10) + m mod 10) :: rat) = of_nat m" by simp
  show ?thesis
    unfolding u parse_unsigned_def Let_def takeWhile_decimal [OF nd]
    by (simp add: decimal_nonempty digits_value_decimal digits_value_snoc parse_exponent_def d
        power_int_minus m del: of_nat_add of_nat_mult)
qed


lemma dotted_Cons: "\<exists>c cs. dotted m = c # cs \<and> is_digit c"
proof -
  obtain c cs where d: "decimal (m div 10) = c # cs"
    using decimal_nonempty [of "m div 10"] by (cases "decimal (m div 10)") auto
  then have "is_digit c" using decimal_digits [of c "m div 10"] by simp
  with d show ?thesis by (auto simp: dotted_def)
qed

lemma parseFloat_dotted:
  "parseFloat (dotted m) = round_double (of_nat m / 10)"
  "parseFloat (ascii ''-'' @ dotted m) = round_double (- (of_nat m / 10))"
proof -
  obtain c cs where d: "dotted m = c # cs" and c: "is_digit c" using dotted_Cons by blast
  have nws: "\<not> is_ws c" and n45: "c \<noteq> 45" and n43: "c \<noteq> 43" and n73: "c \<noteq> 73"
    using c by (auto simp: is_digit_def is_ws_def)
  have inf: "\<not> startsWith (c # cs) (ascii ''Infinity'')" using n73 by (simp add: ascii_def)
  have pu: "parse_unsigned (c # cs) = Some (of_nat m / 10)"
    using parse_unsigned_dotted [of m] by (simp add: d)
  show "parseFloat (dotted m) = round_double (of_nat m / 10)"
    unfolding d parseFloat_def Let_def using nws n45 n43 inf pu by simp
  show "parseFloat (ascii ''-'' @ dotted m) = round_double (- (of_nat m / 10))"
    unfolding d parseFloat_def Let_def using n73 pu by (simp add: ascii_def is_ws_def)
qed


lemma not_includes:
  assumes "x \<in> set needle" and "x \<notin> set hay"
  shows "\<not> str_includes hay needle"
  using assms by (auto simp: str_includes_iff)

lemma dotted_chars: "c \<in> set (dotted m) \<Longrightarrow> is_digit c \<or> c = 46"
proof -
  assume "c \<in> set (dotted m)"
  then have "c \<in> set (decimal (m div 10)) \<or> c = 46 \<or> c = 48 + m mod 10"
    by (auto simp: dotted_def split: if_splits)
  moreover have "is_digit (48 + m mod 10)" by (simp add: is_digit_def)
  ultimately show ?thesis using decimal_digits [of c "m div 10"] by blast
qed

lemma mln_not_plain_number: "1084 \<notin> set (sg @ dotted m)" if "sg = [] \<or> sg = ascii ''-''"
  using that dotted_chars [of 1084 m] by (auto simp: ascii_def is_digit_def)

lemma tys_not_plain_number: "1090 \<notin> set (sg @ dotted m)" if "sg = [] \<or> sg = ascii ''-''"
  using that dotted_chars [of 1090 m] by (auto simp: ascii_def is_digit_def)

lemma parse_formatted_mln:
  assumes "sg = [] \<or> sg = ascii ''-''"
  shows "parseNumericValue pf (StrV (sg @ tenths m @ ascii '' '' @ str_mln)) =
           (if isFinite (parseFloat (sg @ dotted m))
            then num_mul (parseFloat (sg @ dotted m)) (Fin 1000000) else Fin 0)"
proof -
  let ?t = "sg @ dotted m @ str_mln"
  have c: "replace_first (ascii '','') (ascii ''.'')
             (delete_ws_runs (toLowerCase pf (trim (sg @ tenths m @ ascii '' '' @ str_mln)))) = ?t"
    using assms by (intro cleaned_formatted) simp_all
  have i: "str_includes ?t str_mln"
    unfolding str_includes_iff by (intro exI [of _ "sg @ dotted m"] exI [of _ "[]"]) simp
  have "replace_first (1084 # [1083, 1085]) [] ((sg @ dotted m) @ (1084 # [1083, 1085]) @ []) =
        (sg @ dotted m) @ [] @ []"
    by (rule replace_first_at) (rule mln_not_plain_number [OF assms])
  then have r: "replace_first str_mln [] ?t = sg @ dotted m" by (simp add: str_mln_def)
  show ?thesis by (simp only: parseNumericValue_def NumericValue.case Let_def c i r if_True)
qed

lemma parse_formatted_tys:
  assumes "sg = [] \<or> sg = ascii ''-''"
  shows "parseNumericValue pf (StrV (sg @ tenths m @ ascii '' '' @ str_tys)) =
           (if isFinite (parseFloat (sg @ dotted m))
            then num_mul (parseFloat (sg @ dotted m)) (Fin 1000) else Fin 0)"
proof -
  let ?t = "sg @ dotted m @ str_tys"
  have c: "replace_first (ascii '','') (ascii ''.'')
             (delete_ws_runs (toLowerCase pf (trim (sg @ tenths m @ ascii '' '' @ str_tys)))) = ?t"
    using assms by (intro cleaned_formatted) simp_all
  have "1084 \<notin> set ?t" using mln_not_plain_number [OF assms, of m] by (simp add: str_tys_def)
  then have n: "\<not> str_includes ?t str_mln"
    by (intro not_includes [of 1084]) (simp_all add: str_mln_def)
  have i: "str_includes ?t str_tys"
    unfolding str_includes_iff by (intro exI [of _ "sg @ dotted m"] exI [of _ "[]"]) simp
  have "replace_first (1090 # [1099, 1089]) [] ((sg @ dotted m) @ (1090 # [1099, 1089]) @ []) =
        (sg @ dotted m) @ [] @ []"
    by (rule replace_first_at) (rule tys_not_plain_number [OF assms])
  then have r: "replace_first str_tys [] ?t = sg @ dotted m" by (simp add: str_tys_def)
  show ?thesis
    by (simp only: parseNumericValue_def NumericValue.case Let_def c n i r if_True if_False)
qed


lemma tenth_rounds_back:
  assumes "10 \<le> kk" and "kk < 2 ^ 40"
  shows "\<exists>r. round_double (of_nat kk / 10) = Fin r \<and>
             round_double (- (of_nat kk / 10)) = Fin (- r) \<and>
             0 \<le> r \<and> r < 10 ^ 21 \<and> nat \<lfloor>r * 10 + 1 / 2\<rfloor> = kk"
proof -
  define a :: rat where "a = of_nat kk / 10"
  have "(10::rat) \<le> of_nat kk" using assms(1) by (metis of_nat_le_iff of_nat_numeral)
  then have a1: "1 \<le> a" by (simp add: a_def)
  have "(of_nat kk :: rat) < of_nat (2 ^ 40)" using assms(2) by (simp only: of_nat_less_iff)
  then have a2: "a < 2 powi 37" by (simp add: a_def)
  have apos: "0 < a" using a1 by simp
  note B = floor_log2_bounds [OF apos]
  have "(2::rat) powi 0 < 2 powi (floor_log2 a + 1)" using a1 B(2) by simp
  then have e0: "0 < floor_log2 a + 1" by (rule pow2_less_cancel)
  have "(2::rat) powi (floor_log2 a) < 2 powi 37" using a2 B(1) by simp
  then have e37: "floor_log2 a < 37" by (rule pow2_less_cancel)
  from round_double_error [OF apos B(1) B(2)] e0 e37
  obtain r where r: "round_double a = Fin r" and rn: "round_double (- a) = Fin (- r)"
    and err: "\<bar>r - a\<bar> \<le> 2 powi (floor_log2 a - 53)"
    by auto
  have "(2::rat) powi (floor_log2 a - 53) \<le> 2 powi (- 17)"
    using e37 by (intro power_int_increasing) simp_all
  also have "\<dots> = 1 / 131072" by (simp add: power_int_minus_divide)
  finally have small: "\<bar>r - a\<bar> \<le> 1 / 131072" using err by simp
  have b1: "a - 1 / 131072 \<le> r" and b2: "r \<le> a + 1 / 131072" using small by linarith+
  have r0: "0 \<le> r" using b1 a1 by linarith
  have "a < 137438953472" using a2 by simp
  then have "r < 137438953473" using b2 by linarith
  then have r21: "r < 10 ^ 21" by simp
  have ten: "(of_int (int kk) :: rat) = a * 10" by (simp add: a_def)
  have lo: "of_int (int kk) \<le> r * 10 + 1 / 2" unfolding ten using b1 by linarith
  have hi: "r * 10 + 1 / 2 < of_int (int kk) + 1" unfolding ten using b2 by linarith
  have "\<lfloor>r * 10 + 1 / 2\<rfloor> = int kk" using lo hi by (rule floor_unique)
  then have "nat \<lfloor>r * 10 + 1 / 2\<rfloor> = kk" by simp
  with r rn r0 r21 show ?thesis unfolding a_def by blast
qed

lemma sign_of_cases: "sign_of v = [] \<or> sign_of v = ascii ''-''"
  by (simp add: sign_of_def)

lemma parseFloat_signed_dotted:
  "parseFloat (sign_of v @ dotted m) =
     (if v < 0 then round_double (- (of_nat m / 10)) else round_double (of_nat m / 10))"
  by (simp add: sign_of_def parseFloat_dotted)

lemma roundtrip_tys:
  assumes "10 \<le> kk" and "kk < 10000" and "\<bar>v\<bar> = of_nat kk * 100"
  shows "\<exists>r. round_double (\<bar>v\<bar> / 1000) = Fin r \<and>
             parseNumericValue pf (StrV (formatCompactNumber pf (Fin v))) =
               round_double ((if v < 0 then - r else r) * 1000)"
proof -
  have kk40: "kk < 2 ^ 40" using assms(2) by simp
  from tenth_rounds_back [OF assms(1) kk40]
  obtain r where r: "round_double (of_nat kk / 10) = Fin r"
    and rn: "round_double (- (of_nat kk / 10)) = Fin (- r)"
    and r0: "0 \<le> r" and r21: "r < 10 ^ 21" and fl: "nat \<lfloor>r * 10 + 1 / 2\<rfloor> = kk"
    by blast
  have q: "\<bar>v\<bar> / 1000 = of_nat kk / 10" by (simp add: assms(3))
  have "(10::rat) \<le> of_nat kk" using assms(1) by (metis of_nat_le_iff of_nat_numeral)
  then have v1: "1000 \<le> \<bar>v\<bar>" by (simp add: assms(3))
  have "(of_nat kk :: rat) < 10000" using assms(2) by (metis of_nat_less_iff of_nat_numeral)
  then have v2: "\<bar>v\<bar> < 1000000" by (simp add: assms(3))
  from formatCompactNumber_thousands [OF v1 v2, of pf]
  obtain t where nd: "num_div (Fin \<bar>v\<bar>) (Fin 1000) = Fin t"
    and f: "formatCompactNumber pf (Fin v) =
              sign_of v @ tenths (nat \<lfloor>t * 10 + 1 / 2\<rfloor>) @ ascii '' '' @ str_tys"
    by blast
  have "Fin t = Fin r" using nd r by (simp add: num_div_Fin q)
  then have tr: "t = r" by (simp only: number.inject)
  have f': "formatCompactNumber pf (Fin v) = sign_of v @ tenths kk @ ascii '' '' @ str_tys"
    using f by (simp only: tr fl)
  have pf': "parseFloat (sign_of v @ dotted kk) = Fin (if v < 0 then - r else r)"
    by (simp add: parseFloat_signed_dotted r rn)
  have "parseNumericValue pf (StrV (formatCompactNumber pf (Fin v))) =
          num_mul (Fin (if v < 0 then - r else r)) (Fin 1000)"
    unfolding f' parse_formatted_tys [OF sign_of_cases] pf' by (simp add: isFinite_def)
  also have "\<dots> = round_double ((if v < 0 then - r else r) * 1000)" by (simp add: num_mul_def)
  finally show ?thesis using r q by auto
qed

lemma roundtrip_mln:
  assumes "10 \<le> kk" and "kk < 2 ^ 40" and "\<bar>v\<bar> = of_nat kk * 100000"
  shows "\<exists>r. round_double (\<bar>v\<bar> / 1000000) = Fin r \<and>
             parseNumericValue pf (StrV (formatCompactNumber pf (Fin v))) =
               round_double ((if v < 0 then - r else r) * 1000000)"
proof -
  from tenth_rounds_back [OF assms(1,2)]
  obtain r where r: "round_double (of_nat kk / 10) = Fin r"
    and rn: "round_double (- (of_nat kk / 10)) = Fin (- r)"
    and r0: "0 \<le> r" and r21: "r < 10 ^ 21" and fl: "nat \<lfloor>r * 10 + 1 / 2\<rfloor> = kk"
    by blast
  have q: "\<bar>v\<bar> / 1000000 = of_nat kk / 10" by (simp add: assms(3))
  have "(10::rat) \<le> of_nat kk" using assms(1) by (metis of_nat_le_iff of_nat_numeral)
  then have v1: "1000000 \<le> \<bar>v\<bar>" by (simp add: assms(3))
  have nd: "num_div (Fin \<bar>v\<bar>) (Fin 1000000) = Fin r" using r by (simp add: num_div_Fin q)
  have f': "formatCompactNumber pf (Fin v) = sign_of v @ tenths kk @ ascii '' '' @ str_mln"
    using formatCompactNumber_millions [OF v1 nd r21, of pf] by (simp only: fl)
  have pf': "parseFloat (sign_of v @ dotted kk) = Fin (if v < 0 then - r else r)"
    by (simp add: parseFloat_signed_dotted r rn)
  have "parseNumericValue pf (StrV (formatCompactNumber pf (Fin v))) =
          num_mul (Fin (if v < 0 then - r else r)) (Fin 1000000)"
    unfolding f' parse_formatted_mln [OF sign_of_cases] pf' by (simp add: isFinite_def)
  also have "\<dots> = round_double ((if v < 0 then - r else r) * 1000000)"
    by (simp add: num_mul_def)
  finally show ?thesis using r q by auto
qed

lemma dotted_whole: "dotted (10 * k) = decimal k"
  by (simp add: dotted_def)

lemma parseFloat_int:
  assumes "\<bar>n\<bar> < 2 ^ 53"
  shows "parseFloat (int_toString n) = Fin (of_int n)"
proof (cases "n < 0")
  case True
  have "parseFloat (ascii ''-'' @ dotted (10 * nat (- n))) =
        round_double (- (of_nat (10 * nat (- n)) / 10))"
    by (rule parseFloat_dotted(2))
  also have "- ((of_nat (10 * nat (- n)) :: rat) / 10) = of_int n" using True by simp
  also have "round_double (of_int n) = Fin (of_int n)" using assms by (rule round_double_int)
  finally show ?thesis using True by (simp add: int_toString_def dotted_whole ascii_def)
next
  case False
  have "parseFloat (dotted (10 * nat n)) = round_double (of_nat (10 * nat n) / 10)"
    by (rule parseFloat_dotted(1))
  also have "(of_nat (10 * nat n) :: rat) / 10 = of_int n" using False by simp
  also have "round_double (of_int n) = Fin (of_int n)" using assms by (rule round_double_int)
  finally show ?thesis using False by (simp add: int_toString_def dotted_whole)
qed

lemma int_toString_chars: "c \<in> set (int_toString n) \<Longrightarrow> is_digit c \<or> c = 45"
  using decimal_digits [of c] by (auto simp: int_toString_def split: if_splits)

lemma int_toString_ends: "int_toString n \<noteq> []" "is_digit (last (int_toString n))"
proof -
  show "int_toString n \<noteq> []" by (simp add: int_toString_def decimal_nonempty)
  have "\<And>k. is_digit (last (decimal k))"
    using decimal_digits decimal_nonempty last_in_set by blast
  then show "is_digit (last (int_toString n))"
    by (simp add: int_toString_def decimal_nonempty)
qed

lemma parse_int_toString:
  assumes "\<bar>n\<bar> < 2 ^ 53"
  shows "parseNumericValue pf (StrV (int_toString n)) = Fin (of_int n)"
proof -
  let ?s = "int_toString n"
  have pl: "\<And>c. c \<in> set ?s \<Longrightarrow> plain c"
    using int_toString_chars by (auto simp: plain_def)
  have "hd ?s \<in> set ?s" and "last ?s \<in> set ?s" using int_toString_ends(1) by simp_all
  then have "\<not> is_ws (hd ?s)" and "\<not> is_ws (last ?s)" using pl plain_not_ws by blast+
  then have t: "trim ?s = ?s" using int_toString_ends(1) by (intro trim_id)
  have l: "toLowerCase pf ?s = ?s" by (rule toLowerCase_id) (use pl plain_lower plain_tabulated in blast)
  have f: "filter (\<lambda>c. \<not> is_ws c) ?s = ?s" by (rule filter_plain) (use pl in blast)
  have "44 \<notin> set ?s" using int_toString_chars [of 44 n] by (auto simp: is_digit_def)
  then have c: "replace_first (ascii '','') (ascii ''.'') ?s = ?s"
    by (simp add: ascii_def replace_first_absent)
  have "1084 \<notin> set ?s" using int_toString_chars [of 1084 n] by (auto simp: is_digit_def)
  then have n1: "\<not> str_includes ?s str_mln"
    by (intro not_includes [of 1084]) (simp_all add: str_mln_def)
  have "1090 \<notin> set ?s" using int_toString_chars [of 1090 n] by (auto simp: is_digit_def)
  then have n2: "\<not> str_includes ?s str_tys"
    by (intro not_includes [of 1090]) (simp_all add: str_tys_def)
  have "107 \<notin> set ?s" using int_toString_chars [of 107 n] by (auto simp: is_digit_def)
  then have n3: "\<not> endsWith ?s (ascii ''k'')" by (auto simp: endsWith_iff ascii_def)
  have "parseNumericValue pf (StrV ?s) =
          (if isFinite (parseFloat ?s) then num_mul (parseFloat ?s) (Fin 1) else Fin 0)"
    by (simp only: parseNumericValue_def NumericValue.case Let_def t l delete_ws_runs_filter f c
        n1 n2 n3 if_False)
  also have "\<dots> = round_double (of_int n * 1)"
    by (simp add: parseFloat_int [OF assms] isFinite_def num_mul_def)
  also have "\<dots> = Fin (of_int n)" using round_double_int [OF assms] by simp
  finally show ?thesis .
qed

lemma roundtrip_small:
  assumes "\<bar>n\<bar> < 1000" and "intl_ru_format pf (Fin (of_int n)) = int_toString n"
  shows "parseNumericValue pf (StrV (formatCompactNumber pf (Fin (of_int n)))) = Fin (of_int n)"
proof -
  have "\<bar>of_int n :: rat\<bar> < 1000" using assms(1) by (metis of_int_abs of_int_less_iff of_int_numeral)
  then have "formatCompactNumber pf (Fin (of_int n)) = int_toString n"
    by (simp add: formatCompactNumber_small assms(2))
  moreover have "\<bar>n\<bar> < 2 ^ 53" using assms(1) by simp
  ultimately show ?thesis by (simp add: parse_int_toString)
qed

lemma signed_value:
  fixes n :: int and r :: rat
  assumes "n \<noteq> 0"
  shows "(if (of_int n :: rat) < 0 then - r else r) = of_int (sgn n) * r"
  using assms by (cases "n < 0") simp_all

lemma roundtrip_int_tys:
  fixes n :: int
  assumes "1000 \<le> \<bar>n\<bar>" and "\<bar>n\<bar> < 1000000" and "100 dvd n"
  shows "\<exists>r. round_double (of_int \<bar>n\<bar> / 1000) = Fin r \<and>
             parseNumericValue pf (StrV (formatCompactNumber pf (Fin (of_int n)))) =
               round_double (of_int (sgn n) * r * 1000)"
proof -
  define kk where "kk = nat (\<bar>n\<bar> div 100)"
  have "100 dvd \<bar>n\<bar>" using assms(3) by simp
  then have n: "\<bar>n\<bar> = int kk * 100" using assms(1) by (auto simp: kk_def)
  have k1: "10 \<le> kk" and k2: "kk < 10000" using assms(1,2) n by linarith+
  have "\<bar>of_int n :: rat\<bar> = of_int \<bar>n\<bar>" by simp
  also have "\<dots> = of_nat kk * 100" unfolding n by simp
  finally have v: "\<bar>of_int n :: rat\<bar> = of_nat kk * 100" .
  have nz: "n \<noteq> 0" using assms(1) by auto
  from roundtrip_tys [OF k1 k2 v, of pf] show ?thesis
    by (simp only: signed_value [OF nz] of_int_abs)
qed

lemma roundtrip_int_mln:
  fixes n :: int
  assumes "1000000 \<le> \<bar>n\<bar>" and "\<bar>n\<bar> < 2 ^ 53" and "100000 dvd n"
  shows "\<exists>r. round_double (of_int \<bar>n\<bar> / 1000000) = Fin r \<and>
             parseNumericValue pf (StrV (formatCompactNumber pf (Fin (of_int n)))) =
               round_double (of_int (sgn n) * r * 1000000)"
proof -
  define kk where "kk = nat (\<bar>n\<bar> div 100000)"
  have "100000 dvd \<bar>n\<bar>" using assms(3) by simp
  then have n: "\<bar>n\<bar> = int kk * 100000" using assms(1) by (auto simp: kk_def)
  have k1: "10 \<le> kk" using assms(1) n by linarith
  have "int kk < 2 ^ 40" using assms(2) n by simp
  then have k2: "kk < 2 ^ 40" by (metis of_nat_less_iff of_nat_numeral of_nat_power)
  have "\<bar>of_int n :: rat\<bar> = of_int \<bar>n\<bar>" by simp
  also have "\<dots> = of_nat kk * 100000" unfolding n by simp
  finally have v: "\<bar>of_int n :: rat\<bar> = of_nat kk * 100000" .
  have nz: "n \<noteq> 0" using assms(1) by auto
  from roundtrip_mln [OF k1 k2 v, of pf] show ?thesis
    by (simp only: signed_value [OF nz] of_int_abs)
qed

lemma roundtrip_exact:
  fixes n :: int and mult :: int
  assumes "mult dvd n" and "0 < mult" and "\<bar>n\<bar> < 2 ^ 53" and "n \<noteq> 0"
    and "round_double (of_int \<bar>n\<bar> / of_int mult) = Fin r"
  shows "round_double (of_int (sgn n) * r * of_int mult) = Fin (of_int n)"
proof -
  define j where "j = \<bar>n\<bar> div mult"
  have "mult dvd \<bar>n\<bar>" using assms(1) by simp
  then have n: "\<bar>n\<bar> = j * mult" by (simp add: j_def)
  have j0: "0 \<le> j" using assms(2) by (simp add: j_def pos_imp_zdiv_nonneg_iff)
  have "j \<le> j * mult" using j0 assms(2) by (simp add: mult_le_cancel_left1)
  then have "\<bar>j\<bar> < 2 ^ 53" using j0 n assms(3) by linarith
  then have "round_double (of_int j) = Fin (of_int j)" by (rule round_double_int)
  moreover have "(of_int \<bar>n\<bar> :: rat) / of_int mult = of_int j"
    unfolding n using assms(2) by simp
  ultimately have "Fin r = Fin (of_int j)" using assms(5) by simp
  then have r: "r = of_int j" by (simp only: number.inject)
  have "of_int (sgn n) * r * of_int mult = (of_int (sgn n * (j * mult)) :: rat)"
    by (simp add: r)
  also have "sgn n * (j * mult) = n" unfolding n [symmetric] by (simp add: sgn_mult_abs)
  finally show ?thesis using round_double_int [OF assms(3)] by simp
qed

abbreviation roundtrip :: "platform \<Rightarrow> int \<Rightarrow> number" where
  "roundtrip pf n \<equiv> parseNumericValue pf (StrV (formatCompactNumber pf (Fin (of_int n))))"

lemma product_16100:
  "round_double (2265873562520781 / 140737488355328 * 1000) =
   Fin (8851068603596801 / 549755813888)"
  by (rule round_double_pos(1) [where e = 13])
     (simp_all add: round_half_even_def Let_def double_limit_def)

text \<open>
  Claim C10, as stated, fails: 16100 is an integer multiple of 100 between 1000 and 1000000,
  it is formatted as '16,1' with the unit of thousands, and parsing that text multiplies the
  double nearest to 16.1 by 1000, which gives 16100.000000000002 and not 16100.
\<close>

theorem roundtrip_counterexample: "roundtrip example_platform 16100 \<noteq> Fin (of_int 16100)"
proof -
  have "1000 \<le> \<bar>16100 :: int\<bar>" and "\<bar>16100 :: int\<bar> < 1000000" and "(100::int) dvd 16100"
    by simp_all
  from roundtrip_int_tys [OF this, of example_platform]
  obtain r where r: "round_double (of_int \<bar>16100\<bar> / 1000) = Fin r"
    and p: "roundtrip example_platform 16100 = round_double (of_int (sgn 16100) * r * 1000)"
    by blast
  have "round_double (161 / 10) = Fin (2265873562520781 / 140737488355328)"
    using quotient_16100 by (simp add: num_div_Fin)
  then have "Fin r = Fin (2265873562520781 / 140737488355328)" using r by simp
  then have req: "r = 2265873562520781 / 140737488355328" by (simp only: number.inject)
  have "of_int (sgn (16100::int)) * r * 1000 = 2265873562520781 / 140737488355328 * (1000::rat)"
    unfolding req by simp
  then have "roundtrip example_platform 16100 =
             round_double (2265873562520781 / 140737488355328 * 1000)"
    using p by (simp only:)
  then have "roundtrip example_platform 16100 = Fin (8851068603596801 / 549755813888)"
    by (simp only: product_16100)
  then show ?thesis by simp
qed

text \<open>
  Claim C10, amended. parseNumericValue(formatCompactNumber(n)) = n for every integer n with
  |n| < 1000 (the ru-RU formatter printing such an integer as its decimal digits, with '-'
  before a negative one), for every integer multiple of 1000 with 1000 \<le> |n| < 1000000, and
  for every integer multiple of 1000000 with 1000000 \<le> |n| < 2^53. For the other multiples of
  100 with 1000 \<le> |n| < 1000000, and of 100000 with 1000000 \<le> |n| < 2^53, the result is the
  binary64 product of the multiplier with the double nearest to |n|/1000 (|n|/1000000), with
  the sign of n; it need not be n.
\<close>

theorem parse_format_roundtrip:
  "(\<bar>n\<bar> < 1000 \<and> intl_ru_format pf (Fin (of_int n)) = int_toString n \<longrightarrow>
      roundtrip pf n = Fin (of_int n)) \<and>
   (1000 \<le> \<bar>n\<bar> \<and> \<bar>n\<bar> < 1000000 \<and> 100 dvd n \<longrightarrow>
      (\<exists>r. round_double (of_int \<bar>n\<bar> / 1000) = Fin r \<and>
           roundtrip pf n = round_double (of_int (sgn n) * r * 1000))) \<and>
   (1000000 \<le> \<bar>n\<bar> \<and> \<bar>n\<bar> < 2 ^ 53 \<and> 100000 dvd n \<longrightarrow>
      (\<exists>r. round_double (of_int \<bar>n\<bar> / 1000000) = Fin r \<and>
           roundtrip pf n = round_double (of_int (sgn n) * r * 1000000))) \<and>
   (1000 \<le> \<bar>n\<bar> \<and> \<bar>n\<bar> < 1000000 \<and> 1000 dvd n \<longrightarrow> roundtrip pf n = Fin (of_int n)) \<and>
   (1000000 \<le> \<bar>n\<bar> \<and> \<bar>n\<bar> < 2 ^ 53 \<and> 1000000 dvd n \<longrightarrow> roundtrip pf n = Fin (of_int n))"
proof (intro conjI impI)
  assume "\<bar>n\<bar> < 1000 \<and> intl_ru_format pf (Fin (of_int n)) = int_toString n"
  then show "roundtrip pf n = Fin (of_int n)" by (simp add: roundtrip_small)
next
  assume "1000 \<le> \<bar>n\<bar> \<and> \<bar>n\<bar> < 1000000 \<and> 100 dvd n"
  then show "\<exists>r. round_double (of_int \<bar>n\<bar> / 1000) = Fin r \<and>
           roundtrip pf n = round_double (of_int (sgn n) * r * 1000)"
    using roundtrip_int_tys [of n pf] by blast
next
  assume "1000000 \<le> \<bar>n\<bar> \<and> \<bar>n\<bar> < 2 ^ 53 \<and> 100000 dvd n"
  then show "\<exists>r. round_double (of_int \<bar>n\<bar> / 1000000) = Fin r \<and>
           roundtrip pf n = round_double (of_int (sgn n) * r * 1000000)"
    using roundtrip_int_mln [of n pf] by blast
next
  assume a: "1000 \<le> \<bar>n\<bar> \<and> \<bar>n\<bar> < 1000000 \<and> 1000 dvd n"
  have "(100::int) dvd 1000" by simp
  then have d: "100 dvd n" using a dvd_trans by blast
  from a d roundtrip_int_tys [of n pf]
  obtain r where r: "round_double (of_int \<bar>n\<bar> / 1000) = Fin r"
    and p: "roundtrip pf n = round_double (of_int (sgn n) * r * 1000)"
    by blast
  have m: "(1000::int) dvd n" and z: "(0::int) < 1000" using a by simp_all
  have "\<bar>n\<bar> < 1000000" using a by simp
  also have "(1000000::int) < 2 ^ 53" by simp
  finally have l: "\<bar>n\<bar> < 2 ^ 53" .
  have nz: "n \<noteq> 0" using a by auto
  have r': "round_double (of_int \<bar>n\<bar> / of_int 1000) = Fin r" using r by simp
  have "round_double (of_int (sgn n) * r * of_int 1000) = Fin (of_int n)"
    using m z l nz r' by (rule roundtrip_exact)
  then have "round_double (of_int (sgn n) * r * 1000) = Fin (of_int n)" by simp
  with p show "roundtrip pf n = Fin (of_int n)" by (simp only:)
next
  assume a: "1000000 \<le> \<bar>n\<bar> \<and> \<bar>n\<bar> < 2 ^ 53 \<and> 1000000 dvd n"
  have "(100000::int) dvd 1000000" by simp
  then have d: "100000 dvd n" using a dvd_trans by blast
  from a d roundtrip_int_mln [of n pf]
  obtain r where r: "round_double (of_int \<bar>n\<bar> / 1000000) = Fin r"
    and p: "roundtrip pf n = round_double (of_int (sgn n) * r * 1000000)"
    by blast
  have m: "(1000000::int) dvd n" and z: "(0::int) < 1000000" and l: "\<bar>n\<bar> < 2 ^ 53"
    using a by simp_all
  have nz: "n \<noteq> 0" using a by auto
  have r': "round_double (of_int \<bar>n\<bar> / of_int 1000000) = Fin r" using r by simp
  have "round_double (of_int (sgn n) * r * of_int 1000000) = Fin (of_int n)"
    using m z l nz r' by (rule roundtrip_exact)
  then have "round_double (of_int (sgn n) * r * 1000000) = Fin (of_int n)" by simp
  with p show "roundtrip pf n = Fin (of_int n)" by (simp only:)
qed

theorem parse_format_roundtrip_witness:
  "roundtrip example_platform (- 12) = Fin (of_int (- 12)) \<and>
   roundtrip example_platform 2000 = Fin (of_int 2000) \<and>
   roundtrip example_platform (- 3000000) = Fin (of_int (- 3000000)) \<and>
   (\<exists>r. round_double (of_int \<bar>1100\<bar> / 1000) = Fin r \<and>
        roundtrip example_platform 1100 = round_double (of_int (sgn 1100) * r * 1000)) \<and>
   (\<exists>r. round_double (of_int \<bar>1500000\<bar> / 1000000) = Fin r \<and>
        roundtrip example_platform 1500000 = round_double (of_int (sgn 1500000) * r * 1000000))"
proof -
  have "\<lfloor>rat_of_int (- 12)\<rfloor> = - 12" by (simp only: floor_of_int)
  then have "intl_ru_format example_platform (Fin (of_int (- 12))) = int_toString (- 12)"
    by (simp add: example_platform_def)
  moreover have "\<bar>- 12 :: int\<bar> < 1000" by simp
  ultimately have 1: "roundtrip example_platform (- 12) = Fin (of_int (- 12))"
    using parse_format_roundtrip [of "- 12" example_platform] by blast
  have "1000 \<le> \<bar>2000 :: int\<bar> \<and> \<bar>2000 :: int\<bar> < 1000000 \<and> (1000::int) dvd 2000" by simp
  then have 2: "roundtrip example_platform 2000 = Fin (of_int 2000)"
    using parse_format_roundtrip [of 2000 example_platform] by blast
  have "1000000 \<le> \<bar>- 3000000 :: int\<bar> \<and> \<bar>- 3000000 :: int\<bar> < 2 ^ 53 \<and>
        (1000000::int) dvd - 3000000" by simp
  then have 3: "roundtrip example_platform (- 3000000) = Fin (of_int (- 3000000))"
    using parse_format_roundtrip [of "- 3000000" example_platform] by blast
  have "1000 \<le> \<bar>1100 :: int\<bar> \<and> \<bar>1100 :: int\<bar> < 1000000 \<and> (100::int) dvd 1100" by simp
  then have 4: "\<exists>r. round_double (of_int \<bar>1100\<bar> / 1000) = Fin r \<and>
        roundtrip example_platform 1100 = round_double (of_int (sgn 1100) * r * 1000)"
    using parse_format_roundtrip [of 1100 example_platform] by blast
  have "1000000 \<le> \<bar>1500000 :: int\<bar> \<and> \<bar>1500000 :: int\<bar> < 2 ^ 53 \<and>
        (100000::int) dvd 1500000" by simp
  then have 5: "\<exists>r. round_double (of_int \<bar>1500000\<bar> / 1000000) = Fin r \<and>
        roundtrip example_platform 1500000 = round_double (of_int (sgn 1500000) * r * 1000000)"
    using parse_format_roundtrip [of 1500000 example_platform] by blast
  from 1 2 3 4 5 show ?thesis by blast
qed

section \<open>The search screen: filterPosts\<close>

definition post_haystack :: "platform \<Rightarrow> NormalizedPost \<Rightarrow> jsstring" where
  "post_haystack pf post =
     toLowerCase pf (join (ascii '' '')
       ([n_place post, n_user post, n_address post, n_bio post] @ n_tags post))"

definition post_matches :: "platform \<Rightarrow> jsstring \<Rightarrow> jsstring \<Rightarrow> NormalizedPost \<Rightarrow> bool" where
  "post_matches pf category normalizedQuery post =
     (let matchesCategory =
            (category = ascii ''all'' \<or>
             list_ex (\<lambda>tag. toLowerCase pf tag = category) (n_tags post))
      in if \<not> matchesCategory then False
         else if normalizedQuery = [] then True
         else str_includes (post_haystack pf post) normalizedQuery)"

definition filterPosts ::
  "platform \<Rightarrow> NormalizedPost list \<Rightarrow> jsstring \<Rightarrow> jsstring \<Rightarrow> NormalizedPost list" where
  "filterPosts pf data category query =
     (let normalizedQuery = toLowerCase pf (trim query)
      in filter (post_matches pf category normalizedQuery) data)"

text \<open>
  The two conditions in the words of the specification, with the substring relation spelled
  out. \<open>category_claimed\<close> is the category condition as claim C1 words it: some tag equals
  the category under lowercasing, that is, the two have the same lower case.
\<close>

definition occurs_in :: "jsstring \<Rightarrow> jsstring \<Rightarrow> bool" where
  "occurs_in needle hay \<longleftrightarrow> (\<exists>pre suf. hay = pre @ needle @ suf)"

definition category_claimed :: "platform \<Rightarrow> jsstring \<Rightarrow> NormalizedPost \<Rightarrow> bool" where
  "category_claimed pf category post \<longleftrightarrow>
     category = ascii ''all'' \<or>
     (\<exists>tag \<in> set (n_tags post). toLowerCase pf tag = toLowerCase pf category)"

definition query_ok :: "platform \<Rightarrow> jsstring \<Rightarrow> NormalizedPost \<Rightarrow> bool" where
  "query_ok pf query post \<longleftrightarrow>
     toLowerCase pf (trim query) = [] \<or>
     occurs_in (toLowerCase pf (trim query))
       (toLowerCase pf (join (ascii '' '')
          ([n_place post, n_user post, n_address post, n_bio post] @ n_tags post)))"

text \<open>
  The category condition as amended: the tag is lowercased, the category is taken as it was
  given.
\<close>

definition category_ok :: "platform \<Rightarrow> jsstring \<Rightarrow> NormalizedPost \<Rightarrow> bool" where
  "category_ok pf category post \<longleftrightarrow>
     category = ascii ''all'' \<or> (\<exists>tag \<in> set (n_tags post). toLowerCase pf tag = category)"

definition example_post :: "jsstring \<Rightarrow> jsstring list \<Rightarrow> NormalizedPost" where
  "example_post name ts =
     \<lparr>n_id = ascii ''1'', n_user = ascii ''Anna'', n_userAvatar = [], n_userHandle = [],
      n_place = name, n_address = ascii ''Main St 5'', n_image = [], n_gallery = [],
      n_rating = Fin 4, n_tags = ts, n_bio = ascii ''Cosy place'', n_workingHours = [],
      n_reviews = [], n_contact = [], n_uid = ascii ''1-0'', n_likes = Fin 10,
      n_totalLikes = Fin 20, n_followers = Fin 30\<rparr>"

lemma includes_iff: "str_includes hay needle \<longleftrightarrow> occurs_in needle hay"
  by (simp add: str_includes_iff occurs_in_def)

lemma post_matches_iff:
  "post_matches pf category (toLowerCase pf (trim query)) post \<longleftrightarrow>
     category_ok pf category post \<and> query_ok pf query post"
  by (auto simp: post_matches_def category_ok_def query_ok_def post_haystack_def
      includes_iff list_ex_iff Let_def)

lemma filterPosts_filter:
  "filterPosts pf data category query =
     filter (\<lambda>post. category_ok pf category post \<and> query_ok pf query post) data"
  unfolding filterPosts_def Let_def by (rule filter_cong) (simp_all add: post_matches_iff)

lemma category_ok_lowercase:
  assumes "toLowerCase pf category = category"
  shows "category_ok pf category post \<longleftrightarrow> category_claimed pf category post"
  using assms by (simp add: category_ok_def category_claimed_def)

text \<open>
  Claim C1, as stated, fails: the code lowercases the tag and compares it with the category
  as it was given (\<open>tag.toLowerCase() === category\<close>). With the category 'Cafe' a post
  tagged 'Cafe' has a tag that equals the category under lowercasing, and with the empty
  query the claim keeps it, but filterPosts returns the empty list.
\<close>

theorem filterPosts_category_counterexample:
  "filterPosts example_platform [example_post (ascii ''Cup'') [ascii ''Cafe'']] (ascii ''Cafe'') []
     = [] \<and>
   filter (\<lambda>post. category_claimed example_platform (ascii ''Cafe'') post \<and>
                  query_ok example_platform [] post)
     [example_post (ascii ''Cup'') [ascii ''Cafe'']]
     = [example_post (ascii ''Cup'') [ascii ''Cafe'']]"
  by (simp add: filterPosts_def post_matches_def category_claimed_def query_ok_def
      example_post_def toLowerCase_def tabulated_def lower_unit_def trim_def ascii_def)

text \<open>
  Claim C1, amended. For every array of normalized posts, every category and every query,
  filterPosts returns exactly the posts of the input, in their original order, for which
  the category is the literal 'all' or some tag of the post, lowercased, equals the category
  string as it was given, and for which the query, trimmed and lowercased, is empty or
  occurs in the lowercased join (by single spaces) of place, user, address, bio and all
  tags. For a category that is its own lower case this is the condition of the claim: some
  tag equals the category under lowercasing.
\<close>

theorem filterPosts_spec:
  "filterPosts pf data category query =
     filter (\<lambda>post. category_ok pf category post \<and> query_ok pf query post) data \<and>
   (toLowerCase pf category = category \<longrightarrow>
      filterPosts pf data category query =
        filter (\<lambda>post. category_claimed pf category post \<and> query_ok pf query post) data)"
  by (simp add: filterPosts_filter category_ok_lowercase)

theorem filterPosts_spec_witness:
  "toLowerCase example_platform (ascii ''cafe'') = ascii ''cafe'' \<and>
   filter (\<lambda>post. category_claimed example_platform (ascii ''cafe'') post \<and>
                  query_ok example_platform (ascii ''  MAIN st '') post)
     [example_post (ascii ''Bar One'') [ascii ''Bar''],
      example_post (ascii ''Cup'') [ascii ''Food'', ascii ''Cafe''],
      example_post (ascii ''Mug'') [ascii ''cafe'']]
   = [example_post (ascii ''Cup'') [ascii ''Food'', ascii ''Cafe''],
      example_post (ascii ''Mug'') [ascii ''cafe'']]"
proof -
  have l: "toLowerCase example_platform (ascii ''cafe'') = ascii ''cafe''"
    by (simp add: toLowerCase_def tabulated_def lower_unit_def ascii_def)
  have "filterPosts example_platform
          [example_post (ascii ''Bar One'') [ascii ''Bar''],
           example_post (ascii ''Cup'') [ascii ''Food'', ascii ''Cafe''],
           example_post (ascii ''Mug'') [ascii ''cafe'']] (ascii ''cafe'') (ascii ''  MAIN st '')
        = [example_post (ascii ''Cup'') [ascii ''Food'', ascii ''Cafe''],
           example_post (ascii ''Mug'') [ascii ''cafe'']]"
    by (simp add: filterPosts_def post_matches_def post_haystack_def example_post_def
        toLowerCase_def tabulated_def lower_unit_def trim_def is_ws_def ascii_def)
  with l filterPosts_spec [of example_platform
      "[example_post (ascii ''Bar One'') [ascii ''Bar''],
        example_post (ascii ''Cup'') [ascii ''Food'', ascii ''Cafe''],
        example_post (ascii ''Mug'') [ascii ''cafe'']]" "ascii ''cafe''" "ascii ''  MAIN st ''"]
  show ?thesis by simp
qed

section \<open>The map component (YandexMap): the WebView bridge\<close>

record MapCoordinates =
  latitude :: number
  longitude :: number

text \<open>
  The object \<open>JSON.parse\<close> returns, read through the interface \<open>MapMessage\<close>. The
  field \<open>m_type\<close> is \<open>None\<close> when the value has no string-valued property \<open>type\<close>
  (a number, a string, an array, an object without the property): no \<open>case\<close> label of the
  \<open>switch\<close> is then strictly equal to it.
\<close>

record MapMessage =
  m_type :: "jsstring option"
  m_latitude :: "number option"
  m_longitude :: "number option"
  m_address :: "jsstring option"
  m_error :: "jsstring option"

text \<open>
  What \<open>JSON.parse(event.nativeEvent.data)\<close> does: it throws a SyntaxError, or it returns
  \<open>null\<close> (reading \<open>null.type\<close> then throws a TypeError), or it returns a value whose
  properties can be read.
\<close>

datatype payload = InvalidJSON | JSONNull | Parsed MapMessage

record MapState =
  selectedLocation :: MapCoordinates
  address :: jsstring
  isLoading :: bool
  isMapLoaded :: bool
  showAddModal :: bool
  newPlaceCoords :: "MapCoordinates option"
  newPlaceName :: jsstring
  newPlaceDesc :: jsstring
  userRole :: jsstring
  token :: "jsstring option"

text \<open>
  What a handler does besides updating state, in the order it does it. \<open>Fetch method url
  authorization body\<close> is a call of \<open>fetch\<close> with the Authorization header (if any) and the
  fields of the JSON body.
\<close>

datatype effect =
    Alert jsstring jsstring
  | ConsoleError
  | ConsoleWarn
  | OnLocationSelect MapCoordinates "jsstring option"
  | KeyboardDismiss
  | Fetch jsstring jsstring "jsstring option" "(jsstring \<times> jsstring) list"

definition str_Oshibka :: jsstring where
  "str_Oshibka = [1054, 1096, 1080, 1073, 1082, 1072]"

definition str_Proizoshla_oshibka :: jsstring where
  "str_Proizoshla_oshibka =
     [1055, 1088, 1086, 1080, 1079, 1086, 1096, 1083, 1072, 32,
      1086, 1096, 1080, 1073, 1082, 1072]"

definition str_Tolko_biznes :: jsstring where
  "str_Tolko_biznes =
     [1058, 1086, 1083, 1100, 1082, 1086, 32, 1073, 1080, 1079, 1085, 1077, 1089, 45, 1087,
      1086, 1083, 1100, 1079, 1086, 1074, 1072, 1090, 1077, 1083, 1100, 32, 1084, 1086, 1078,
      1077, 1090, 32, 1076, 1086, 1073, 1072, 1074, 1083, 1103, 1090, 1100, 32, 1084, 1072,
      1088, 1082, 1077, 1088, 1099]"

text \<open>Truthiness of a number: \<open>0\<close> and \<open>NaN\<close> are falsy.\<close>

definition truthy :: "number \<Rightarrow> bool" where
  "truthy n \<longleftrightarrow> n \<noteq> Fin 0 \<and> n \<noteq> NaN"

text \<open>
  The guard \<open>data.latitude && data.longitude\<close> and the object literal built under it:
  \<open>undefined\<close> is falsy too.
\<close>

definition coords_of :: "MapMessage \<Rightarrow> MapCoordinates option" where
  "coords_of data =
     (case m_latitude data of
        None \<Rightarrow> None
      | Some la \<Rightarrow>
          (case m_longitude data of
             None \<Rightarrow> None
           | Some lo \<Rightarrow>
               if truthy la \<and> truthy lo then Some \<lparr>latitude = la, longitude = lo\<rparr> else None))"

text \<open>\<open>v || d\<close> on an optional string (\<open>undefined\<close> and the empty string are falsy).\<close>

definition or_else :: "jsstring option \<Rightarrow> jsstring \<Rightarrow> jsstring" where
  "or_else v d = (case v of None \<Rightarrow> d | Some s \<Rightarrow> if s = [] then d else s)"

text \<open>
  The three branches MAP\_CLICK, SEARCH\_RESULT and ROUTE\_BUILT have the same body. The
  parameter \<open>hasCallback\<close> says whether the optional prop \<open>onLocationSelect\<close> was supplied
  (the call is \<open>onLocationSelect?.(newCoords, data.address)\<close>).
\<close>

definition select_location :: "bool \<Rightarrow> MapState \<Rightarrow> MapMessage \<Rightarrow> MapState \<times> effect list" where
  "select_location hasCallback st data =
     (case coords_of data of
        Some newCoords \<Rightarrow>
          (st\<lparr>selectedLocation := newCoords, address := or_else (m_address data) []\<rparr>,
           if hasCallback then [OnLocationSelect newCoords (m_address data)] else [])
      | None \<Rightarrow> (st, []))"

definition handle_message :: "bool \<Rightarrow> MapState \<Rightarrow> MapMessage \<Rightarrow> MapState \<times> effect list" where
  "handle_message hasCallback st data =
     (if m_type data = Some (ascii ''MAP_LOADED'') then
        (st\<lparr>isLoading := False, isMapLoaded := True\<rparr>, [])
      else if m_type data = Some (ascii ''MAP_CLICK'') then select_location hasCallback st data
      else if m_type data = Some (ascii ''SEARCH_RESULT'') then select_location hasCallback st data
      else if m_type data = Some (ascii ''ROUTE_BUILT'') then select_location hasCallback st data
      else if m_type data = Some (ascii ''MAP_LONG_PRESS'') then
        (case coords_of data of
           Some coords \<Rightarrow>
             if userRole st = ascii ''businessOwner'' then
               (st\<lparr>newPlaceCoords := Some coords, showAddModal := True\<rparr>, [])
             else (st, [Alert str_Oshibka str_Tolko_biznes])
         | None \<Rightarrow> (st, []))
      else if m_type data = Some (ascii ''ERROR'') then
        (st, [Alert str_Oshibka (or_else (m_error data) str_Proizoshla_oshibka)])
      else (st, []))"

text \<open>
  The whole body is inside \<open>try\<close>; the \<open>catch\<close> block only logs. An exception of
  \<open>JSON.parse\<close>, or of reading a property of \<open>null\<close>, therefore ends in the log and
  nothing escapes the handler.
\<close>

definition handleWebViewMessage :: "bool \<Rightarrow> MapState \<Rightarrow> payload \<Rightarrow> MapState \<times> effect list" where
  "handleWebViewMessage hasCallback st p =
     (case p of
        InvalidJSON \<Rightarrow> (st, [ConsoleError])
      | JSONNull \<Rightarrow> (st, [ConsoleError])
      | Parsed data \<Rightarrow> handle_message hasCallback st data)"

definition message_types :: "jsstring list" where
  "message_types =
     [ascii ''MAP_LOADED'', ascii ''MAP_CLICK'', ascii ''SEARCH_RESULT'', ascii ''ROUTE_BUILT'',
      ascii ''MAP_LONG_PRESS'', ascii ''ERROR'']"

definition known_type :: "MapMessage \<Rightarrow> bool" where
  "known_type data = (case m_type data of None \<Rightarrow> False | Some t \<Rightarrow> t \<in> set message_types)"

definition example_state :: MapState where
  "example_state =
     \<lparr>selectedLocation = \<lparr>latitude = Fin (557558 / 10000), longitude = Fin (376173 / 10000)\<rparr>,
      address = ascii ''Old St 1'', isLoading = True, isMapLoaded = False, showAddModal = False,
      newPlaceCoords = None, newPlaceName = [], newPlaceDesc = [], userRole = ascii ''user'',
      token = None\<rparr>"

definition example_message :: "string \<Rightarrow> MapMessage" where
  "example_message t =
     \<lparr>m_type = Some (ascii t), m_latitude = Some (Fin 1), m_longitude = Some (Fin 2),
      m_address = None, m_error = None\<rparr>"

lemma type_literals_distinct:
  "ascii ''MAP_LOADED'' \<noteq> ascii ''MAP_CLICK''" "ascii ''MAP_LOADED'' \<noteq> ascii ''SEARCH_RESULT''"
  "ascii ''MAP_LOADED'' \<noteq> ascii ''ROUTE_BUILT''" "ascii ''MAP_LOADED'' \<noteq> ascii ''MAP_LONG_PRESS''"
  "ascii ''MAP_LOADED'' \<noteq> ascii ''ERROR''" "ascii ''MAP_CLICK'' \<noteq> ascii ''SEARCH_RESULT''"
  "ascii ''MAP_CLICK'' \<noteq> ascii ''ROUTE_BUILT''" "ascii ''MAP_CLICK'' \<noteq> ascii ''MAP_LONG_PRESS''"
  "ascii ''MAP_CLICK'' \<noteq> ascii ''ERROR''" "ascii ''SEARCH_RESULT'' \<noteq> ascii ''ROUTE_BUILT''"
  "ascii ''SEARCH_RESULT'' \<noteq> ascii ''MAP_LONG_PRESS''" "ascii ''SEARCH_RESULT'' \<noteq> ascii ''ERROR''"
  "ascii ''ROUTE_BUILT'' \<noteq> ascii ''MAP_LONG_PRESS''" "ascii ''ROUTE_BUILT'' \<noteq> ascii ''ERROR''"
  "ascii ''MAP_LONG_PRESS'' \<noteq> ascii ''ERROR''"
  by (simp_all add: ascii_def)

lemma handle_message_unknown:
  assumes "\<not> known_type data"
  shows "handle_message cb st data = (st, [])"
  using assms
  by (cases "m_type data") (auto simp: known_type_def message_types_def handle_message_def)

definition location_type :: "MapMessage \<Rightarrow> bool" where
  "location_type data \<longleftrightarrow>
     m_type data = Some (ascii ''MAP_CLICK'') \<or> m_type data = Some (ascii ''SEARCH_RESULT'') \<or>
     m_type data = Some (ascii ''ROUTE_BUILT'')"

text \<open>
  A message carries the coordinates \<open>la\<close> and \<open>lo\<close> when both fields are present and
  neither is zero or NaN; it carries none when one of them is absent, zero or NaN.
\<close>

definition carries :: "MapMessage \<Rightarrow> number \<Rightarrow> number \<Rightarrow> bool" where
  "carries data la lo \<longleftrightarrow>
     m_latitude data = Some la \<and> m_longitude data = Some lo \<and>
     la \<noteq> Fin 0 \<and> la \<noteq> NaN \<and> lo \<noteq> Fin 0 \<and> lo \<noteq> NaN"

definition no_coordinates :: "MapMessage \<Rightarrow> bool" where
  "no_coordinates data \<longleftrightarrow>
     m_latitude data = None \<or> m_latitude data = Some (Fin 0) \<or> m_latitude data = Some NaN \<or>
     m_longitude data = None \<or> m_longitude data = Some (Fin 0) \<or> m_longitude data = Some NaN"

lemma coords_of_carries:
  "carries data la lo \<Longrightarrow> coords_of data = Some \<lparr>latitude = la, longitude = lo\<rparr>"
  by (simp add: carries_def coords_of_def truthy_def)

lemma coords_of_none: "no_coordinates data \<Longrightarrow> coords_of data = None"
  by (auto simp: no_coordinates_def coords_of_def truthy_def split: option.splits)

lemma handle_message_loaded:
  assumes "m_type data = Some (ascii ''MAP_LOADED'')"
  shows "handle_message cb st data = (st\<lparr>isLoading := False, isMapLoaded := True\<rparr>, [])"
  using assms by (simp add: handle_message_def)

lemma handle_message_location:
  assumes "location_type data"
  shows "handle_message cb st data = select_location cb st data"
  using assms by (auto simp: location_type_def handle_message_def ascii_def)

lemma handle_message_long_press:
  assumes "m_type data = Some (ascii ''MAP_LONG_PRESS'')"
  shows "handle_message cb st data =
           (case coords_of data of
              Some coords \<Rightarrow>
                if userRole st = ascii ''businessOwner''
                then (st\<lparr>newPlaceCoords := Some coords, showAddModal := True\<rparr>, [])
                else (st, [Alert str_Oshibka str_Tolko_biznes])
            | None \<Rightarrow> (st, []))"
  using assms type_literals_distinct by (simp add: handle_message_def)

lemma handle_message_error:
  assumes "m_type data = Some (ascii ''ERROR'')"
  shows "handle_message cb st data =
           (st, [Alert str_Oshibka (or_else (m_error data) str_Proizoshla_oshibka)])"
  using assms type_literals_distinct by (simp add: handle_message_def)

text \<open>
  Claim C4. handleWebViewMessage acts on exactly the six message types MAP\_LOADED,
  MAP\_CLICK, SEARCH\_RESULT, ROUTE\_BUILT, MAP\_LONG\_PRESS and ERROR. What it does on each:
  MAP\_LOADED clears isLoading and sets isMapLoaded; MAP\_CLICK, SEARCH\_RESULT and
  ROUTE\_BUILT with coordinates set selectedLocation and address and call onLocationSelect
  (when supplied), and without coordinates do nothing; MAP\_LONG\_PRESS with coordinates
  records them and opens the add-place modal for a business owner and shows an alert
  otherwise, and without coordinates does nothing; ERROR shows an alert with the message's
  error text, or the default text when it has none. For every payload that is not valid
  JSON, or that is the JSON value null, or whose type is none of the six, the handler leaves
  the whole component state unchanged and nothing escapes it, its only effect being the log
  entry of the catch block when parsing or reading the type failed.
\<close>

theorem handleWebViewMessage_six_types:
  "(m_type data = Some (ascii ''MAP_LOADED'') \<longrightarrow>
      handleWebViewMessage cb st (Parsed data) =
        (st\<lparr>isLoading := False, isMapLoaded := True\<rparr>, [])) \<and>
   (location_type data \<and> carries data la lo \<longrightarrow>
      handleWebViewMessage cb st (Parsed data) =
        (st\<lparr>selectedLocation := \<lparr>latitude = la, longitude = lo\<rparr>,
            address := (case m_address data of None \<Rightarrow> [] | Some a \<Rightarrow> a)\<rparr>,
         if cb then [OnLocationSelect \<lparr>latitude = la, longitude = lo\<rparr> (m_address data)]
         else [])) \<and>
   (location_type data \<and> no_coordinates data \<longrightarrow>
      handleWebViewMessage cb st (Parsed data) = (st, [])) \<and>
   (m_type data = Some (ascii ''MAP_LONG_PRESS'') \<and> carries data la lo \<longrightarrow>
      handleWebViewMessage cb st (Parsed data) =
        (if userRole st = ascii ''businessOwner''
         then (st\<lparr>newPlaceCoords := Some \<lparr>latitude = la, longitude = lo\<rparr>,
                   showAddModal := True\<rparr>, [])
         else (st, [Alert str_Oshibka str_Tolko_biznes]))) \<and>
   (m_type data = Some (ascii ''MAP_LONG_PRESS'') \<and> no_coordinates data \<longrightarrow>
      handleWebViewMessage cb st (Parsed data) = (st, [])) \<and>
   (m_type data = Some (ascii ''ERROR'') \<longrightarrow>
      handleWebViewMessage cb st (Parsed data) =
        (st, [Alert str_Oshibka
                (case m_error data of
                   None \<Rightarrow> str_Proizoshla_oshibka
                 | Some e \<Rightarrow> if e = [] then str_Proizoshla_oshibka else e)])) \<and>
   handleWebViewMessage cb st InvalidJSON = (st, [ConsoleError]) \<and>
   handleWebViewMessage cb st JSONNull = (st, [ConsoleError]) \<and>
   (\<not> known_type data \<longrightarrow> handleWebViewMessage cb st (Parsed data) = (st, []))"
proof -
  have adr: "or_else (m_address data) [] = (case m_address data of None \<Rightarrow> [] | Some a \<Rightarrow> a)"
    by (simp add: or_else_def split: option.splits)
  have 1: "m_type data = Some (ascii ''MAP_LOADED'') \<longrightarrow>
      handleWebViewMessage cb st (Parsed data) =
        (st\<lparr>isLoading := False, isMapLoaded := True\<rparr>, [])"
    by (simp add: handleWebViewMessage_def handle_message_loaded)
  have 2: "location_type data \<and> carries data la lo \<longrightarrow>
      handleWebViewMessage cb st (Parsed data) =
        (st\<lparr>selectedLocation := \<lparr>latitude = la, longitude = lo\<rparr>,
            address := (case m_address data of None \<Rightarrow> [] | Some a \<Rightarrow> a)\<rparr>,
         if cb then [OnLocationSelect \<lparr>latitude = la, longitude = lo\<rparr> (m_address data)]
         else [])"
    by (auto simp: handleWebViewMessage_def handle_message_location select_location_def
        coords_of_carries adr)
  have 3: "location_type data \<and> no_coordinates data \<longrightarrow>
      handleWebViewMessage cb st (Parsed data) = (st, [])"
    by (auto simp: handleWebViewMessage_def handle_message_location select_location_def
        coords_of_none)
  have 4: "m_type data = Some (ascii ''MAP_LONG_PRESS'') \<and> carries data la lo \<longrightarrow>
      handleWebViewMessage cb st (Parsed data) =
        (if userRole st = ascii ''businessOwner''
         then (st\<lparr>newPlaceCoords := Some \<lparr>latitude = la, longitude = lo\<rparr>,
                   showAddModal := True\<rparr>, [])
         else (st, [Alert str_Oshibka str_Tolko_biznes]))"
    by (auto simp: handleWebViewMessage_def handle_message_long_press coords_of_carries)
  have 5: "m_type data = Some (ascii ''MAP_LONG_PRESS'') \<and> no_coordinates data \<longrightarrow>
      handleWebViewMessage cb st (Parsed data) = (st, [])"
    by (auto simp: handleWebViewMessage_def handle_message_long_press coords_of_none)
  have 6: "m_type data = Some (ascii ''ERROR'') \<longrightarrow>
      handleWebViewMessage cb st (Parsed data) =
        (st, [Alert str_Oshibka
                (case m_error data of
                   None \<Rightarrow> str_Proizoshla_oshibka
                 | Some e \<Rightarrow> if e = [] then str_Proizoshla_oshibka else e)])"
    by (simp add: handleWebViewMessage_def handle_message_error or_else_def)
  have 7: "handleWebViewMessage cb st InvalidJSON = (st, [ConsoleError])"
    and 8: "handleWebViewMessage cb st JSONNull = (st, [ConsoleError])"
    by (simp_all add: handleWebViewMessage_def)
  have 9: "\<not> known_type data \<longrightarrow> handleWebViewMessage cb st (Parsed data) = (st, [])"
    by (simp add: handleWebViewMessage_def handle_message_unknown)
  from 1 2 3 4 5 6 7 8 9 show ?thesis by (intro conjI)
qed

theorem handleWebViewMessage_six_types_witness:
  "handleWebViewMessage True example_state (Parsed (example_message ''MAP_LOADED'')) =
     (example_state\<lparr>isLoading := False, isMapLoaded := True\<rparr>, []) \<and>
   handleWebViewMessage True example_state (Parsed (example_message ''SEARCH_RESULT'')) =
     (example_state\<lparr>selectedLocation := \<lparr>latitude = Fin 1, longitude = Fin 2\<rparr>, address := []\<rparr>,
      [OnLocationSelect \<lparr>latitude = Fin 1, longitude = Fin 2\<rparr> None]) \<and>
   handleWebViewMessage True example_state
     (Parsed ((example_message ''MAP_LONG_PRESS'')\<lparr>m_latitude := None\<rparr>)) = (example_state, []) \<and>
   handleWebViewMessage True example_state
     (Parsed ((example_message ''ERROR'')\<lparr>m_error := Some (ascii ''no map'')\<rparr>)) =
     (example_state, [Alert str_Oshibka (ascii ''no map'')]) \<and>
   \<not> known_type (example_message ''PING'') \<and>
   handleWebViewMessage True example_state (Parsed (example_message ''PING'')) = (example_state, [])"
  using handleWebViewMessage_six_types [where data = "example_message ''MAP_LOADED''"
      and cb = True and st = example_state and la = "Fin 1" and lo = "Fin 2"]
    handleWebViewMessage_six_types [where data = "example_message ''SEARCH_RESULT''"
      and cb = True and st = example_state and la = "Fin 1" and lo = "Fin 2"]
    handleWebViewMessage_six_types [where data = "(example_message ''MAP_LONG_PRESS'')\<lparr>m_latitude := None\<rparr>"
      and cb = True and st = example_state and la = "Fin 1" and lo = "Fin 2"]
    handleWebViewMessage_six_types [where data = "(example_message ''ERROR'')\<lparr>m_error := Some (ascii ''no map'')\<rparr>"
      and cb = True and st = example_state and la = "Fin 1" and lo = "Fin 2"]
    handleWebViewMessage_six_types [where data = "example_message ''PING''"
      and cb = True and st = example_state and la = "Fin 1" and lo = "Fin 2"]
  by (simp add: known_type_def message_types_def example_message_def location_type_def
      carries_def no_coordinates_def ascii_def)

lemma handle_message_modal_frame:
  assumes "userRole st \<noteq> ascii ''businessOwner''"
  shows "showAddModal (fst (handle_message cb st data)) = showAddModal st \<and>
         newPlaceCoords (fst (handle_message cb st data)) = newPlaceCoords st"
  using assms
  by (auto simp: handle_message_def select_location_def split: option.splits)

text \<open>
  Claim C8. For every MAP\_LONG\_PRESS message whose latitude and longitude are present and
  nonzero, the handler records the pressed coordinates and opens the add-place modal if the
  loaded user role is exactly 'businessOwner', and for every other role it only shows the
  error alert and leaves the component state unchanged; whatever the payload, the modal flag
  and the recorded coordinates do not change unless the role is 'businessOwner'.
\<close>

theorem long_press_requires_business_owner:
  assumes "m_type data = Some (ascii ''MAP_LONG_PRESS'')"
    and "m_latitude data = Some la" and "m_longitude data = Some lo"
    and "la \<noteq> Fin 0" and "lo \<noteq> Fin 0" and "la \<noteq> NaN" and "lo \<noteq> NaN"
  shows "handleWebViewMessage cb st (Parsed data) =
           (if userRole st = ascii ''businessOwner''
            then (st\<lparr>newPlaceCoords := Some \<lparr>latitude = la, longitude = lo\<rparr>,
                      showAddModal := True\<rparr>, [])
            else (st, [Alert str_Oshibka str_Tolko_biznes])) \<and>
         (userRole st \<noteq> ascii ''businessOwner'' \<longrightarrow>
            showAddModal (fst (handleWebViewMessage cb st p)) = showAddModal st \<and>
            newPlaceCoords (fst (handleWebViewMessage cb st p)) = newPlaceCoords st)"
proof
  show "handleWebViewMessage cb st (Parsed data) =
           (if userRole st = ascii ''businessOwner''
            then (st\<lparr>newPlaceCoords := Some \<lparr>latitude = la, longitude = lo\<rparr>,
                      showAddModal := True\<rparr>, [])
            else (st, [Alert str_Oshibka str_Tolko_biznes]))"
    using assms type_literals_distinct
    by (simp add: handleWebViewMessage_def handle_message_def coords_of_def truthy_def)
next
  show "userRole st \<noteq> ascii ''businessOwner'' \<longrightarrow>
            showAddModal (fst (handleWebViewMessage cb st p)) = showAddModal st \<and>
            newPlaceCoords (fst (handleWebViewMessage cb st p)) = newPlaceCoords st"
    using handle_message_modal_frame [of st cb]
    by (cases p) (simp_all add: handleWebViewMessage_def)
qed

theorem long_press_requires_business_owner_witness:
  "handleWebViewMessage True (example_state\<lparr>userRole := ascii ''businessOwner''\<rparr>)
       (Parsed (example_message ''MAP_LONG_PRESS'')) =
     (example_state\<lparr>userRole := ascii ''businessOwner'',
          newPlaceCoords := Some \<lparr>latitude = Fin 1, longitude = Fin 2\<rparr>, showAddModal := True\<rparr>, []) \<and>
   handleWebViewMessage True example_state (Parsed (example_message ''MAP_LONG_PRESS'')) =
     (example_state, [Alert str_Oshibka str_Tolko_biznes]) \<and>
   showAddModal (fst (handleWebViewMessage True example_state
       (Parsed (example_message ''MAP_LONG_PRESS'')))) = False"
  using long_press_requires_business_owner [of "example_message ''MAP_LONG_PRESS''" "Fin 1" "Fin 2"
      True "example_state\<lparr>userRole := ascii ''businessOwner''\<rparr>" InvalidJSON]
    long_press_requires_business_owner [of "example_message ''MAP_LONG_PRESS''" "Fin 1" "Fin 2"
      True example_state "Parsed (example_message ''MAP_LONG_PRESS'')"]
  by (simp add: example_message_def example_state_def ascii_def)

text \<open>
  The reading of claim C9 in which the callback receives the values the state was set to.
\<close>

definition callback_gets_state_values :: "MapState \<times> effect list \<Rightarrow> bool" where
  "callback_gets_state_values r \<longleftrightarrow>
     snd r = [OnLocationSelect (selectedLocation (fst r)) (Some (address (fst r)))]"

lemma handle_message_location_frame:
  assumes "\<not> (location_type data \<and> coords_of data \<noteq> None)"
  shows "selectedLocation (fst (handle_message cb st data)) = selectedLocation st \<and>
         address (fst (handle_message cb st data)) = address st"
  using assms
  by (auto simp: handle_message_def select_location_def location_type_def split: option.splits)

text \<open>
  Claim C9, as stated, fails: on a MAP\_CLICK message that carries coordinates and no
  address, the state's address becomes the empty string while onLocationSelect receives the
  absent address (\<open>undefined\<close>), not the same value.
\<close>

theorem location_callback_counterexample:
  "\<not> callback_gets_state_values
       (handleWebViewMessage True example_state (Parsed (example_message ''MAP_CLICK'')))"
  by (simp add: callback_gets_state_values_def handleWebViewMessage_def handle_message_def
      select_location_def coords_of_def truthy_def or_else_def example_message_def ascii_def)

text \<open>
  Claim C9, amended. Within handleWebViewMessage, selectedLocation and address change only
  on a MAP\_CLICK, SEARCH\_RESULT or ROUTE\_BUILT message whose latitude and longitude are both
  present and nonzero; in that case selectedLocation is set to exactly the message's
  coordinates and address to the message's address (the empty string when the message
  carries none), and onLocationSelect, when the prop was supplied, is called once with
  those coordinates and with the message's address field as it came (absent when the
  message carries none); a message of one of these types whose latitude or longitude equals
  0 changes nothing.
\<close>

theorem location_update_frame:
  "(location_type data \<and> m_latitude data = Some la \<and> m_longitude data = Some lo \<and>
      la \<noteq> Fin 0 \<and> lo \<noteq> Fin 0 \<and> la \<noteq> NaN \<and> lo \<noteq> NaN \<longrightarrow>
      handleWebViewMessage cb st (Parsed data) =
        (st\<lparr>selectedLocation := \<lparr>latitude = la, longitude = lo\<rparr>,
            address := (case m_address data of None \<Rightarrow> [] | Some a \<Rightarrow> a)\<rparr>,
         if cb then [OnLocationSelect \<lparr>latitude = la, longitude = lo\<rparr> (m_address data)] else [])) \<and>
   (location_type data \<and> (m_latitude data = Some (Fin 0) \<or> m_longitude data = Some (Fin 0)) \<longrightarrow>
      handleWebViewMessage cb st (Parsed data) = (st, [])) \<and>
   (selectedLocation (fst (handleWebViewMessage cb st p)) \<noteq> selectedLocation st \<or>
    address (fst (handleWebViewMessage cb st p)) \<noteq> address st \<longrightarrow>
      (\<exists>d c. p = Parsed d \<and> location_type d \<and> coords_of d = Some c))"
proof (intro conjI impI)
  assume a: "location_type data \<and> m_latitude data = Some la \<and> m_longitude data = Some lo \<and>
      la \<noteq> Fin 0 \<and> lo \<noteq> Fin 0 \<and> la \<noteq> NaN \<and> lo \<noteq> NaN"
  then have "coords_of data = Some \<lparr>latitude = la, longitude = lo\<rparr>"
    by (simp add: coords_of_def truthy_def)
  moreover have "or_else (m_address data) [] = (case m_address data of None \<Rightarrow> [] | Some a \<Rightarrow> a)"
    by (simp add: or_else_def split: option.splits)
  ultimately show "handleWebViewMessage cb st (Parsed data) =
        (st\<lparr>selectedLocation := \<lparr>latitude = la, longitude = lo\<rparr>,
            address := (case m_address data of None \<Rightarrow> [] | Some a \<Rightarrow> a)\<rparr>,
         if cb then [OnLocationSelect \<lparr>latitude = la, longitude = lo\<rparr> (m_address data)] else [])"
    using a by (simp add: handleWebViewMessage_def handle_message_location select_location_def)
next
  assume a: "location_type data \<and> (m_latitude data = Some (Fin 0) \<or> m_longitude data = Some (Fin 0))"
  then have "coords_of data = None"
    by (auto simp: coords_of_def truthy_def split: option.splits)
  then show "handleWebViewMessage cb st (Parsed data) = (st, [])"
    using a by (simp add: handleWebViewMessage_def handle_message_location select_location_def)
next
  assume a: "selectedLocation (fst (handleWebViewMessage cb st p)) \<noteq> selectedLocation st \<or>
    address (fst (handleWebViewMessage cb st p)) \<noteq> address st"
  show "\<exists>d c. p = Parsed d \<and> location_type d \<and> coords_of d = Some c"
  proof (cases p)
    case InvalidJSON
    with a show ?thesis by (simp add: handleWebViewMessage_def)
  next
    case JSONNull
    with a show ?thesis by (simp add: handleWebViewMessage_def)
  next
    case (Parsed d)
    have "location_type d \<and> coords_of d \<noteq> None"
    proof (rule ccontr)
      assume "\<not> (location_type d \<and> coords_of d \<noteq> None)"
      from handle_message_location_frame [OF this, of cb st] a Parsed
      show False by (simp add: handleWebViewMessage_def)
    qed
    with Parsed show ?thesis by auto
  qed
qed

theorem location_update_frame_witness:
  "handleWebViewMessage True example_state (Parsed (example_message ''MAP_CLICK'')) =
     (example_state\<lparr>selectedLocation := \<lparr>latitude = Fin 1, longitude = Fin 2\<rparr>, address := []\<rparr>,
      [OnLocationSelect \<lparr>latitude = Fin 1, longitude = Fin 2\<rparr> None]) \<and>
   handleWebViewMessage True example_state
     (Parsed ((example_message ''ROUTE_BUILT'')\<lparr>m_longitude := Some (Fin 0)\<rparr>)) = (example_state, [])"
  using location_update_frame [of "example_message ''MAP_CLICK''" "Fin 1" "Fin 2" True
      example_state InvalidJSON]
    location_update_frame [of "(example_message ''ROUTE_BUILT'')\<lparr>m_longitude := Some (Fin 0)\<rparr>"
      "Fin 1" "Fin 0" True example_state InvalidJSON]
  by (simp add: example_message_def location_type_def)

section \<open>The authentication screen (frontend/app/login.tsx) and the stored token\<close>

datatype auth_mode = LoginMode | RegisterMode

datatype account_type = UserAccount | CompanyAccount

record AuthForm =
  mode :: auth_mode
  email :: jsstring
  password :: jsstring
  name :: jsstring
  companyName :: jsstring
  companyINN :: jsstring
  accountType :: account_type

record Following =
  fo_id :: jsstring
  fo_name :: jsstring
  fo_handle :: jsstring
  fo_avatar :: jsstring
  fo_description :: jsstring

record UserSession =
  us_id :: jsstring
  us_name :: jsstring
  us_email :: "jsstring option"
  us_handle :: jsstring
  us_avatar :: jsstring
  us_accountType :: account_type
  us_favorites :: "jsstring list"
  us_liked :: "jsstring list"
  us_following :: "Following list"

text \<open>
  The JSON body of a reply is untyped in the code (\<open>await res.json()\<close>). It is modelled
  with the properties the screen reads, each of which may be absent (\<open>undefined\<close>):
  \<open>error\<close>, \<open>token\<close> and \<open>user\<close>, and of the user \<open>id\<close> (a number), \<open>username\<close>,
  \<open>email\<close> and \<open>role\<close>. The session's \<open>email\<close> is copied from the reply and is absent
  when the reply has none.
\<close>

record SessionUser =
  su_id :: "number option"
  su_username :: "jsstring option"
  su_email :: "jsstring option"
  su_role :: "jsstring option"

record reply_body =
  rb_error :: "jsstring option"
  rb_token :: "jsstring option"
  rb_user :: "SessionUser option"

text \<open>
  The outcome of \<open>fetch\<close> followed by \<open>res.json()\<close>: one of the two promises rejects
  (\<open>Rejected\<close>: no connection, or a body that is not JSON), or the reply has its \<open>res.ok\<close>
  flag and a JSON body, which is \<open>null\<close> (\<open>None\<close>: reading a property of it throws a
  TypeError) or a value whose properties can be read.
\<close>

datatype auth_response = Rejected | Reply bool "reply_body option"

text \<open>
  The state outside the components. \<open>localStorage\<close> is the global of that name: in a
  browser (the web build of the application) it is the Web Storage object
  \<open>window.localStorage\<close>; in React Native on a device no such global is defined
  (\<open>None\<close>), and evaluating \<open>localStorage.setItem\<close> throws a ReferenceError.
  \<open>AsyncStorage\<close> is the module of the library @react-native-async-storage/async-storage:
  in a browser its \<open>getItem\<close> is \<open>window.localStorage.getItem\<close>, on a device it reads the
  library's own store, \<open>deviceStorage\<close>. The other two components are the session slot of
  \<open>@/lib/user-session\<close> and the current route.
\<close>

record AppState =
  localStorage :: "(jsstring \<rightharpoonup> jsstring) option"
  deviceStorage :: "jsstring \<rightharpoonup> jsstring"
  userSession :: "UserSession option"
  route :: jsstring

definition asyncStorage_getItem :: "AppState \<Rightarrow> jsstring \<Rightarrow> jsstring option" where
  "asyncStorage_getItem app key =
     (case localStorage app of Some web \<Rightarrow> web key | None \<Rightarrow> deviceStorage app key)"

text \<open>
  Modelled from the spec: \<open>setUserSession\<close> of \<open>@/lib/user-session\<close> is not among the
  sources; the specification describes it as session state held in memory, so it is the
  assignment of the session slot.
\<close>

definition setUserSession :: "UserSession \<Rightarrow> AppState \<Rightarrow> AppState" where
  "setUserSession session app = app\<lparr>userSession := Some session\<rparr>"

definition str_fill_all_fields :: jsstring where
  "str_fill_all_fields =
     [1055, 1086, 1078, 1072, 1083, 1091, 1081, 1089, 1090, 1072, 44, 32, 1079, 1072, 1087,
      1086, 1083, 1085, 1080, 1090, 1077, 32, 1074, 1089, 1077, 32, 1087, 1086, 1083, 1103, 46]"

definition str_register_error :: jsstring where
  "str_register_error =
     [1054, 1096, 1080, 1073, 1082, 1072, 32, 1088, 1077, 1075, 1080, 1089, 1090, 1088, 1072,
      1094, 1080, 1080]"

definition str_register_failed :: jsstring where
  "str_register_failed =
     [1056, 1077, 1075, 1080, 1089, 1090, 1088, 1072, 1094, 1080, 1103, 32, 1085, 1077, 32,
      1091, 1076, 1072, 1083, 1072, 1089, 1100]"

definition str_network_error :: jsstring where
  "str_network_error = [1054, 1096, 1080, 1073, 1082, 1072, 32, 1089, 1077, 1090, 1080]"

definition str_cannot_connect :: jsstring where
  "str_cannot_connect =
     [1053, 1077, 32, 1091, 1076, 1072, 1083, 1086, 1089, 1100, 32, 1087, 1086, 1076, 1082,
      1083, 1102, 1095, 1080, 1090, 1100, 1089, 1103, 32, 1082, 32, 1089, 1077, 1088, 1074,
      1077, 1088, 1091, 46]"

definition str_login_error :: jsstring where
  "str_login_error = [1054, 1096, 1080, 1073, 1082, 1072, 32, 1074, 1093, 1086, 1076, 1072]"

definition str_login_failed :: jsstring where
  "str_login_failed =
     [1042, 1093, 1086, 1076, 32, 1085, 1077, 32, 1091, 1076, 1072, 1083, 1089, 1103]"

definition canSubmit :: "AuthForm \<Rightarrow> bool" where
  "canSubmit form \<longleftrightarrow>
     length (trim (email form)) > 0 \<and> length (trim (password form)) > 0 \<and>
     (mode form \<noteq> RegisterMode \<or>
      (if accountType form = CompanyAccount then length (trim (companyName form)) > 0
       else length (trim (name form)) > 0))"

text \<open>
  The session object built from the reply's user. \<open>encodeURIComponent\<close> turns
  \<open>undefined\<close> into the text 'undefined'; \<open>username.split('@')[0]\<close> is the part before
  the first '@'. Reading \<open>id.toString\<close> of an absent id, or \<open>username.includes\<close> of an
  absent username, throws a TypeError, and \<open>encodeURIComponent\<close> may throw: the result
  is then \<open>None\<close>.
\<close>

definition build_session :: "platform \<Rightarrow> SessionUser \<Rightarrow> account_type \<Rightarrow> UserSession option" where
  "build_session pf sessionUser acct =
     (case su_id sessionUser of
        None \<Rightarrow> None
      | Some i \<Rightarrow>
          (case su_username sessionUser of
             None \<Rightarrow> None
           | Some username \<Rightarrow>
               (case encodeURIComponent pf
                       (case su_email sessionUser of None \<Rightarrow> ascii ''undefined'' | Some e \<Rightarrow> e) of
                  None \<Rightarrow> None
                | Some encoded \<Rightarrow>
                    Some \<lparr>us_id = number_text pf i,
                          us_name = username,
                          us_email = su_email sessionUser,
                          us_handle = (if str_includes username (ascii ''@'')
                                       then takeWhile (\<lambda>c. c \<noteq> 64) username
                                       else username),
                          us_avatar = ascii ''https://i.pravatar.cc/200?u='' @ encoded,
                          us_accountType = acct,
                          us_favorites = [], us_liked = [], us_following = []\<rparr>)))"

text \<open>
  The body of \<open>try\<close> after the request, which the two branches of handleSubmit share up to
  the alert texts and the account type, and the \<open>catch\<close> block. Whatever throws inside
  \<open>try\<close> (a rejected promise, a property of \<open>null\<close> or of an absent user, the session
  object, \<open>localStorage\<close> on a runtime that has none) ends in the \<open>catch\<close> block, which
  shows the network alert; nothing has been stored at any of these points.
  \<open>localStorage.setItem\<close> stores the text of its argument, 'undefined' for an absent
  token.
\<close>

definition after_request ::
  "platform \<Rightarrow> jsstring \<Rightarrow> jsstring \<Rightarrow> (SessionUser \<Rightarrow> account_type) \<Rightarrow>
   effect \<Rightarrow> auth_response \<Rightarrow> AppState \<Rightarrow> AppState \<times> effect list" where
  "after_request pf title fallback acct request resp app =
     (let caught = (app, [KeyboardDismiss, request, Alert str_network_error str_cannot_connect])
      in case resp of
           Rejected \<Rightarrow> caught
         | Reply ok None \<Rightarrow> caught
         | Reply ok (Some data) \<Rightarrow>
             if \<not> ok then
               (app, [KeyboardDismiss, request, Alert title (or_else (rb_error data) fallback)])
             else
               (case rb_user data of
                  None \<Rightarrow> caught
                | Some sessionUser \<Rightarrow>
                    (case build_session pf sessionUser (acct sessionUser) of
                       None \<Rightarrow> caught
                     | Some session \<Rightarrow>
                         (case localStorage app of
                            None \<Rightarrow> caught
                          | Some web \<Rightarrow>
                              (let tok = (case rb_token data of
                                            None \<Rightarrow> ascii ''undefined'' | Some t \<Rightarrow> t);
                                   app1 = app\<lparr>localStorage := Some (web(ascii ''token'' \<mapsto> tok))\<rparr>;
                                   app2 = setUserSession session app1
                               in (app2\<lparr>route := ascii ''/profile''\<rparr>,
                                   [KeyboardDismiss, request]))))))"

definition handleSubmit ::
  "platform \<Rightarrow> AuthForm \<Rightarrow> auth_response \<Rightarrow> AppState \<Rightarrow> AppState \<times> effect list" where
  "handleSubmit pf form resp app =
     (if \<not> canSubmit form then (app, [Alert str_Oshibka str_fill_all_fields])
      else if mode form = RegisterMode then
        (let isCompany = (accountType form = CompanyAccount);
             role = (if isCompany then ascii ''businessOwner'' else ascii ''user'');
             loginValue = trim (email form);
             request = Fetch (ascii ''POST'') (ascii ''http://localhost:8443/auth/register'') None
                         [(ascii ''login'', loginValue), (ascii ''passwd'', trim (password form)),
                          (ascii ''role'', role), (ascii ''email'', trim (email form))]
         in after_request pf str_register_error str_register_failed
              (\<lambda>sessionUser. if isCompany then CompanyAccount else UserAccount)
              request resp app)
      else
        (let request = Fetch (ascii ''POST'') (ascii ''http://localhost:8443/auth/login'') None
                         [(ascii ''login'', trim (email form)),
                          (ascii ''passwd'', trim (password form))]
         in after_request pf str_login_error str_login_failed
              (\<lambda>sessionUser. if su_role sessionUser = Some (ascii ''businessOwner'')
                              then CompanyAccount else UserAccount)
              request resp app))"

text \<open>
  The first effect of the map component on mount: it reads the token with
  \<open>AsyncStorage.getItem('token')\<close> and, if there is a non-empty one, keeps it and asks the
  server for the role. \<open>me\<close> is the outcome of the GET request: it rejects (\<open>None\<close>), or
  it resolves with \<open>res.ok\<close> and the role of the reply.
\<close>

definition load_token_and_role ::
  "AppState \<Rightarrow> (bool \<times> jsstring) option \<Rightarrow> MapState \<Rightarrow> MapState \<times> effect list" where
  "load_token_and_role app me st =
     (case asyncStorage_getItem app (ascii ''token'') of
        None \<Rightarrow> (st, [])
      | Some t \<Rightarrow>
          if t = [] then (st, [])
          else
            (let st1 = st\<lparr>token := Some t\<rparr>;
                 request = Fetch (ascii ''GET'') (ascii ''http://192.168.1.101:8443/me'')
                             (Some (ascii ''Bearer '' @ t)) []
             in case me of
                  None \<Rightarrow> (st1, [request, ConsoleWarn])
                | Some (ok, role) \<Rightarrow>
                    if ok then (st1\<lparr>userRole := role\<rparr>, [request]) else (st1, [request])))"

definition is_alert :: "effect \<Rightarrow> bool" where
  "is_alert e = (case e of Alert t m \<Rightarrow> True | _ \<Rightarrow> False)"

definition example_form :: AuthForm where
  "example_form =
     \<lparr>mode = LoginMode, email = ascii '' anna@example.org'', password = ascii ''secret'',
      name = [], companyName = [], companyINN = [], accountType = UserAccount\<rparr>"

definition example_user :: SessionUser where
  "example_user =
     \<lparr>su_id = Some (Fin 7), su_username = Some (ascii ''anna@example.org''),
      su_email = Some (ascii ''anna@example.org''), su_role = Some (ascii ''businessOwner'')\<rparr>"

definition example_reply :: "jsstring \<Rightarrow> reply_body" where
  "example_reply tok = \<lparr>rb_error = None, rb_token = Some tok, rb_user = Some example_user\<rparr>"

text \<open>The application before the login, in a browser and on a device.\<close>

definition web_app :: AppState where
  "web_app = \<lparr>localStorage = Some Map.empty, deviceStorage = Map.empty, userSession = None,
              route = ascii ''/login''\<rparr>"


text \<open>The account type of the session: the form's on registration, the reply's role on login.\<close>

definition session_account :: "AuthForm \<Rightarrow> SessionUser \<Rightarrow> account_type" where
  "session_account form u =
     (if mode form = RegisterMode then accountType form
      else if su_role u = Some (ascii ''businessOwner'') then CompanyAccount else UserAccount)"

text \<open>The alert of a reply that is not ok: its title and its default text.\<close>

definition failure_title :: "AuthForm \<Rightarrow> jsstring" where
  "failure_title form = (if mode form = RegisterMode then str_register_error else str_login_error)"

definition failure_default :: "AuthForm \<Rightarrow> jsstring" where
  "failure_default form =
     (if mode form = RegisterMode then str_register_failed else str_login_failed)"


lemma handle_of_username:
  "(if str_includes nm (ascii ''@'') then takeWhile (\<lambda>c. c \<noteq> 64) nm else nm) =
   takeWhile (\<lambda>c. c \<noteq> 64) nm"
proof (cases "str_includes nm (ascii ''@'')")
  case True
  then show ?thesis by simp
next
  case False
  have "64 \<notin> set nm"
  proof
    assume "64 \<in> set nm"
    then obtain ys zs where "nm = ys @ 64 # zs" by (auto dest: split_list)
    then have "nm = ys @ ascii ''@'' @ zs" by (simp add: ascii_def)
    then have "str_includes nm (ascii ''@'')" unfolding str_includes_iff by blast
    with False show False by simp
  qed
  then have t: "takeWhile (\<lambda>c. c \<noteq> 64) nm = nm" by (induction nm) auto
  show ?thesis unfolding t by simp
qed

lemma after_request_success:
  assumes "localStorage app = Some web" and "rb_user data = Some u" and "su_id u = Some i"
    and "su_username u = Some nm"
    and "encodeURIComponent pf (case su_email u of None \<Rightarrow> ascii ''undefined'' | Some x \<Rightarrow> x) = Some e"
  shows "after_request pf title fallback acct request (Reply True (Some data)) app =
           (app\<lparr>localStorage :=
                   Some (web(ascii ''token'' \<mapsto>
                     (case rb_token data of None \<Rightarrow> ascii ''undefined'' | Some t \<Rightarrow> t))),
                userSession :=
                   Some \<lparr>us_id = number_text pf i, us_name = nm, us_email = su_email u,
                         us_handle = takeWhile (\<lambda>c. c \<noteq> 64) nm,
                         us_avatar = ascii ''https://i.pravatar.cc/200?u='' @ e,
                         us_accountType = acct u,
                         us_favorites = [], us_liked = [], us_following = []\<rparr>,
                route := ascii ''/profile''\<rparr>,
            [KeyboardDismiss, request])"
  using assms
  by (simp add: after_request_def build_session_def setUserSession_def Let_def
      handle_of_username)



lemma after_request_no_alert:
  assumes "after_request pf title fallback acct request resp app = (app', effs)"
    and "\<not> list_ex is_alert effs"
  shows "\<exists>data web session.
           resp = Reply True (Some data) \<and> localStorage app = Some web \<and>
           app' = app\<lparr>localStorage :=
                         Some (web(ascii ''token'' \<mapsto>
                           (case rb_token data of None \<Rightarrow> ascii ''undefined'' | Some t \<Rightarrow> t))),
                       userSession := Some session, route := ascii ''/profile''\<rparr>"
proof -
  note D = after_request_def Let_def is_alert_def
  from assms obtain data where r: "resp = Reply True (Some data)"
    by (auto simp: D split: auth_response.splits option.splits if_splits)
  from assms r obtain u where u: "rb_user data = Some u"
    by (auto simp: D split: option.splits)
  from assms r u obtain session where b: "build_session pf u (acct u) = Some session"
    by (auto simp: D split: option.splits)
  from assms r u b obtain web where w: "localStorage app = Some web"
    by (auto simp: D split: option.splits)
  from assms(1) r u b w
  have "app' = app\<lparr>localStorage :=
                         Some (web(ascii ''token'' \<mapsto>
                           (case rb_token data of None \<Rightarrow> ascii ''undefined'' | Some t \<Rightarrow> t))),
                       userSession := Some session, route := ascii ''/profile''\<rparr>"
    by (simp add: after_request_def Let_def setUserSession_def)
  with r w show ?thesis by blast
qed

lemma handleSubmit_after_request:
  assumes "canSubmit form"
  shows "\<exists>request.
           handleSubmit pf form resp app =
             after_request pf (failure_title form) (failure_default form) (session_account form)
               request resp app"
proof (cases "mode form")
  case LoginMode
  then have "session_account form =
        (\<lambda>sessionUser. if su_role sessionUser = Some (ascii ''businessOwner'')
                        then CompanyAccount else UserAccount)"
    by (intro ext) (simp add: session_account_def)
  with LoginMode assms show ?thesis
    by (simp add: handleSubmit_def Let_def failure_title_def failure_default_def) blast
next
  case RegisterMode
  then have "session_account form =
        (\<lambda>sessionUser. if accountType form = CompanyAccount then CompanyAccount else UserAccount)"
    by (intro ext, cases "accountType form") (simp_all add: session_account_def)
  with RegisterMode assms show ?thesis
    by (simp add: handleSubmit_def Let_def failure_title_def failure_default_def) blast
qed

lemma canSubmit_example: "canSubmit example_form"
  by (simp add: canSubmit_def example_form_def trim_def is_ws_def ascii_def)




text \<open>
  Claim C6, as stated, fails for an empty token: a successful login whose reply carries the
  token '' stores it, the map component reads the same empty text back, and, the empty text
  being falsy in \<open>if (t)\<close>, it keeps no token and sends no GET /me request at all.
\<close>

theorem empty_token_counterexample:
  "\<not> list_ex is_alert
       (snd (handleSubmit example_platform example_form (Reply True (Some (example_reply []))) web_app)) \<and>
   asyncStorage_getItem
       (fst (handleSubmit example_platform example_form (Reply True (Some (example_reply []))) web_app))
       (ascii ''token'') = Some [] \<and>
   load_token_and_role
       (fst (handleSubmit example_platform example_form (Reply True (Some (example_reply []))) web_app))
       (Some (True, ascii ''businessOwner'')) example_state = (example_state, [])"
proof -
  have "handleSubmit example_platform example_form (Reply True (Some (example_reply []))) web_app =
        after_request example_platform str_login_error str_login_failed
          (\<lambda>sessionUser. if su_role sessionUser = Some (ascii ''businessOwner'')
                          then CompanyAccount else UserAccount)
          (Fetch (ascii ''POST'') (ascii ''http://localhost:8443/auth/login'') None
             [(ascii ''login'', trim (email example_form)),
              (ascii ''passwd'', trim (password example_form))])
          (Reply True (Some (example_reply []))) web_app"
    using canSubmit_example by (simp add: handleSubmit_def Let_def example_form_def)
  also have "\<dots> =
        (web_app\<lparr>localStorage := Some [ascii ''token'' \<mapsto> []],
             userSession :=
               Some \<lparr>us_id = number_text example_platform (Fin 7), us_name = ascii ''anna@example.org'',
                     us_email = su_email example_user,
                     us_handle = takeWhile (\<lambda>c. c \<noteq> 64) (ascii ''anna@example.org''),
                     us_avatar = ascii ''https://i.pravatar.cc/200?u='' @ ascii ''anna%40example.org'',
                     us_accountType = CompanyAccount,
                     us_favorites = [], us_liked = [], us_following = []\<rparr>,
             route := ascii ''/profile''\<rparr>,
         [KeyboardDismiss,
          Fetch (ascii ''POST'') (ascii ''http://localhost:8443/auth/login'') None
             [(ascii ''login'', trim (email example_form)),
              (ascii ''passwd'', trim (password example_form))]])"
    by (subst after_request_success [where web = Map.empty and u = example_user and i = "Fin 7"
          and nm = "ascii ''anna@example.org''" and e = "ascii ''anna%40example.org''"])
       (simp_all add: web_app_def example_reply_def example_user_def example_platform_def
          ascii_def)
  finally show ?thesis
    by (simp add: is_alert_def asyncStorage_getItem_def load_token_and_role_def)
qed

text \<open>
  Claim C6, amended. For every execution in which a login or registration succeeds (it ends
  without an alert) and stores token t: the server response was ok, t is the token of its
  body, and the token the map component reads on mount equals t, the global localStorage
  that the login screen wrote being the store that AsyncStorage reads in a browser. When t
  is not empty the map component keeps t and its GET /me request carries the header
  'Authorization: Bearer t'; when t is empty it keeps no token and sends no request.
\<close>

theorem map_reads_login_token:
  assumes "handleSubmit pf form resp app = (app', effs)" and "\<not> list_ex is_alert effs"
  shows "\<exists>data web t.
           resp = Reply True (Some data) \<and>
           t = (case rb_token data of None \<Rightarrow> ascii ''undefined'' | Some x \<Rightarrow> x) \<and>
           localStorage app' = Some web \<and> web (ascii ''token'') = Some t \<and>
           asyncStorage_getItem app' (ascii ''token'') = Some t \<and>
           (t = [] \<longrightarrow> load_token_and_role app' me st = (st, [])) \<and>
           (t \<noteq> [] \<longrightarrow>
              load_token_and_role app' me st =
                (case me of
                   None \<Rightarrow> st\<lparr>token := Some t\<rparr>
                 | Some (ok, role) \<Rightarrow>
                     if ok then st\<lparr>token := Some t, userRole := role\<rparr> else st\<lparr>token := Some t\<rparr>,
                 Fetch (ascii ''GET'') (ascii ''http://192.168.1.101:8443/me'')
                   (Some (ascii ''Bearer '' @ t)) [] #
                 (case me of None \<Rightarrow> [ConsoleWarn] | Some r \<Rightarrow> [])))"
proof -
  have c: "canSubmit form"
  proof (rule ccontr)
    assume "\<not> canSubmit form"
    with assms show False by (auto simp: handleSubmit_def is_alert_def)
  qed
  from handleSubmit_after_request [OF c, of pf resp app] assms(1)
  obtain request where
    "after_request pf (failure_title form) (failure_default form) (session_account form)
       request resp app = (app', effs)"
    by auto
  from after_request_no_alert [OF this assms(2)]
  obtain data web session where r: "resp = Reply True (Some data)"
    and a: "app' = app\<lparr>localStorage :=
                         Some (web(ascii ''token'' \<mapsto>
                           (case rb_token data of None \<Rightarrow> ascii ''undefined'' | Some t \<Rightarrow> t))),
                       userSession := Some session, route := ascii ''/profile''\<rparr>"
    by blast
  define t where "t = (case rb_token data of None \<Rightarrow> ascii ''undefined'' | Some x \<Rightarrow> x)"
  have l: "localStorage app' = Some (web(ascii ''token'' \<mapsto> t))"
    by (simp add: a t_def)
  then have g: "asyncStorage_getItem app' (ascii ''token'') = Some t"
    by (simp add: asyncStorage_getItem_def)
  have e: "t = [] \<longrightarrow> load_token_and_role app' me st = (st, [])"
    by (simp add: load_token_and_role_def g)
  have n: "t \<noteq> [] \<longrightarrow>
              load_token_and_role app' me st =
                (case me of
                   None \<Rightarrow> st\<lparr>token := Some t\<rparr>
                 | Some (ok, role) \<Rightarrow>
                     if ok then st\<lparr>token := Some t, userRole := role\<rparr> else st\<lparr>token := Some t\<rparr>,
                 Fetch (ascii ''GET'') (ascii ''http://192.168.1.101:8443/me'')
                   (Some (ascii ''Bearer '' @ t)) [] #
                 (case me of None \<Rightarrow> [ConsoleWarn] | Some r \<Rightarrow> []))"
    by (simp add: load_token_and_role_def g Let_def split: option.splits)
  have "(web(ascii ''token'' \<mapsto> t)) (ascii ''token'') = Some t" by simp
  with r l g e n show ?thesis unfolding t_def by blast
qed

theorem map_reads_login_token_witness:
  "\<not> list_ex is_alert
       (snd (handleSubmit example_platform example_form (Reply True (Some (example_reply (ascii ''abc''))))
          web_app)) \<and>
   load_token_and_role
       (fst (handleSubmit example_platform example_form (Reply True (Some (example_reply (ascii ''abc''))))
          web_app))
       (Some (True, ascii ''businessOwner'')) example_state =
     (example_state\<lparr>token := Some (ascii ''abc''), userRole := ascii ''businessOwner''\<rparr>,
      [Fetch (ascii ''GET'') (ascii ''http://192.168.1.101:8443/me'')
         (Some (ascii ''Bearer abc'')) []])"
proof -
  let ?r = "handleSubmit example_platform example_form (Reply True (Some (example_reply (ascii ''abc''))))
              web_app"
  have e: "?r =
        after_request example_platform str_login_error str_login_failed
          (\<lambda>sessionUser. if su_role sessionUser = Some (ascii ''businessOwner'')
                          then CompanyAccount else UserAccount)
          (Fetch (ascii ''POST'') (ascii ''http://localhost:8443/auth/login'') None
             [(ascii ''login'', trim (email example_form)),
              (ascii ''passwd'', trim (password example_form))])
          (Reply True (Some (example_reply (ascii ''abc'')))) web_app"
    using canSubmit_example by (simp add: handleSubmit_def Let_def example_form_def)
  have "snd ?r =
         [KeyboardDismiss,
          Fetch (ascii ''POST'') (ascii ''http://localhost:8443/auth/login'') None
             [(ascii ''login'', trim (email example_form)),
              (ascii ''passwd'', trim (password example_form))]]"
    unfolding e
    by (subst after_request_success [where web = Map.empty and u = example_user and i = "Fin 7"
          and nm = "ascii ''anna@example.org''" and e = "ascii ''anna%40example.org''"])
       (simp_all add: web_app_def example_reply_def example_user_def example_platform_def
          ascii_def)
  then have na: "\<not> list_ex is_alert (snd ?r)" by (simp add: is_alert_def)
  have p: "?r = (fst ?r, snd ?r)" by simp
  from map_reads_login_token [where pf = example_platform and me = "Some (True, ascii ''businessOwner'')"
      and st = example_state, OF p na]
  obtain data web t where r: "Reply True (Some (example_reply (ascii ''abc''))) = Reply True (Some data)"
    and t: "t = (case rb_token data of None \<Rightarrow> ascii ''undefined'' | Some x \<Rightarrow> x)"
    and l: "t \<noteq> [] \<longrightarrow>
              load_token_and_role (fst ?r) (Some (True, ascii ''businessOwner'')) example_state =
                (case Some (True, ascii ''businessOwner'') of
                   None \<Rightarrow> example_state\<lparr>token := Some t\<rparr>
                 | Some (ok, role) \<Rightarrow>
                     if ok then example_state\<lparr>token := Some t, userRole := role\<rparr>
                     else example_state\<lparr>token := Some t\<rparr>,
                 Fetch (ascii ''GET'') (ascii ''http://192.168.1.101:8443/me'')
                   (Some (ascii ''Bearer '' @ t)) [] #
                 (case Some (True, ascii ''businessOwner'') of
                    None \<Rightarrow> [ConsoleWarn] | Some r \<Rightarrow> []))"
    by blast
  from r have d: "data = example_reply (ascii ''abc'')" by simp
  have tv: "t = ascii ''abc''" by (simp add: t d example_reply_def)
  have b: "ascii ''Bearer '' @ ascii ''abc'' = ascii ''Bearer abc''" by (simp add: ascii_def)
  have "t \<noteq> []" by (simp add: tv ascii_def)
  with l have "load_token_and_role (fst ?r) (Some (True, ascii ''businessOwner'')) example_state =
     (example_state\<lparr>token := Some (ascii ''abc''), userRole := ascii ''businessOwner''\<rparr>,
      [Fetch (ascii ''GET'') (ascii ''http://192.168.1.101:8443/me'')
         (Some (ascii ''Bearer abc'')) []])"
    by (simp add: tv b)
  with na show ?thesis by simp
qed

section \<open>The database schema scripts\<close>

text \<open>
  The data definition statements of the two schema scripts, as data, and what running them
  on a MySQL (InnoDB) database does to the catalogue.
\<close>

datatype sql_type = TInt | TVarchar nat | TText | TDecimal nat nat | TDate | TEnum "string list"

datatype on_delete = Cascade | SetNull | Restrict

record column =
  c_name :: string
  c_type :: sql_type
  c_not_null :: bool
  c_primary_key :: bool
  c_unique :: bool
  c_auto_increment :: bool
  c_default :: "string option"

record foreign_key =
  fk_column :: string
  fk_table :: string
  fk_ref :: string
  fk_on_delete :: on_delete

record table_def =
  t_name :: string
  t_columns :: "column list"
  t_foreign_keys :: "foreign_key list"

datatype statement =
    CreateTableIfNotExists table_def
  | CreateIndex string string string

record catalogue =
  tables :: "table_def list"
  indexes :: "(string \<times> string \<times> string) list"

datatype sql_error =
    NoSuchTable string | NoSuchColumn string | DuplicateIndex string | SetNullOnNotNull string

definition col :: "string \<Rightarrow> sql_type \<Rightarrow> column" where
  "col n ty = \<lparr>c_name = n, c_type = ty, c_not_null = False, c_primary_key = False,
               c_unique = False, c_auto_increment = False, c_default = None\<rparr>"

definition find_table :: "catalogue \<Rightarrow> string \<Rightarrow> table_def option" where
  "find_table cat n = find (\<lambda>t. t_name t = n) (tables cat)"

definition has_column :: "table_def \<Rightarrow> string \<Rightarrow> bool" where
  "has_column t c = list_ex (\<lambda>k. c_name k = c) (t_columns t)"

definition not_null_column :: "table_def \<Rightarrow> string \<Rightarrow> bool" where
  "not_null_column t c =
     list_ex (\<lambda>k. c_name k = c \<and> (c_not_null k \<or> c_primary_key k)) (t_columns t)"

text \<open>
  A foreign key needs its own column, and its parent table and column, to exist (the table
  being created may refer to itself); ON DELETE SET NULL is refused on a NOT NULL column.
\<close>

definition fk_target_error :: "catalogue \<Rightarrow> table_def \<Rightarrow> foreign_key \<Rightarrow> sql_error option" where
  "fk_target_error cat t fk =
     (if \<not> has_column t (fk_column fk) then Some (NoSuchColumn (fk_column fk))
      else if fk_on_delete fk = SetNull \<and> not_null_column t (fk_column fk)
      then Some (SetNullOnNotNull (fk_column fk))
      else
        (case (if fk_table fk = t_name t then Some t else find_table cat (fk_table fk)) of
           None \<Rightarrow> Some (NoSuchTable (fk_table fk))
         | Some parent \<Rightarrow>
             if has_column parent (fk_ref fk) then None else Some (NoSuchColumn (fk_ref fk))))"

fun first_error :: "sql_error option list \<Rightarrow> sql_error option" where
  "first_error [] = None"
| "first_error (None # es) = first_error es"
| "first_error (Some e # es) = Some e"

definition exec :: "statement \<Rightarrow> catalogue \<Rightarrow> sql_error + catalogue" where
  "exec st cat =
     (case st of
        CreateTableIfNotExists t \<Rightarrow>
          (case find_table cat (t_name t) of
             Some existing \<Rightarrow> Inr cat
           | None \<Rightarrow>
               (case first_error (map (fk_target_error cat t) (t_foreign_keys t)) of
                  Some e \<Rightarrow> Inl e
                | None \<Rightarrow> Inr (cat\<lparr>tables := tables cat @ [t]\<rparr>)))
      | CreateIndex n tn cn \<Rightarrow>
          (case find_table cat tn of
             None \<Rightarrow> Inl (NoSuchTable tn)
           | Some t \<Rightarrow>
               if \<not> has_column t cn then Inl (NoSuchColumn cn)
               else if list_ex (\<lambda>(m, tm, cm). m = n \<and> tm = tn) (indexes cat)
               then Inl (DuplicateIndex n)
               else Inr (cat\<lparr>indexes := indexes cat @ [(n, tn, cn)]\<rparr>)))"

fun run_script :: "statement list \<Rightarrow> catalogue \<Rightarrow> sql_error + catalogue" where
  "run_script [] cat = Inr cat"
| "run_script (st # sts) cat =
     (case exec st cat of Inl e \<Rightarrow> Inl e | Inr cat' \<Rightarrow> run_script sts cat')"

definition empty_catalogue :: catalogue where
  "empty_catalogue = \<lparr>tables = [], indexes = []\<rparr>"

definition role_type :: sql_type where
  "role_type = TEnum [''user'', ''businessOwner'', ''moderator'', ''admin'']"

definition owner_fk :: foreign_key where
  "owner_fk = \<lparr>fk_column = ''owner_id'', fk_table = ''users'', fk_ref = ''id'',
               fk_on_delete = SetNull\<rparr>"

text \<open>src/backend/app/init.sql\<close>

definition app_users_table :: table_def where
  "app_users_table =
     \<lparr>t_name = ''users'',
      t_columns =
        [(col ''id'' TInt)\<lparr>c_auto_increment := True, c_primary_key := True\<rparr>,
         (col ''username'' (TVarchar 50))\<lparr>c_unique := True, c_not_null := True\<rparr>,
         (col ''password'' (TVarchar 64))\<lparr>c_not_null := True\<rparr>,
         (col ''role'' role_type)\<lparr>c_default := Some ''user''\<rparr>,
         col ''token'' (TVarchar 64)],
      t_foreign_keys = []\<rparr>"

definition app_places_table :: table_def where
  "app_places_table =
     \<lparr>t_name = ''places'',
      t_columns =
        [(col ''id'' TInt)\<lparr>c_auto_increment := True, c_primary_key := True\<rparr>,
         (col ''name'' (TVarchar 100))\<lparr>c_not_null := True\<rparr>,
         col ''description'' TText,
         col ''owner_id'' TInt],
      t_foreign_keys = [owner_fk]\<rparr>"

definition app_init_sql :: "statement list" where
  "app_init_sql =
     [CreateTableIfNotExists app_users_table, CreateTableIfNotExists app_places_table]"

definition app_schema :: catalogue where
  "app_schema = \<lparr>tables = [app_users_table, app_places_table], indexes = []\<rparr>"

text \<open>The schema script with the reviews table (src/unnamed/part\_002).\<close>

definition users_table :: table_def where
  "users_table =
     \<lparr>t_name = ''users'',
      t_columns =
        [(col ''id'' TInt)\<lparr>c_auto_increment := True, c_primary_key := True\<rparr>,
         (col ''username'' (TVarchar 50))\<lparr>c_unique := True, c_not_null := True\<rparr>,
         (col ''email'' (TVarchar 100))\<lparr>c_unique := True\<rparr>,
         (col ''password'' (TVarchar 64))\<lparr>c_not_null := True\<rparr>,
         (col ''role'' role_type)\<lparr>c_default := Some ''user''\<rparr>,
         col ''token'' (TVarchar 64)],
      t_foreign_keys = []\<rparr>"

definition places_table :: table_def where
  "places_table =
     \<lparr>t_name = ''places'',
      t_columns =
        [(col ''id'' TInt)\<lparr>c_auto_increment := True, c_primary_key := True\<rparr>,
         (col ''name'' (TVarchar 100))\<lparr>c_not_null := True\<rparr>,
         col ''description'' TText,
         col ''lat'' (TDecimal 9 6),
         col ''lon'' (TDecimal 9 6),
         col ''owner_id'' TInt],
      t_foreign_keys = [owner_fk]\<rparr>"

definition reviews_table :: table_def where
  "reviews_table =
     \<lparr>t_name = ''reviews'',
      t_columns =
        [(col ''id'' TInt)\<lparr>c_auto_increment := True, c_primary_key := True\<rparr>,
         (col ''place_id'' TInt)\<lparr>c_not_null := True\<rparr>,
         (col ''user_id'' TInt)\<lparr>c_not_null := True\<rparr>,
         (col ''text'' TText)\<lparr>c_not_null := True\<rparr>,
         (col ''created_at'' TDate)\<lparr>c_not_null := True, c_default := Some ''(CURRENT_DATE)''\<rparr>],
      t_foreign_keys =
        [\<lparr>fk_column = ''place_id'', fk_table = ''places'', fk_ref = ''id'',
          fk_on_delete = Cascade\<rparr>,
         \<lparr>fk_column = ''user_id'', fk_table = ''users'', fk_ref = ''id'',
          fk_on_delete = Cascade\<rparr>]\<rparr>"

definition init_sql :: "statement list" where
  "init_sql =
     [CreateTableIfNotExists users_table,
      CreateTableIfNotExists places_table,
      CreateTableIfNotExists reviews_table,
      CreateIndex ''idx_reviews_place_id'' ''reviews'' ''place_id'',
      CreateIndex ''idx_reviews_user_id'' ''reviews'' ''user_id'']"

definition schema :: catalogue where
  "schema =
     \<lparr>tables = [users_table, places_table, reviews_table],
      indexes = [(''idx_reviews_place_id'', ''reviews'', ''place_id''),
                 (''idx_reviews_user_id'', ''reviews'', ''user_id'')]\<rparr>"

lemma run_init_sql: "run_script init_sql empty_catalogue = Inr schema"
  by (simp add: init_sql_def empty_catalogue_def schema_def exec_def find_table_def
      fk_target_error_def has_column_def not_null_column_def users_table_def places_table_def
      reviews_table_def owner_fk_def col_def)

text \<open>
  The shorter script under backend/app creates two tables only. Run after it, the longer
  script finds users and places in the catalogue, skips them (IF NOT EXISTS) and adds the
  reviews table and its indexes.
\<close>

definition upgraded_schema :: catalogue where
  "upgraded_schema =
     \<lparr>tables = [app_users_table, app_places_table, reviews_table],
      indexes = [(''idx_reviews_place_id'', ''reviews'', ''place_id''),
                 (''idx_reviews_user_id'', ''reviews'', ''user_id'')]\<rparr>"

lemma run_app_init_sql: "run_script app_init_sql empty_catalogue = Inr app_schema"
  by (simp add: app_init_sql_def app_schema_def empty_catalogue_def exec_def find_table_def
      fk_target_error_def has_column_def not_null_column_def app_users_table_def
      app_places_table_def owner_fk_def col_def)

lemma run_init_sql_after_app: "run_script init_sql app_schema = Inr upgraded_schema"
  by (simp add: init_sql_def app_schema_def upgraded_schema_def exec_def find_table_def
      fk_target_error_def has_column_def not_null_column_def app_users_table_def
      app_places_table_def users_table_def places_table_def reviews_table_def owner_fk_def
      col_def)


subsection \<open>Rows and referential actions\<close>

record user_row =
  u_id :: int
  u_username :: string
  u_email :: "string option"
  u_password :: string
  u_role :: "string option"
  u_token :: "string option"

record place_row =
  pl_id :: int
  pl_name :: string
  pl_description :: "string option"
  pl_lat :: "rat option"
  pl_lon :: "rat option"
  pl_owner_id :: "int option"

record review_row =
  r_id :: int
  r_place_id :: int
  r_user_id :: int
  r_text :: string
  r_created_at :: string

record database =
  db_users :: "user_row list"
  db_places :: "place_row list"
  db_reviews :: "review_row list"

text \<open>The ON DELETE action declared for a column of a child table towards a parent table.\<close>

definition fk_action :: "catalogue \<Rightarrow> string \<Rightarrow> string \<Rightarrow> string \<Rightarrow> on_delete option" where
  "fk_action cat child column parent =
     (case find_table cat child of
        None \<Rightarrow> None
      | Some t \<Rightarrow>
          map_option fk_on_delete
            (find (\<lambda>fk. fk_column fk = column \<and> fk_table fk = parent) (t_foreign_keys t)))"

definition nullable_column :: "catalogue \<Rightarrow> string \<Rightarrow> string \<Rightarrow> bool" where
  "nullable_column cat tn c =
     (case find_table cat tn of
        None \<Rightarrow> False
      | Some t \<Rightarrow> has_column t c \<and> \<not> not_null_column t c)"

text \<open>
  What the engine does to the child rows when parent rows are deleted: \<open>hit\<close> selects the
  children that refer to a deleted parent, \<open>nullify\<close> clears the referring column (there
  is none for a NOT NULL column). \<open>None\<close> is the refusal of the statement.
\<close>

definition ref_action ::
  "on_delete option \<Rightarrow> ('r \<Rightarrow> bool) \<Rightarrow> ('r \<Rightarrow> 'r) option \<Rightarrow> 'r list \<Rightarrow> 'r list option" where
  "ref_action act hit nullify rows =
     (case act of
        None \<Rightarrow> Some rows
      | Some Cascade \<Rightarrow> Some (filter (\<lambda>r. \<not> hit r) rows)
      | Some SetNull \<Rightarrow>
          (case nullify of
             None \<Rightarrow> None
           | Some f \<Rightarrow> Some (map (\<lambda>r. if hit r then f r else r) rows))
      | Some Restrict \<Rightarrow> if list_ex hit rows then None else Some rows)"

definition delete_place :: "catalogue \<Rightarrow> int \<Rightarrow> database \<Rightarrow> database option" where
  "delete_place cat pid db =
     (case ref_action (fk_action cat ''reviews'' ''place_id'' ''places'')
             (\<lambda>r. r_place_id r = pid) None (db_reviews db) of
        None \<Rightarrow> None
      | Some rs \<Rightarrow>
          Some (db\<lparr>db_places := filter (\<lambda>p. pl_id p \<noteq> pid) (db_places db), db_reviews := rs\<rparr>))"

fun delete_places :: "catalogue \<Rightarrow> int list \<Rightarrow> database \<Rightarrow> database option" where
  "delete_places cat [] db = Some db"
| "delete_places cat (pid # pids) db =
     (case delete_place cat pid db of None \<Rightarrow> None | Some db' \<Rightarrow> delete_places cat pids db')"

definition delete_user :: "catalogue \<Rightarrow> int \<Rightarrow> database \<Rightarrow> database option" where
  "delete_user cat uid db =
     (case ref_action (fk_action cat ''reviews'' ''user_id'' ''users'')
             (\<lambda>r. r_user_id r = uid) None (db_reviews db) of
        None \<Rightarrow> None
      | Some rs \<Rightarrow>
          (let db1 = db\<lparr>db_users := filter (\<lambda>u. u_id u \<noteq> uid) (db_users db), db_reviews := rs\<rparr>
           in case fk_action cat ''places'' ''owner_id'' ''users'' of
                Some Cascade \<Rightarrow>
                  delete_places cat
                    (map pl_id (filter (\<lambda>p. pl_owner_id p = Some uid) (db_places db))) db1
              | act \<Rightarrow>
                  (case ref_action act (\<lambda>p. pl_owner_id p = Some uid)
                          (Some (\<lambda>p. p\<lparr>pl_owner_id := None\<rparr>)) (db_places db) of
                     None \<Rightarrow> None
                   | Some ps \<Rightarrow> Some (db1\<lparr>db_places := ps\<rparr>))))"

definition insert_review :: "catalogue \<Rightarrow> review_row \<Rightarrow> database \<Rightarrow> database option" where
  "insert_review cat r db =
     (if r_id r \<in> set (map r_id (db_reviews db)) then None
      else if fk_action cat ''reviews'' ''place_id'' ''places'' \<noteq> None \<and>
              r_place_id r \<notin> set (map pl_id (db_places db)) then None
      else if fk_action cat ''reviews'' ''user_id'' ''users'' \<noteq> None \<and>
              r_user_id r \<notin> set (map u_id (db_users db)) then None
      else Some (db\<lparr>db_reviews := db_reviews db @ [r]\<rparr>))"

definition insert_place :: "catalogue \<Rightarrow> place_row \<Rightarrow> database \<Rightarrow> database option" where
  "insert_place cat p db =
     (if pl_id p \<in> set (map pl_id (db_places db)) then None
      else if fk_action cat ''places'' ''owner_id'' ''users'' \<noteq> None \<and>
              (case pl_owner_id p of None \<Rightarrow> False
               | Some u \<Rightarrow> u \<notin> set (map u_id (db_users db))) then None
      else Some (db\<lparr>db_places := db_places db @ [p]\<rparr>))"

definition insert_user :: "user_row \<Rightarrow> database \<Rightarrow> database option" where
  "insert_user u db =
     (if u_id u \<in> set (map u_id (db_users db)) then None
      else Some (db\<lparr>db_users := db_users db @ [u]\<rparr>))"

text \<open>Referential integrity: every reference that is not NULL has its parent row.\<close>

definition fk_ok :: "database \<Rightarrow> bool" where
  "fk_ok db \<longleftrightarrow>
     (\<forall>r \<in> set (db_reviews db).
        r_place_id r \<in> set (map pl_id (db_places db)) \<and>
        r_user_id r \<in> set (map u_id (db_users db))) \<and>
     (\<forall>p \<in> set (db_places db). \<forall>u. pl_owner_id p = Some u \<longrightarrow> u \<in> set (map u_id (db_users db)))"

lemma schema_actions:
  "fk_action schema ''reviews'' ''place_id'' ''places'' = Some Cascade"
  "fk_action schema ''reviews'' ''user_id'' ''users'' = Some Cascade"
  "fk_action schema ''places'' ''owner_id'' ''users'' = Some SetNull"
  by (simp_all add: fk_action_def schema_def find_table_def users_table_def places_table_def
      reviews_table_def owner_fk_def)

lemma schema_nullable:
  "nullable_column schema ''places'' ''lat''" "nullable_column schema ''places'' ''lon''"
  by (simp_all add: nullable_column_def schema_def find_table_def users_table_def
      places_table_def has_column_def not_null_column_def col_def)

lemma delete_place_schema:
  "delete_place schema pid db =
     Some (db\<lparr>db_places := filter (\<lambda>p. pl_id p \<noteq> pid) (db_places db),
              db_reviews := filter (\<lambda>r. r_place_id r \<noteq> pid) (db_reviews db)\<rparr>)"
  by (simp add: delete_place_def schema_actions ref_action_def)

lemma delete_user_schema:
  "delete_user schema uid db =
     Some (db\<lparr>db_users := filter (\<lambda>u. u_id u \<noteq> uid) (db_users db),
              db_reviews := filter (\<lambda>r. r_user_id r \<noteq> uid) (db_reviews db),
              db_places := map (\<lambda>p. if pl_owner_id p = Some uid then p\<lparr>pl_owner_id := None\<rparr> else p)
                             (db_places db)\<rparr>)"
  by (simp add: delete_user_def schema_actions ref_action_def Let_def)

lemma ids_filter: "f ` set (filter (\<lambda>y. f y \<noteq> k) ys) = f ` set ys - {k}"
  by auto

lemma place_ids_nullify:
  "pl_id ` set (map (\<lambda>p. if c p then p\<lparr>pl_owner_id := None\<rparr> else p) ps) = pl_id ` set ps"
  by (induction ps) auto

lemma owner_after_nullify:
  assumes "q \<in> set (map (\<lambda>p. if pl_owner_id p = Some uid then p\<lparr>pl_owner_id := None\<rparr> else p) ps)"
    and "pl_owner_id q = Some u"
  shows "u \<noteq> uid \<and> (\<exists>p \<in> set ps. pl_owner_id p = Some u)"
  using assms by (induction ps) (auto split: if_splits)

lemma delete_place_fk_ok:
  assumes "fk_ok db" and "delete_place schema pid db = Some db'"
  shows "fk_ok db'"
proof -
  have "db' = db\<lparr>db_places := filter (\<lambda>p. pl_id p \<noteq> pid) (db_places db),
                  db_reviews := filter (\<lambda>r. r_place_id r \<noteq> pid) (db_reviews db)\<rparr>"
    using assms(2) by (simp add: delete_place_schema)
  then have P: "db_places db' = filter (\<lambda>p. pl_id p \<noteq> pid) (db_places db)"
    and R: "db_reviews db' = filter (\<lambda>r. r_place_id r \<noteq> pid) (db_reviews db)"
    and U: "db_users db' = db_users db"
    by simp_all
  note A = assms(1) [unfolded fk_ok_def]
  show ?thesis
    unfolding fk_ok_def P R U set_map ids_filter
  proof (intro conjI ballI allI impI)
    fix r assume "r \<in> set (filter (\<lambda>r. r_place_id r \<noteq> pid) (db_reviews db))"
    then have r: "r \<in> set (db_reviews db)" and n: "r_place_id r \<noteq> pid" by simp_all
    from A r show "r_place_id r \<in> pl_id ` set (db_places db) - {pid}" using n by (simp add: set_map)
    from A r show "r_user_id r \<in> u_id ` set (db_users db)" by (simp add: set_map)
  next
    fix p u assume "p \<in> set (filter (\<lambda>p. pl_id p \<noteq> pid) (db_places db))"
      and o: "pl_owner_id p = Some u"
    then have "p \<in> set (db_places db)" by simp
    with A o show "u \<in> u_id ` set (db_users db)" by (simp add: set_map)
  qed
qed

lemma delete_user_fk_ok:
  assumes "fk_ok db" and "delete_user schema uid db = Some db'"
  shows "fk_ok db'"
proof -
  have "db' = db\<lparr>db_users := filter (\<lambda>u. u_id u \<noteq> uid) (db_users db),
              db_reviews := filter (\<lambda>r. r_user_id r \<noteq> uid) (db_reviews db),
              db_places := map (\<lambda>p. if pl_owner_id p = Some uid then p\<lparr>pl_owner_id := None\<rparr> else p)
                             (db_places db)\<rparr>"
    using assms(2) by (simp add: delete_user_schema)
  then have P: "db_places db' =
        map (\<lambda>p. if pl_owner_id p = Some uid then p\<lparr>pl_owner_id := None\<rparr> else p) (db_places db)"
    and R: "db_reviews db' = filter (\<lambda>r. r_user_id r \<noteq> uid) (db_reviews db)"
    and U: "db_users db' = filter (\<lambda>u. u_id u \<noteq> uid) (db_users db)"
    by simp_all
  note A = assms(1) [unfolded fk_ok_def set_map]
  have ids: "pl_id ` set (db_places db') = pl_id ` set (db_places db)"
    unfolding P by (rule place_ids_nullify)
  have uids: "u_id ` set (db_users db') = u_id ` set (db_users db) - {uid}"
    unfolding U by (rule ids_filter)
  show ?thesis
    unfolding fk_ok_def set_map ids uids
  proof (intro conjI ballI allI impI)
    fix r assume "r \<in> set (db_reviews db')"
    then have r: "r \<in> set (db_reviews db)" and n: "r_user_id r \<noteq> uid" by (simp_all add: R)
    from A r show "r_place_id r \<in> pl_id ` set (db_places db)" by simp
    from A r n show "r_user_id r \<in> u_id ` set (db_users db) - {uid}" by simp
  next
    fix q u assume "q \<in> set (db_places db')" and o: "pl_owner_id q = Some u"
    then have "u \<noteq> uid \<and> (\<exists>p \<in> set (db_places db). pl_owner_id p = Some u)"
      unfolding P by (rule owner_after_nullify)
    with A show "u \<in> u_id ` set (db_users db) - {uid}" by blast
  qed
qed

lemma insert_review_fk_ok:
  assumes "fk_ok db" and "insert_review schema r db = Some db'"
  shows "fk_ok db'" and "r_place_id r \<in> set (map pl_id (db_places db))"
    and "r_user_id r \<in> set (map u_id (db_users db))"
  using assms by (auto simp: insert_review_def schema_actions fk_ok_def split: if_splits)

lemma insert_place_fk_ok:
  assumes "fk_ok db" and "insert_place schema p db = Some db'"
  shows "fk_ok db'"
  using assms
  by (auto simp: insert_place_def schema_actions fk_ok_def split: if_splits option.splits)

lemma insert_user_fk_ok:
  assumes "fk_ok db" and "insert_user u db = Some db'"
  shows "fk_ok db'"
  using assms by (auto simp: insert_user_def fk_ok_def split: if_splits)

definition example_db :: database where
  "example_db =
     \<lparr>db_users = [\<lparr>u_id = 1, u_username = ''anna'', u_email = None, u_password = ''x'',
                   u_role = Some ''businessOwner'', u_token = None\<rparr>],
      db_places = [\<lparr>pl_id = 10, pl_name = ''Cup'', pl_description = None, pl_lat = Some (48 / 1),
                    pl_lon = None, pl_owner_id = Some 1\<rparr>],
      db_reviews = [\<lparr>r_id = 100, r_place_id = 10, r_user_id = 1, r_text = ''good'',
                     r_created_at = ''2025-01-01''\<rparr>]\<rparr>"

lemma delete_place_effect:
  assumes "fk_ok db"
  shows "\<exists>db'. delete_place schema pid db = Some db' \<and> fk_ok db' \<and>
           pid \<notin> set (map pl_id (db_places db')) \<and>
           (\<forall>r \<in> set (db_reviews db'). r_place_id r \<noteq> pid) \<and>
           db_users db' = db_users db"
proof -
  let ?db = "db\<lparr>db_places := filter (\<lambda>p. pl_id p \<noteq> pid) (db_places db),
               db_reviews := filter (\<lambda>r. r_place_id r \<noteq> pid) (db_reviews db)\<rparr>"
  have d: "delete_place schema pid db = Some ?db" by (rule delete_place_schema)
  have "fk_ok ?db" using assms d by (rule delete_place_fk_ok)
  moreover have "pid \<notin> set (map pl_id (db_places ?db))" by auto
  moreover have "\<forall>r \<in> set (db_reviews ?db). r_place_id r \<noteq> pid" by simp
  moreover have "db_users ?db = db_users db" by simp
  ultimately show ?thesis using d by blast
qed

lemma delete_user_effect:
  assumes "fk_ok db"
  shows "\<exists>db'. delete_user schema uid db = Some db' \<and> fk_ok db' \<and>
           uid \<notin> set (map u_id (db_users db')) \<and>
           (\<forall>r \<in> set (db_reviews db'). r_user_id r \<noteq> uid) \<and>
           map pl_id (db_places db') = map pl_id (db_places db) \<and>
           (\<forall>p \<in> set (db_places db'). pl_owner_id p \<noteq> Some uid)"
proof -
  let ?db = "db\<lparr>db_users := filter (\<lambda>u. u_id u \<noteq> uid) (db_users db),
               db_reviews := filter (\<lambda>r. r_user_id r \<noteq> uid) (db_reviews db),
               db_places := map (\<lambda>p. if pl_owner_id p = Some uid then p\<lparr>pl_owner_id := None\<rparr> else p)
                              (db_places db)\<rparr>"
  have d: "delete_user schema uid db = Some ?db" by (rule delete_user_schema)
  have "fk_ok ?db" using assms d by (rule delete_user_fk_ok)
  moreover have "uid \<notin> set (map u_id (db_users ?db))" by auto
  moreover have "\<forall>r \<in> set (db_reviews ?db). r_user_id r \<noteq> uid" by simp
  moreover have "map pl_id (db_places ?db) = map pl_id (db_places db)"
    by (simp add: comp_def if_distrib cong: if_cong)
  moreover have "\<forall>p \<in> set (db_places ?db). pl_owner_id p \<noteq> Some uid" by auto
  ultimately show ?thesis using d by blast
qed

text \<open>
  The schema in the words of claim C3: exactly the three tables users, places and reviews,
  nullable columns lat and lon in places, both references of reviews with ON DELETE CASCADE,
  and places.owner\_id referring to users with ON DELETE SET NULL.
\<close>

definition claimed_schema :: "catalogue \<Rightarrow> bool" where
  "claimed_schema cat \<longleftrightarrow>
     set (map t_name (tables cat)) = {''users'', ''places'', ''reviews''} \<and>
     distinct (map t_name (tables cat)) \<and>
     nullable_column cat ''places'' ''lat'' \<and> nullable_column cat ''places'' ''lon'' \<and>
     fk_action cat ''reviews'' ''place_id'' ''places'' = Some Cascade \<and>
     fk_action cat ''reviews'' ''user_id'' ''users'' = Some Cascade \<and>
     fk_action cat ''places'' ''owner_id'' ''users'' = Some SetNull"

lemma app_schema_facts:
  "map t_name (tables app_schema) = [''users'', ''places'']"
  "find_table app_schema ''reviews'' = None"
  "\<not> nullable_column app_schema ''places'' ''lat''"
  "\<not> nullable_column app_schema ''places'' ''lon''"
  "fk_action app_schema ''places'' ''owner_id'' ''users'' = Some SetNull"
  by (simp_all add: app_schema_def app_users_table_def app_places_table_def find_table_def
      nullable_column_def has_column_def fk_action_def owner_fk_def col_def)

lemma upgraded_schema_facts:
  "map t_name (tables upgraded_schema) = [''users'', ''places'', ''reviews'']"
  "\<not> nullable_column upgraded_schema ''places'' ''lat''"
  "\<not> nullable_column upgraded_schema ''places'' ''lon''"
  by (simp_all add: upgraded_schema_def app_users_table_def app_places_table_def
      reviews_table_def find_table_def nullable_column_def has_column_def col_def)

text \<open>
  Claim C3, as stated, fails for the initialization script under the backend directory,
  src/backend/app/init.sql: run on an empty database it creates two tables, users and
  places; there is no reviews table, and places has no column lat and no column lon.
\<close>

theorem app_init_sql_counterexample:
  "run_script app_init_sql empty_catalogue = Inr app_schema \<and>
   map t_name (tables app_schema) = [''users'', ''places''] \<and>
   find_table app_schema ''reviews'' = None \<and>
   \<not> nullable_column app_schema ''places'' ''lat'' \<and>
   \<not> nullable_column app_schema ''places'' ''lon'' \<and>
   \<not> claimed_schema app_schema"
proof -
  have "\<not> claimed_schema app_schema"
    using app_schema_facts(3) by (simp add: claimed_schema_def)
  with run_app_init_sql app_schema_facts show ?thesis by simp
qed

text \<open>
  Claim C3, amended. The schema script that declares the reviews table
  (src/unnamed/part\_002), run on an empty database, creates exactly three tables, users,
  places and reviews; places carries the nullable columns lat and lon; every reviews row
  references an existing place and an existing user and is deleted with them (ON DELETE
  CASCADE); places.owner\_id references users(id) and is set to NULL when the owning user is
  deleted. The rows are those of a database that satisfies the declared foreign keys, which
  every insertion and deletion keeps. The script src/backend/app/init.sql, run on an empty
  database, creates only users and places, places without lat and lon and with the same
  reference from owner\_id to users(id) (ON DELETE SET NULL); run on a database that this
  shorter script has initialised, the longer script adds the reviews table and leaves
  places as it is, without lat and lon.
\<close>

theorem init_sql_schema:
  "run_script init_sql empty_catalogue = Inr schema \<and>
   claimed_schema schema \<and>
   run_script app_init_sql empty_catalogue = Inr app_schema \<and>
   map t_name (tables app_schema) = [''users'', ''places''] \<and>
   \<not> nullable_column app_schema ''places'' ''lat'' \<and>
   \<not> nullable_column app_schema ''places'' ''lon'' \<and>
   fk_action app_schema ''places'' ''owner_id'' ''users'' = Some SetNull \<and>
   run_script init_sql app_schema = Inr upgraded_schema \<and>
   map t_name (tables upgraded_schema) = [''users'', ''places'', ''reviews''] \<and>
   \<not> nullable_column upgraded_schema ''places'' ''lat'' \<and>
   \<not> nullable_column upgraded_schema ''places'' ''lon'' \<and>
   map t_name (tables schema) = [''users'', ''places'', ''reviews''] \<and>
   nullable_column schema ''places'' ''lat'' \<and> nullable_column schema ''places'' ''lon'' \<and>
   fk_action schema ''reviews'' ''place_id'' ''places'' = Some Cascade \<and>
   fk_action schema ''reviews'' ''user_id'' ''users'' = Some Cascade \<and>
   fk_action schema ''places'' ''owner_id'' ''users'' = Some SetNull \<and>
   (fk_ok db \<longrightarrow>
      (\<forall>r db'. insert_review schema r db = Some db' \<longrightarrow>
         fk_ok db' \<and> r_place_id r \<in> set (map pl_id (db_places db)) \<and>
         r_user_id r \<in> set (map u_id (db_users db))) \<and>
      (\<forall>p db'. insert_place schema p db = Some db' \<longrightarrow> fk_ok db') \<and>
      (\<forall>u db'. insert_user u db = Some db' \<longrightarrow> fk_ok db') \<and>
      (\<exists>db'. delete_place schema pid db = Some db' \<and> fk_ok db' \<and>
           pid \<notin> set (map pl_id (db_places db')) \<and>
           (\<forall>r \<in> set (db_reviews db'). r_place_id r \<noteq> pid) \<and>
           db_users db' = db_users db) \<and>
      (\<exists>db'. delete_user schema uid db = Some db' \<and> fk_ok db' \<and>
           uid \<notin> set (map u_id (db_users db')) \<and>
           (\<forall>r \<in> set (db_reviews db'). r_user_id r \<noteq> uid) \<and>
           map pl_id (db_places db') = map pl_id (db_places db) \<and>
           (\<forall>p \<in> set (db_places db'). pl_owner_id p \<noteq> Some uid)))"
proof -
  have names: "map t_name (tables schema) = [''users'', ''places'', ''reviews'']"
    by (simp add: schema_def users_table_def places_table_def reviews_table_def)
  have dyn: "fk_ok db \<longrightarrow>
      (\<forall>r db'. insert_review schema r db = Some db' \<longrightarrow>
         fk_ok db' \<and> r_place_id r \<in> set (map pl_id (db_places db)) \<and>
         r_user_id r \<in> set (map u_id (db_users db))) \<and>
      (\<forall>p db'. insert_place schema p db = Some db' \<longrightarrow> fk_ok db') \<and>
      (\<forall>u db'. insert_user u db = Some db' \<longrightarrow> fk_ok db') \<and>
      (\<exists>db'. delete_place schema pid db = Some db' \<and> fk_ok db' \<and>
           pid \<notin> set (map pl_id (db_places db')) \<and>
           (\<forall>r \<in> set (db_reviews db'). r_place_id r \<noteq> pid) \<and>
           db_users db' = db_users db) \<and>
      (\<exists>db'. delete_user schema uid db = Some db' \<and> fk_ok db' \<and>
           uid \<notin> set (map u_id (db_users db')) \<and>
           (\<forall>r \<in> set (db_reviews db'). r_user_id r \<noteq> uid) \<and>
           map pl_id (db_places db') = map pl_id (db_places db) \<and>
           (\<forall>p \<in> set (db_places db'). pl_owner_id p \<noteq> Some uid))"
    using insert_review_fk_ok [of db] insert_place_fk_ok [of db] insert_user_fk_ok [of db]
      delete_place_effect [of db pid] delete_user_effect [of db uid]
    by blast
  have claimed: "claimed_schema schema"
    using names schema_nullable schema_actions by (auto simp: claimed_schema_def)
  have short: "run_script app_init_sql empty_catalogue = Inr app_schema \<and>
      map t_name (tables app_schema) = [''users'', ''places''] \<and>
      \<not> nullable_column app_schema ''places'' ''lat'' \<and>
      \<not> nullable_column app_schema ''places'' ''lon'' \<and>
      fk_action app_schema ''places'' ''owner_id'' ''users'' = Some SetNull"
    using run_app_init_sql app_schema_facts by simp
  have after: "run_script init_sql app_schema = Inr upgraded_schema \<and>
      map t_name (tables upgraded_schema) = [''users'', ''places'', ''reviews''] \<and>
      \<not> nullable_column upgraded_schema ''places'' ''lat'' \<and>
      \<not> nullable_column upgraded_schema ''places'' ''lon''"
    using run_init_sql_after_app upgraded_schema_facts by simp
  from run_init_sql claimed short after names schema_nullable schema_actions dyn
  show ?thesis by blast
qed

lemma example_db_ok: "fk_ok example_db"
  by (simp add: fk_ok_def example_db_def)

theorem init_sql_schema_witness:
  "fk_ok example_db \<and>
   (\<exists>db'. delete_user schema 1 example_db = Some db' \<and> fk_ok db' \<and>
        1 \<notin> set (map u_id (db_users db')) \<and>
        (\<forall>r \<in> set (db_reviews db'). r_user_id r \<noteq> 1) \<and>
        map pl_id (db_places db') = map pl_id (db_places example_db) \<and>
        (\<forall>p \<in> set (db_places db'). pl_owner_id p \<noteq> Some 1)) \<and>
   (\<exists>db'. delete_place schema 10 example_db = Some db' \<and> fk_ok db' \<and>
        10 \<notin> set (map pl_id (db_places db')) \<and>
        (\<forall>r \<in> set (db_reviews db'). r_place_id r \<noteq> 10) \<and>
        db_users db' = db_users example_db)"
  using init_sql_schema [of example_db 10 1] example_db_ok by blast

end
